(* ===== verification/Prelude.thy ===== *)
theory Prelude
  imports Main "HOL-Library.Word"
begin

text \<open>
  The shared vocabulary of the development.

  \<^item> \<open>outcome\<close> is what a call of the Rust code can do: return \<open>Ok\<close>, return \<open>Err\<close>, or panic
    (an index or slice out of range, a \<open>bytes::Buf\<close> read past the end). \<open>and_then\<close> is the \<open>?\<close>
    operator: the first error or panic is the result of the whole function.
  \<^item> Byte slices (\<open>&[u8]\<close>) are lists of 8-bit words. The readers of this theory panic exactly
    where the slice operations of the source do. \<open>usize\<close> lengths and positions are natural
    numbers: they are bounded by the length of an allocated slice, so they cannot wrap.
  \<^item> A \<open>buf: impl Buf\<close> argument is its remaining bytes; \<open>get_u8\<close>, \<open>get_u16\<close>, \<open>get_u32\<close> and
    \<open>copy_to_bytes\<close> return the value read and what remains.
  \<^item> Strings are lists of UTF-8 bytes (\<open>char\<close>).

  The collection \<open>reads\<close> turns a reader whose range check has been established into the value
  it reads; \<open>panics\<close> collects the facts that a function never panics.
\<close>

named_theorems reads "readers whose range check holds"
named_theorems panics "functions that never panic"

type_synonym u8 = "8 word"
type_synonym u16 = "16 word"
type_synonym u32 = "32 word"
type_synonym u64 = "64 word"
type_synonym bytes = "u8 list"

section \<open>Outcomes\<close>

datatype ('e, 'a) outcome = Ok 'a | Err 'e | Panic

fun and_then :: "('e, 'a) outcome \<Rightarrow> ('a \<Rightarrow> ('e, 'b) outcome) \<Rightarrow> ('e, 'b) outcome" where
  "and_then (Ok x) f = f x"
| "and_then (Err e) f = Err e"
| "and_then Panic f = Panic"

lemma and_then_cong [fundef_cong]:
  "m = m' \<Longrightarrow> (\<And>x. m' = Ok x \<Longrightarrow> f x = f' x) \<Longrightarrow> and_then m f = and_then m' f'"
  by (cases m') auto

text \<open>With this congruence rule the simplifier runs a computation in order, without unfolding the
  recursive calls that wait under a binder.\<close>

lemma and_then_weak_cong: "m = m' \<Longrightarrow> and_then m f = and_then m' f"
  by simp

lemma and_then_Ok_iff: "and_then m f = Ok y \<longleftrightarrow> (\<exists>x. m = Ok x \<and> f x = Ok y)"
  by (cases m) auto

lemma and_then_Panic_iff: "and_then m f = Panic \<longleftrightarrow> m = Panic \<or> (\<exists>x. m = Ok x \<and> f x = Panic)"
  by (cases m) auto

lemma and_then_OkE:
  assumes "and_then m f = Ok y"
  obtains x where "m = Ok x" "f x = Ok y"
  using assms by (auto simp: and_then_Ok_iff)

lemma and_then_no_panic [intro]:
  "m \<noteq> Panic \<Longrightarrow> (\<And>x. m = Ok x \<Longrightarrow> f x \<noteq> Panic) \<Longrightarrow> and_then m f \<noteq> Panic"
  by (cases m) auto

lemma and_then_assoc: "and_then (and_then m f) g = and_then m (\<lambda>x. and_then (f x) g)"
  by (cases m) auto

text \<open>\<open>Result::ok\<close>: the value, if there is one. A panic is not caught.\<close>

fun result_ok :: "('e, 'a) outcome \<Rightarrow> ('e, 'a option) outcome" where
  "result_ok (Ok x) = Ok (Some x)"
| "result_ok (Err e) = Ok None"
| "result_ok Panic = Panic"

section \<open>Big-endian integers\<close>

definition be_nat :: "bytes \<Rightarrow> nat" where
  "be_nat bs = foldl (\<lambda>n b. n * 256 + unat b) 0 bs"

text \<open>\<open>uN::from_be_bytes\<close>, at whatever width the context asks for.\<close>

definition from_be_bytes :: "bytes \<Rightarrow> 'a::len word" where
  "from_be_bytes bs = word_of_nat (be_nat bs)"

fun nat_to_be :: "nat \<Rightarrow> nat \<Rightarrow> bytes" where
  "nat_to_be 0 n = []"
| "nat_to_be (Suc k) n = nat_to_be k (n div 256) @ [word_of_nat (n mod 256)]"

text \<open>\<open>uN::to_be_bytes\<close>: \<open>k\<close> is the width in bytes.\<close>

definition to_be_bytes :: "nat \<Rightarrow> 'a::len word \<Rightarrow> bytes" where
  "to_be_bytes k w = nat_to_be k (unat w)"

lemma be_nat_Nil [simp]: "be_nat [] = 0"
  by (simp add: be_nat_def)

lemma be_nat_snoc [simp]: "be_nat (bs @ [b]) = be_nat bs * 256 + unat b"
  by (simp add: be_nat_def)

lemma unat_u8_less [simp]: "unat (b :: u8) < 256"
  using unsigned_less [of b, where 'a = nat] by simp

lemma be_nat_bound: "be_nat bs < 256 ^ length bs"
proof (induction bs rule: rev_induct)
  case Nil
  then show ?case by simp
next
  case (snoc b bs)
  have "be_nat (bs @ [b]) < (be_nat bs + 1) * 256"
    using unat_u8_less [of b] by (simp del: unat_u8_less)
  also from snoc have "\<dots> \<le> 256 ^ length bs * 256"
    by (intro mult_right_mono) auto
  finally show ?case by (simp add: mult.commute)
qed

lemma length_nat_to_be [simp]: "length (nat_to_be k n) = k"
  by (induction k n rule: nat_to_be.induct) auto

lemma be_nat_nat_to_be: "n < 256 ^ k \<Longrightarrow> be_nat (nat_to_be k n) = n"
proof (induction k n rule: nat_to_be.induct)
  case (2 k n)
  then have "n div 256 < 256 ^ k"
    by (simp add: less_mult_imp_div_less mult.commute)
  with 2 show ?case by (simp add: unat_of_nat)
qed simp

lemma from_be_bytes_to_be_bytes:
  fixes w :: "'a::len word"
  assumes "LENGTH('a) = 8 * k"
  shows "from_be_bytes (to_be_bytes k w) = w"
proof -
  have "unat w < 256 ^ k"
    using unsigned_less [of w, where 'a = nat] by (simp add: assms power_mult)
  then show ?thesis
    by (simp add: from_be_bytes_def to_be_bytes_def be_nat_nat_to_be)
qed

lemma length_to_be_bytes [simp]: "length (to_be_bytes k w) = k"
  by (simp add: to_be_bytes_def)

lemma from_be_bytes_16 [simp]: "from_be_bytes (to_be_bytes 2 (w :: u16)) = w"
  by (rule from_be_bytes_to_be_bytes) simp

lemma from_be_bytes_32 [simp]: "from_be_bytes (to_be_bytes 4 (w :: u32)) = w"
  by (rule from_be_bytes_to_be_bytes) simp

lemma from_be_bytes_64 [simp]: "from_be_bytes (to_be_bytes 8 (w :: u64)) = w"
  by (rule from_be_bytes_to_be_bytes) simp

lemma from_be_bytes_128 [simp]: "from_be_bytes (to_be_bytes 16 (w :: 128 word)) = w"
  by (rule from_be_bytes_to_be_bytes) simp

lemma unat_from_be_bytes:
  "8 * length bs \<le> LENGTH('a::len) \<Longrightarrow> unat (from_be_bytes bs :: 'a word) = be_nat bs"
proof -
  assume "8 * length bs \<le> LENGTH('a)"
  then have "(2::nat) ^ (8 * length bs) \<le> 2 ^ LENGTH('a)"
    by (rule power_increasing) simp
  with be_nat_bound [of bs] have "be_nat bs < 2 ^ LENGTH('a)"
    by (simp add: power_mult)
  then show ?thesis
    by (simp add: from_be_bytes_def unat_of_nat)
qed

text \<open>The two bytes of a 16-bit value, for decoders that match on them.\<close>

lemma to_be_bytes_2:
  "to_be_bytes 2 (w :: u16) = [word_of_nat (unat w div 256 mod 256), word_of_nat (unat w mod 256)]"
  by (simp add: to_be_bytes_def numeral_2_eq_2)

lemma to_be_bytes_2E:
  obtains b0 b1 where "to_be_bytes 2 (w :: u16) = [b0, b1]" "from_be_bytes [b0, b1] = w"
  using from_be_bytes_16 [of w] that unfolding to_be_bytes_2 by blast

section \<open>Reading slices\<close>

definition at :: "'b list \<Rightarrow> nat \<Rightarrow> ('e, 'b) outcome" where
  "at buf i = (if i < length buf then Ok (buf ! i) else Panic)"

text \<open>\<open>&buf[a..b]\<close>\<close>

definition slice :: "bytes \<Rightarrow> nat \<Rightarrow> nat \<Rightarrow> ('e, bytes) outcome" where
  "slice buf a b = (if a \<le> b \<and> b \<le> length buf then Ok (take (b - a) (drop a buf)) else Panic)"

text \<open>\<open>&buf[a..]\<close>\<close>

definition slice_from :: "bytes \<Rightarrow> nat \<Rightarrow> ('e, bytes) outcome" where
  "slice_from buf a = (if a \<le> length buf then Ok (drop a buf) else Panic)"

text \<open>\<open>u16::from_be_bytes([buf[i], buf[i + 1]])\<close> and its 24, 32 and 64 bit relatives; the 24-bit
  form is \<open>u32::from_be_bytes([0, buf[i], buf[i + 1], buf[i + 2]])\<close>.\<close>

definition be16_at :: "bytes \<Rightarrow> nat \<Rightarrow> ('e, u16) outcome" where
  "be16_at buf i = and_then (slice buf i (i + 2)) (\<lambda>bs. Ok (from_be_bytes bs))"

definition be24_at :: "bytes \<Rightarrow> nat \<Rightarrow> ('e, u32) outcome" where
  "be24_at buf i = and_then (slice buf i (i + 3)) (\<lambda>bs. Ok (from_be_bytes bs))"

definition be32_at :: "bytes \<Rightarrow> nat \<Rightarrow> ('e, u32) outcome" where
  "be32_at buf i = and_then (slice buf i (i + 4)) (\<lambda>bs. Ok (from_be_bytes bs))"

definition be64_at :: "bytes \<Rightarrow> nat \<Rightarrow> ('e, u64) outcome" where
  "be64_at buf i = and_then (slice buf i (i + 8)) (\<lambda>bs. Ok (from_be_bytes bs))"

text \<open>\<open>let mut a = [0u8; n]; a[..k].copy_from_slice(bs)\<close> with \<open>k\<close> the length of \<open>bs\<close>: slicing
  the array panics when \<open>bs\<close> is longer than it.\<close>

definition fill_array :: "nat \<Rightarrow> bytes \<Rightarrow> ('e, bytes) outcome" where
  "fill_array n bs = (if length bs \<le> n then Ok (bs @ replicate (n - length bs) 0) else Panic)"

text \<open>The \<open>bytes::Buf\<close> cursor.\<close>

definition get_u8 :: "bytes \<Rightarrow> ('e, u8 \<times> bytes) outcome" where
  "get_u8 buf = (if 1 \<le> length buf then Ok (buf ! 0, drop 1 buf) else Panic)"

definition get_u16 :: "bytes \<Rightarrow> ('e, u16 \<times> bytes) outcome" where
  "get_u16 buf = (if 2 \<le> length buf then Ok (from_be_bytes (take 2 buf), drop 2 buf) else Panic)"

definition get_u32 :: "bytes \<Rightarrow> ('e, u32 \<times> bytes) outcome" where
  "get_u32 buf = (if 4 \<le> length buf then Ok (from_be_bytes (take 4 buf), drop 4 buf) else Panic)"

definition copy_to_bytes :: "nat \<Rightarrow> bytes \<Rightarrow> ('e, bytes \<times> bytes) outcome" where
  "copy_to_bytes n buf = (if n \<le> length buf then Ok (take n buf, drop n buf) else Panic)"

lemmas reader_defs = at_def slice_def slice_from_def be16_at_def be24_at_def be32_at_def
  be64_at_def fill_array_def get_u8_def get_u16_def get_u32_def copy_to_bytes_def

lemma at_Ok [reads]: "i < length buf \<Longrightarrow> at buf i = Ok (buf ! i)"
  by (simp add: at_def)

lemma slice_Ok [reads]: "a \<le> b \<Longrightarrow> b \<le> length buf \<Longrightarrow> slice buf a b = Ok (take (b - a) (drop a buf))"
  by (simp add: slice_def)

lemma slice_from_Ok [reads]: "a \<le> length buf \<Longrightarrow> slice_from buf a = Ok (drop a buf)"
  by (simp add: slice_from_def)

lemma be16_at_Ok [reads]: "i + 2 \<le> length buf \<Longrightarrow> be16_at buf i = Ok (from_be_bytes (take 2 (drop i buf)))"
  by (simp add: be16_at_def slice_def)

lemma be24_at_Ok [reads]: "i + 3 \<le> length buf \<Longrightarrow> be24_at buf i = Ok (from_be_bytes (take 3 (drop i buf)))"
  by (simp add: be24_at_def slice_def)

lemma be32_at_Ok [reads]: "i + 4 \<le> length buf \<Longrightarrow> be32_at buf i = Ok (from_be_bytes (take 4 (drop i buf)))"
  by (simp add: be32_at_def slice_def)

lemma be64_at_Ok [reads]: "i + 8 \<le> length buf \<Longrightarrow> be64_at buf i = Ok (from_be_bytes (take 8 (drop i buf)))"
  by (simp add: be64_at_def slice_def)

lemma get_u8_Ok [reads]: "1 \<le> length buf \<Longrightarrow> get_u8 buf = Ok (buf ! 0, drop 1 buf)"
  by (simp add: get_u8_def)

lemma get_u16_Ok [reads]: "2 \<le> length buf \<Longrightarrow> get_u16 buf = Ok (from_be_bytes (take 2 buf), drop 2 buf)"
  by (simp add: get_u16_def)

lemma get_u32_Ok [reads]: "4 \<le> length buf \<Longrightarrow> get_u32 buf = Ok (from_be_bytes (take 4 buf), drop 4 buf)"
  by (simp add: get_u32_def)

lemma copy_to_bytes_Ok [reads]: "n \<le> length buf \<Longrightarrow> copy_to_bytes n buf = Ok (take n buf, drop n buf)"
  by (simp add: copy_to_bytes_def)

lemma fill_array_Ok [reads]:
  "length bs \<le> n \<Longrightarrow> fill_array n bs = Ok (bs @ replicate (n - length bs) 0)"
  by (simp add: fill_array_def)

text \<open>Where a reader panics.\<close>

lemma reader_Panic_iff [simp]:
  "at xs i = Panic \<longleftrightarrow> length xs \<le> i"
  "slice buf a b = Panic \<longleftrightarrow> b < a \<or> length buf < b"
  "slice_from buf a = Panic \<longleftrightarrow> length buf < a"
  "be16_at buf i = Panic \<longleftrightarrow> length buf < i + 2"
  "be24_at buf i = Panic \<longleftrightarrow> length buf < i + 3"
  "be32_at buf i = Panic \<longleftrightarrow> length buf < i + 4"
  "be64_at buf i = Panic \<longleftrightarrow> length buf < i + 8"
  "get_u8 buf = Panic \<longleftrightarrow> buf = []"
  "get_u16 buf = Panic \<longleftrightarrow> length buf < 2"
  "get_u32 buf = Panic \<longleftrightarrow> length buf < 4"
  "copy_to_bytes n buf = Panic \<longleftrightarrow> length buf < n"
  "fill_array n buf = Panic \<longleftrightarrow> n < length buf"
  by (auto simp: reader_defs and_then_Panic_iff Suc_le_eq)

lemma unat_word_of_nat: "n < 2 ^ LENGTH('a) \<Longrightarrow> unat (word_of_nat n :: 'a::len word) = n"
  by (simp add: unat_of_nat)

text \<open>What a successful read leaves: the facts the termination proofs of the parsing loops use.\<close>

lemma get_u8_rest: "get_u8 buf = Ok (b, r) \<Longrightarrow> length r < length buf"
  by (auto simp: get_u8_def split: if_splits)

lemma get_u16_rest: "get_u16 buf = Ok (b, r) \<Longrightarrow> length r < length buf"
  by (auto simp: get_u16_def split: if_splits)

lemma get_u32_rest: "get_u32 buf = Ok (b, r) \<Longrightarrow> length r < length buf"
  by (auto simp: get_u32_def split: if_splits)

lemma copy_to_bytes_rest: "copy_to_bytes n buf = Ok (b, r) \<Longrightarrow> length r \<le> length buf"
  by (auto simp: copy_to_bytes_def split: if_splits)

lemma slice_from_rest: "slice_from buf n = Ok r \<Longrightarrow> length r = length buf - n"
  by (auto simp: slice_from_def split: if_splits)

text \<open>The same, exactly.\<close>

lemma reader_lengths:
  "get_u8 buf = Ok (v8, r) \<Longrightarrow> length buf = 1 + length r"
  "get_u16 buf = Ok (v16, r) \<Longrightarrow> length buf = 2 + length r"
  "get_u32 buf = Ok (v32, r) \<Longrightarrow> length buf = 4 + length r"
  "copy_to_bytes n buf = Ok (b, r) \<Longrightarrow> length b = n \<and> length buf = n + length r"
  by (auto simp: get_u8_def get_u16_def get_u32_def copy_to_bytes_def split: if_splits)

text \<open>Reading back what an encoder wrote.\<close>

lemma be_read_front [simp]:
  "take k (to_be_bytes k w @ r) = to_be_bytes k w" "drop k (to_be_bytes k w @ r) = r"
  by simp_all

section \<open>Strings\<close>

definition digit_char :: "nat \<Rightarrow> char" where
  "digit_char n = char_of (if n < 10 then 48 + n else 87 + n)"

fun radix_string :: "nat \<Rightarrow> nat \<Rightarrow> string" where
  "radix_string b n = (if b < 2 \<or> n < b then [digit_char n]
     else radix_string b (n div b) @ [digit_char (n mod b)])"

declare radix_string.simps [simp del]

text \<open>\<open>to_string\<close> of an unsigned integer, \<open>{:x}\<close>, and \<open>{:02x}\<close> of a byte.\<close>

definition dec :: "nat \<Rightarrow> string" where
  "dec n = radix_string 10 n"

definition hex :: "nat \<Rightarrow> string" where
  "hex n = radix_string 16 n"

definition hex2 :: "u8 \<Rightarrow> string" where
  "hex2 b = [digit_char (unat b div 16), digit_char (unat b mod 16)]"

fun join_with :: "string \<Rightarrow> string list \<Rightarrow> string" where
  "join_with sep [] = []"
| "join_with sep [s] = s"
| "join_with sep (s # t # ss) = s @ sep @ join_with sep (t # ss)"

text \<open>\<open>String::from_utf8_lossy\<close>. \<open>utf8_scan\<close> reads one scalar value: how many bytes it takes and
  whether they are valid UTF-8. An invalid run becomes the three bytes of U+FFFD.\<close>

definition utf8_width :: "u8 \<Rightarrow> nat" where
  "utf8_width b = (if b < 0x80 then 1 else if 0xC2 \<le> b \<and> b \<le> 0xDF then 2
     else if 0xE0 \<le> b \<and> b \<le> 0xEF then 3 else if 0xF0 \<le> b \<and> b \<le> 0xF4 then 4 else 0)"

definition utf8_cont :: "u8 \<Rightarrow> bool" where
  "utf8_cont b \<longleftrightarrow> 0x80 \<le> b \<and> b \<le> 0xBF"

definition utf8_second :: "u8 \<Rightarrow> u8 \<Rightarrow> bool" where
  "utf8_second b c \<longleftrightarrow>
     (if b = 0xE0 then 0xA0 \<le> c \<and> c \<le> 0xBF else if b = 0xED then 0x80 \<le> c \<and> c \<le> 0x9F
      else if b = 0xF0 then 0x90 \<le> c \<and> c \<le> 0xBF else if b = 0xF4 then 0x80 \<le> c \<and> c \<le> 0x8F
      else utf8_cont c)"

definition byte_or_0 :: "bytes \<Rightarrow> nat \<Rightarrow> u8" where
  "byte_or_0 bs i = (if i < length bs then bs ! i else 0)"

definition utf8_scan :: "u8 \<Rightarrow> bytes \<Rightarrow> nat \<times> bool" where
  "utf8_scan b rest = (let w = utf8_width b in
     if w = 0 then (1, False)
     else if w = 1 then (1, True)
     else if \<not> utf8_second b (byte_or_0 rest 0) then (1, False)
     else if w = 2 then (2, True)
     else if \<not> utf8_cont (byte_or_0 rest 1) then (2, False)
     else if w = 3 then (3, True)
     else if \<not> utf8_cont (byte_or_0 rest 2) then (3, False)
     else (4, True))"

definition byte_char :: "u8 \<Rightarrow> char" where
  "byte_char b = char_of (unat b)"

fun from_utf8_lossy :: "bytes \<Rightarrow> string" where
  "from_utf8_lossy [] = []"
| "from_utf8_lossy (b # rest) = (let (n, ok) = utf8_scan b rest in
     (if ok then map byte_char (take n (b # rest)) else map byte_char [0xEF, 0xBF, 0xBD])
       @ from_utf8_lossy (drop (n - 1) rest))"

text \<open>ASCII text is decoded byte by byte.\<close>

lemma from_utf8_lossy_ascii:
  "\<forall>b \<in> set bs. b < 0x80 \<Longrightarrow> from_utf8_lossy bs = map byte_char bs"
  by (induction bs) (auto simp: utf8_scan_def utf8_width_def Let_def)

end
