(* ===== verification/Hash_Map.thy ===== *)
theory Hash_Map
  imports Prelude
begin

text \<open>
  \<open>std::collections::HashMap\<close> as the routing crates use it. A map is an association list with
  distinct keys (\<open>hm_ok\<close>), and the order of the list is the order in which the map happens to be
  iterated: Rust leaves that order unspecified, so facts about iteration are stated for every
  list, hence for every order. The locale \<open>hash_map\<close> is the contract the clients rely on; it is
  interpreted on the operations of this theory, and the laws of the route tables and of the RIB
  manager rest on the facts of that interpretation (\<open>hm.\<dots>\<close>).
\<close>

type_synonym ('k, 'v) hmap = "('k \<times> 'v) list"

definition hm_empty :: "('k, 'v) hmap" where
  "hm_empty = []"

definition hm_get :: "('k, 'v) hmap \<Rightarrow> 'k \<Rightarrow> 'v option" where
  "hm_get m k = map_of m k"

fun hm_insert :: "'k \<Rightarrow> 'v \<Rightarrow> ('k, 'v) hmap \<Rightarrow> ('k, 'v) hmap" where
  "hm_insert k v [] = [(k, v)]"
| "hm_insert k v (p # m) = (if fst p = k then (k, v) # m else p # hm_insert k v m)"

definition hm_remove :: "'k \<Rightarrow> ('k, 'v) hmap \<Rightarrow> ('k, 'v) hmap" where
  "hm_remove k m = filter (\<lambda>p. fst p \<noteq> k) m"

definition hm_keys :: "('k, 'v) hmap \<Rightarrow> 'k list" where
  "hm_keys m = map fst m"

definition hm_values :: "('k, 'v) hmap \<Rightarrow> 'v list" where
  "hm_values m = map snd m"

definition hm_ok :: "('k, 'v) hmap \<Rightarrow> bool" where
  "hm_ok m \<longleftrightarrow> distinct (map fst m)"

definition hm_contains_key :: "('k, 'v) hmap \<Rightarrow> 'k \<Rightarrow> bool" where
  "hm_contains_key m k \<longleftrightarrow> hm_get m k \<noteq> None"

text \<open>\<open>if let Some(v) = m.get_mut(k) { v = f(v) }\<close>, a loop over \<open>values_mut\<close>, \<open>retain\<close>, and
  \<open>entry(k).or_insert_with(\<dots>)\<close>.\<close>

definition hm_modify :: "'k \<Rightarrow> ('v \<Rightarrow> 'v) \<Rightarrow> ('k, 'v) hmap \<Rightarrow> ('k, 'v) hmap" where
  "hm_modify k f m = map (\<lambda>(k', v). (k', if k' = k then f v else v)) m"

definition hm_map_values :: "('v \<Rightarrow> 'v) \<Rightarrow> ('k, 'v) hmap \<Rightarrow> ('k, 'v) hmap" where
  "hm_map_values f m = map (\<lambda>(k, v). (k, f v)) m"

definition hm_retain :: "('k \<Rightarrow> 'v \<Rightarrow> bool) \<Rightarrow> ('k, 'v) hmap \<Rightarrow> ('k, 'v) hmap" where
  "hm_retain P m = filter (\<lambda>(k, v). P k v) m"

definition hm_or_insert :: "'k \<Rightarrow> 'v \<Rightarrow> ('k, 'v) hmap \<Rightarrow> ('k, 'v) hmap" where
  "hm_or_insert k v m = (if hm_contains_key m k then m else hm_insert k v m)"

section \<open>The contract of a map\<close>

locale hash_map =
  fixes empty :: 'm
    and get :: "'m \<Rightarrow> 'k \<Rightarrow> 'v option"
    and ins :: "'k \<Rightarrow> 'v \<Rightarrow> 'm \<Rightarrow> 'm"
    and del :: "'k \<Rightarrow> 'm \<Rightarrow> 'm"
    and keep :: "('k \<Rightarrow> 'v \<Rightarrow> bool) \<Rightarrow> 'm \<Rightarrow> 'm"
    and upd :: "'k \<Rightarrow> ('v \<Rightarrow> 'v) \<Rightarrow> 'm \<Rightarrow> 'm"
    and keys :: "'m \<Rightarrow> 'k list"
    and invar :: "'m \<Rightarrow> bool"
  assumes get_empty: "get empty k = None"
    and get_ins: "get (ins k v m) k' = (if k' = k then Some v else get m k')"
    and get_del: "get (del k m) k' = (if k' = k then None else get m k')"
    and get_keep: "invar m \<Longrightarrow> get (keep P m) k =
          (case get m k of None \<Rightarrow> None | Some v \<Rightarrow> if P k v then Some v else None)"
    and get_upd: "get (upd k f m) k' = (if k' = k then map_option f (get m k) else get m k')"
    and set_keys: "set (keys m) = {k. get m k \<noteq> None}"
    and distinct_keys: "invar m \<Longrightarrow> distinct (keys m)"
    and invar_empty: "invar empty"
    and invar_ins: "invar m \<Longrightarrow> invar (ins k v m)"
    and invar_del: "invar m \<Longrightarrow> invar (del k m)"
    and invar_keep: "invar m \<Longrightarrow> invar (keep P m)"
    and invar_upd: "invar m \<Longrightarrow> invar (upd k f m)"
begin

lemma in_keys_iff: "k \<in> set (keys m) \<longleftrightarrow> (\<exists>v. get m k = Some v)"
  by (auto simp: set_keys)

lemma get_del_same: "get (del k m) k = None"
  by (simp add: get_del)

lemma get_ins_del: "get (ins k v (del k m)) k' = get (ins k v m) k'"
  by (simp add: get_ins get_del)

lemma keys_ins: "set (keys (ins k v m)) = insert k (set (keys m))"
  by (auto simp: set_keys get_ins)

lemma keys_del: "set (keys (del k m)) = set (keys m) - {k}"
  by (auto simp: set_keys get_del)

lemma keys_upd: "set (keys (upd k f m)) = set (keys m)"
  by (auto simp: set_keys get_upd split: if_splits)

lemma keys_keep: "invar m \<Longrightarrow> set (keys (keep P m)) = {k \<in> set (keys m). \<forall>v. get m k = Some v \<longrightarrow> P k v}"
  by (auto simp: set_keys get_keep split: option.splits)

text \<open>A sequence of removals leaves exactly the entries whose key was not removed.\<close>

lemma get_del_all: "get (fold del ks m) k = (if k \<in> set ks then None else get m k)"
  by (induction ks arbitrary: m) (auto simp: get_del)

text \<open>A loop over distinct keys that modifies the entry of each of them.\<close>

lemma get_upd_all:
  "distinct ks \<Longrightarrow> get (fold (\<lambda>k. upd k (f k)) ks m) k =
     (if k \<in> set ks then map_option (f k) (get m k) else get m k)"
  by (induction ks arbitrary: m) (auto simp: get_upd)

lemma invar_upd_all: "invar m \<Longrightarrow> invar (fold (\<lambda>k. upd k (f k)) ks m)"
  by (induction ks arbitrary: m) (auto simp: invar_upd)

lemma invar_del_all: "invar m \<Longrightarrow> invar (fold del ks m)"
  by (induction ks arbitrary: m) (auto simp: invar_del)

end

lemma hm_get_insert: "hm_get (hm_insert k v m) k' = (if k' = k then Some v else hm_get m k')"
  by (induction m) (auto simp: hm_get_def)

lemma hm_get_remove: "hm_get (hm_remove k m) k' = (if k' = k then None else hm_get m k')"
  by (induction m) (auto simp: hm_get_def hm_remove_def)

lemma hm_get_retain: "hm_ok m \<Longrightarrow> hm_get (hm_retain P m) k =
    (case hm_get m k of None \<Rightarrow> None | Some v \<Rightarrow> if P k v then Some v else None)"
proof (induction m)
  case (Cons p m)
  then have IH: "hm_get (hm_retain P m) k =
      (case hm_get m k of None \<Rightarrow> None | Some v \<Rightarrow> if P k v then Some v else None)"
    by (simp add: hm_ok_def)
  show ?case
  proof (cases "fst p = k")
    case True
    with Cons.prems have "map_of m k = None"
      by (auto simp: hm_ok_def map_of_eq_None_iff)
    with IH True show ?thesis
      by (cases p) (auto simp: hm_get_def hm_retain_def)
  next
    case False
    with IH show ?thesis
      by (cases p) (auto simp: hm_get_def hm_retain_def)
  qed
qed (simp add: hm_get_def hm_retain_def)

lemma hm_get_modify:
  "hm_get (hm_modify k f m) k' = (if k' = k then map_option f (hm_get m k) else hm_get m k')"
  by (induction m) (auto simp: hm_get_def hm_modify_def)

lemma hm_get_map_values: "hm_get (hm_map_values f m) k = map_option f (hm_get m k)"
  by (induction m) (auto simp: hm_get_def hm_map_values_def)

lemma set_hm_keys: "set (hm_keys m) = {k. hm_get m k \<noteq> None}"
  by (auto simp: hm_keys_def hm_get_def map_of_eq_None_iff)

lemma keys_hm_insert: "set (map fst (hm_insert k v m)) = insert k (set (map fst m))"
  by (induction m) auto

lemma hm_ok_insert: "hm_ok m \<Longrightarrow> hm_ok (hm_insert k v m)"
proof (induction m)
  case (Cons p m)
  then show ?case using keys_hm_insert [of k v m] by (auto simp: hm_ok_def)
qed (simp add: hm_ok_def)

lemma hm_ok_filter: "hm_ok m \<Longrightarrow> hm_ok (filter P m)"
  by (simp add: hm_ok_def distinct_map_filter)

lemma map_fst_hm_modify [simp]: "map fst (hm_modify k f m) = map fst m"
  by (induction m) (auto simp: hm_modify_def)

lemma map_fst_hm_map_values [simp]: "map fst (hm_map_values f m) = map fst m"
  by (induction m) (auto simp: hm_map_values_def)

lemma hm_ok_modify [simp]: "hm_ok (hm_modify k f m) = hm_ok m"
  by (simp add: hm_ok_def)

lemma hm_ok_map_values [simp]: "hm_ok (hm_map_values f m) = hm_ok m"
  by (simp add: hm_ok_def)

interpretation hm: hash_map hm_empty hm_get hm_insert hm_remove hm_retain hm_modify hm_keys hm_ok
proof (unfold_locales, goal_cases)
  case 1 then show ?case by (simp add: hm_empty_def hm_get_def)
next
  case 2 then show ?case by (rule hm_get_insert)
next
  case 3 then show ?case by (rule hm_get_remove)
next
  case 4 then show ?case by (rule hm_get_retain)
next
  case 5 then show ?case by (rule hm_get_modify)
next
  case 6 then show ?case by (rule set_hm_keys)
next
  case 7 then show ?case by (simp add: hm_ok_def hm_keys_def)
next
  case 8 then show ?case by (simp add: hm_ok_def hm_empty_def)
next
  case 9 then show ?case by (rule hm_ok_insert)
next
  case 10 then show ?case by (simp add: hm_remove_def hm_ok_filter)
next
  case 11 then show ?case by (simp add: hm_retain_def hm_ok_filter)
next
  case 12 then show ?case by simp
qed

lemma hm_get_or_insert:
  "hm_get (hm_or_insert k v m) k' =
     (if k' = k then Some (case hm_get m k of None \<Rightarrow> v | Some w \<Rightarrow> w) else hm_get m k')"
  by (auto simp: hm_or_insert_def hm_contains_key_def hm.get_ins split: option.splits)

lemma hm_ok_or_insert: "hm_ok m \<Longrightarrow> hm_ok (hm_or_insert k v m)"
  by (simp add: hm_or_insert_def hm.invar_ins)

lemma hm_contains_key_iff: "hm_contains_key m k \<longleftrightarrow> k \<in> set (hm_keys m)"
  by (simp add: hm_contains_key_def hm.set_keys)

lemma hm_values_iff: "hm_ok m \<Longrightarrow> v \<in> set (hm_values m) \<longleftrightarrow> (\<exists>k. hm_get m k = Some v)"
  by (force simp: hm_ok_def hm_get_def hm_values_def)

lemmas hm_gets = hm.get_empty hm.get_ins hm.get_del hm.get_upd hm_get_or_insert hm_get_map_values
lemmas hm_oks = hm.invar_empty hm.invar_ins hm.invar_del hm.invar_keep hm_ok_or_insert

end
