(* ===== verification/Net_Types.thy ===== *)
theory Net_Types
  imports Prelude
begin

unbundle bit_operations_syntax

text \<open>
  Addresses, and the code outside the repository that the routing crates call.

  \<open>std::net\<close> addresses are words: \<open>Ipv4Addr::from([a, b, c, d])\<close> is \<open>from_be_bytes [a, b, c, d]\<close>.
  The crates \<open>ipnet\<close> and \<open>chrono\<close> and the build profile are a parameter of the model, the record
  \<open>externals\<close>. What the code relies on is stated as two locales: \<open>ipnet\<close> (a network is built exactly
  when its prefix length fits the family, \<open>trunc\<close> clears the host bits) and \<open>chrono\<close> (a valid
  nanosecond count makes a timestamp, durations are read in whole seconds). Both are interpreted
  on \<open>documented_externals\<close>, which computes what the crates document.
\<close>

type_synonym ipv4 = u32
type_synonym ipv6 = "128 word"

datatype ip_addr = IpV4 ipv4 | IpV6 ipv6

text \<open>\<open>ipnet::Ipv4Net\<close> and \<open>ipnet::Ipv6Net\<close>: an address and a prefix length.\<close>

datatype ipv4net = Ipv4Net (v4_addr: ipv4) (v4_prefix_len: u8)
datatype ipv6net = Ipv6Net (v6_addr: ipv6) (v6_prefix_len: u8)

text \<open>\<open>DateTime<Utc>\<close>: nanoseconds since the Unix epoch.\<close>

type_synonym timestamp = int

record externals =
  ipv4net_new :: "ipv4 \<Rightarrow> u8 \<Rightarrow> ipv4net option"
  ipv4net_trunc :: "ipv4net \<Rightarrow> ipv4net"
  ipv6net_new :: "ipv6 \<Rightarrow> u8 \<Rightarrow> ipv6net option"
  ipv6net_trunc :: "ipv6net \<Rightarrow> ipv6net"
  timestamp_opt :: "int \<Rightarrow> u32 \<Rightarrow> timestamp option"
  utc_now :: timestamp
  num_seconds :: "int \<Rightarrow> int"
  overflow_checks :: bool

section \<open>Checked arithmetic\<close>

text \<open>An arithmetic operator of the source on a fixed-width integer: a build with overflow checks
  panics where the exact result does not fit, a release build wraps.\<close>

definition mul_u32 :: "externals \<Rightarrow> u32 \<Rightarrow> u32 \<Rightarrow> ('e, u32) outcome" where
  "mul_u32 X a b = (if overflow_checks X \<and> unat a * unat b \<ge> 2 ^ 32 then Panic else Ok (a * b))"

definition add_u8 :: "externals \<Rightarrow> u8 \<Rightarrow> u8 \<Rightarrow> ('e, u8) outcome" where
  "add_u8 X a b = (if overflow_checks X \<and> unat a + unat b \<ge> 2 ^ 8 then Panic else Ok (a + b))"

section \<open>The contracts of the external crates\<close>

definition clear_host_bits :: "nat \<Rightarrow> 'a::len word \<Rightarrow> 'a word" where
  "clear_host_bits n a = a AND NOT (mask n)"

locale ipnet =
  fixes X :: externals
  assumes v4_new: "ipv4net_new X a l = (if unat l \<le> 32 then Some (Ipv4Net a l) else None)"
    and v4_trunc: "ipv4net_trunc X (Ipv4Net a l) = Ipv4Net (clear_host_bits (32 - unat l) a) l"
    and v6_new: "ipv6net_new X b l = (if unat l \<le> 128 then Some (Ipv6Net b l) else None)"
    and v6_trunc: "ipv6net_trunc X (Ipv6Net b l) = Ipv6Net (clear_host_bits (128 - unat l) b) l"

locale chrono =
  fixes X :: externals
  assumes timestamp_valid:
      "unat nanos < 1000000000 \<Longrightarrow> 0 \<le> secs \<Longrightarrow> secs < 2 ^ 32 \<Longrightarrow>
        timestamp_opt X secs nanos = Some (secs * 1000000000 + int (unat nanos))"
    and num_seconds_trunc: "num_seconds X d = (if d < 0 then - (- d div 1000000000) else d div 1000000000)"
begin

lemma num_seconds_mono: "a \<le> b \<Longrightarrow> num_seconds X a \<le> num_seconds X b"
proof -
  assume le: "a \<le> b"
  show ?thesis
  proof (cases "a < 0")
    case True
    show ?thesis
    proof (cases "b < 0")
      case False
      with True have "num_seconds X a \<le> 0" "0 \<le> num_seconds X b"
        by (auto simp: num_seconds_trunc pos_imp_zdiv_nonneg_iff)
      then show ?thesis by simp
    qed (use True le in \<open>simp add: num_seconds_trunc zdiv_mono1\<close>)
  qed (use le in \<open>simp add: num_seconds_trunc zdiv_mono1\<close>)
qed

lemma num_seconds_whole: "num_seconds X (s * 1000000000) = s"
proof -
  have "- (s * 1000000000) div 1000000000 = - s"
    by (metis mult_minus_left nonzero_mult_div_cancel_right zero_neq_numeral)
  then show ?thesis
    by (simp add: num_seconds_trunc)
qed

end

definition documented_externals :: externals where
  "documented_externals = \<lparr>
     ipv4net_new = (\<lambda>a l. if unat l \<le> 32 then Some (Ipv4Net a l) else None),
     ipv4net_trunc = (\<lambda>n. Ipv4Net (clear_host_bits (32 - unat (v4_prefix_len n)) (v4_addr n)) (v4_prefix_len n)),
     ipv6net_new = (\<lambda>a l. if unat l \<le> 128 then Some (Ipv6Net a l) else None),
     ipv6net_trunc = (\<lambda>n. Ipv6Net (clear_host_bits (128 - unat (v6_prefix_len n)) (v6_addr n)) (v6_prefix_len n)),
     timestamp_opt = (\<lambda>secs nanos. if unat nanos < 1000000000
        then Some (secs * 1000000000 + int (unat nanos)) else None),
     utc_now = 0,
     num_seconds = (\<lambda>d. if d < 0 then - (- d div 1000000000) else d div 1000000000),
     overflow_checks = False\<rparr>"

interpretation doc_ipnet: ipnet documented_externals
  by unfold_locales (simp_all add: documented_externals_def)

interpretation doc_chrono: chrono documented_externals
  by unfold_locales (simp_all add: documented_externals_def)

section \<open>Clearing host bits\<close>

lemma clear_host_bits_idem [simp]: "clear_host_bits n (clear_host_bits n a) = clear_host_bits n a"
  by (simp add: clear_host_bits_def and.assoc)

lemma clear_host_bits_bit:
  fixes a :: "'a::len word"
  shows "bit (clear_host_bits n a) i \<longleftrightarrow> n \<le> i \<and> bit a i"
  using bit_imp_le_length [of a i]
  by (auto simp: clear_host_bits_def bit_and_iff bit_not_iff bit_mask_iff)

section \<open>Display\<close>

definition ipv4_octets :: "ipv4 \<Rightarrow> bytes" where
  "ipv4_octets a = to_be_bytes 4 a"

definition ipv4_string :: "ipv4 \<Rightarrow> string" where
  "ipv4_string a = join_with ''.'' (map (\<lambda>b. dec (unat b)) (ipv4_octets a))"

text \<open>The eight 16-bit groups of an IPv6 address.\<close>

definition ipv6_segments :: "ipv6 \<Rightarrow> nat list" where
  "ipv6_segments a = map (\<lambda>i. unat (drop_bit (16 * i) a) mod 65536) (rev [0..<8])"

text \<open>The leftmost longest run of zero groups: \<open>(start, length)\<close>.\<close>

fun zero_run :: "nat \<Rightarrow> nat \<times> nat \<Rightarrow> nat \<times> nat \<Rightarrow> nat list \<Rightarrow> nat \<times> nat" where
  "zero_run i cur best [] = best"
| "zero_run i cur best (s # ss) = (if s = 0
     then (let cur' = (if snd cur = 0 then i else fst cur, snd cur + 1)
           in zero_run (Suc i) cur' (if snd cur' > snd best then cur' else best) ss)
     else zero_run (Suc i) (0, 0) best ss)"

definition ipv6_string :: "ipv6 \<Rightarrow> string" where
  "ipv6_string a =
     (let segs = ipv6_segments a; (start, len) = zero_run 0 (0, 0) (0, 0) segs in
      if take 6 segs = [0, 0, 0, 0, 0, 65535]
      then ''::ffff:'' @ ipv4_string (ucast a)
      else if len > 1
      then join_with '':'' (map hex (take start segs)) @ ''::''
           @ join_with '':'' (map hex (drop (start + len) segs))
      else join_with '':'' (map hex segs))"

fun ip_string :: "ip_addr \<Rightarrow> string" where
  "ip_string (IpV4 a) = ipv4_string a"
| "ip_string (IpV6 a) = ipv6_string a"

text \<open>\<open>Ipv4Addr::UNSPECIFIED\<close> and \<open>Ipv6Addr::UNSPECIFIED\<close>.\<close>

definition ipv4_unspecified :: ipv4 where
  "ipv4_unspecified = 0"

definition ipv6_unspecified :: ipv6 where
  "ipv6_unspecified = 0"

end
