(* ===== verification/Bgp_Types.thy ===== *)
theory Bgp_Types
  imports Net_Types
begin

unbundle bit_operations_syntax

text \<open>
  The data of \<open>crates/rbmp-core/src/error.rs\<close> and of the first half of
  \<open>crates/rbmp-core/src/bgp/types.rs\<close>: the error type, address families, prefixes, route
  distinguishers, AS paths, communities and the ORIGIN attribute, with the functions defined on
  them. Family codes round-trip, display names are those of the source.
\<close>

section \<open>Errors (error.rs)\<close>

datatype io_kind = TimedOut | OtherIo

datatype error =
    BmpParse string
  | BgpParse string
  | UnexpectedEof (needed: nat) (have_bytes: nat)
  | InvalidBmpVersion u8
  | InvalidMessageType u8
  | FrameTooLarge u32 u32
  | InvalidBgpMarker
  | InvalidBgpMessageType u8
  | InvalidAfi u16
  | InvalidSafi u8
  | InvalidPrefixLen u8 u16
  | TruncatedAttribute u8 nat nat
  | Io io_kind string

type_synonym 'a result = "(error, 'a) outcome"

section \<open>Long-lived graceful restart state\<close>

datatype llgr_state = Normal | StaleMarked | Deleted

section \<open>Address families\<close>

datatype afi = AfiIpv4 | AfiIpv6 | AfiL2Vpn | AfiBgpLs | AfiUnknown u16

definition afi_from :: "u16 \<Rightarrow> afi" where
  "afi_from v = (if v = 1 then AfiIpv4 else if v = 2 then AfiIpv6 else if v = 25 then AfiL2Vpn
     else if v = 16388 then AfiBgpLs else AfiUnknown v)"

datatype safi = Unicast | Multicast | MplsVpnMulticast | LabeledUnicast | MplsVpn | SafiEvpn
  | SafiBgpLs | BgpLsSrv6 | SafiSrPolicy | SafiFlowspec | FlowspecVpn | Vpls
  | RouteTargetConstraint | McastVpn | SafiUnknown u8

definition safi_from :: "u8 \<Rightarrow> safi" where
  "safi_from v = (if v = 1 then Unicast else if v = 2 then Multicast else if v = 4 then LabeledUnicast
     else if v = 5 then MplsVpnMulticast else if v = 65 then Vpls else if v = 70 then SafiEvpn
     else if v = 71 then SafiBgpLs else if v = 72 then BgpLsSrv6 else if v = 73 then SafiSrPolicy
     else if v = 128 then MplsVpn else if v = 129 then McastVpn
     else if v = 132 then RouteTargetConstraint else if v = 133 then SafiFlowspec
     else if v = 134 then FlowspecVpn else SafiUnknown v)"

datatype family_support_status = Supported | ExperimentalParseOnly | Unsupported

datatype afi_safi = AfiSafi (afi: afi) (safi: safi)

definition afi_safi_new :: "u16 \<Rightarrow> u8 \<Rightarrow> afi_safi" where
  "afi_safi_new a s = AfiSafi (afi_from a) (safi_from s)"

definition ipv4_unicast :: afi_safi where
  "ipv4_unicast = afi_safi_new 1 1"

definition ipv6_unicast :: afi_safi where
  "ipv6_unicast = afi_safi_new 2 1"

definition ipv4_vpn :: afi_safi where
  "ipv4_vpn = afi_safi_new 1 128"

definition ipv6_vpn :: afi_safi where
  "ipv6_vpn = afi_safi_new 2 128"

definition evpn_family :: afi_safi where
  "evpn_family = afi_safi_new 25 70"

definition ipv4_labeled :: afi_safi where
  "ipv4_labeled = afi_safi_new 1 4"

definition ipv6_labeled :: afi_safi where
  "ipv6_labeled = afi_safi_new 2 4"

definition is_ip_afi :: "afi \<Rightarrow> bool" where
  "is_ip_afi a \<longleftrightarrow> a = AfiIpv4 \<or> a = AfiIpv6"

definition support_status :: "afi_safi \<Rightarrow> family_support_status" where
  "support_status f =
     (if is_ip_afi (afi f) \<and> safi f \<in> {Unicast, Multicast, LabeledUnicast, MplsVpn} then Supported
      else if afi f = AfiL2Vpn \<and> safi f \<in> {SafiEvpn, Vpls}
        \<or> afi f = AfiBgpLs \<and> safi f \<in> {SafiBgpLs, BgpLsSrv6}
        \<or> is_ip_afi (afi f) \<and> safi f \<in> {SafiFlowspec, FlowspecVpn, SafiSrPolicy,
             RouteTargetConstraint, McastVpn, MplsVpnMulticast} then ExperimentalParseOnly
      else Unsupported)"

fun afi_as_u16 :: "afi \<Rightarrow> u16" where
  "afi_as_u16 AfiIpv4 = 1"
| "afi_as_u16 AfiIpv6 = 2"
| "afi_as_u16 AfiL2Vpn = 25"
| "afi_as_u16 AfiBgpLs = 16388"
| "afi_as_u16 (AfiUnknown v) = v"

fun safi_as_u8 :: "safi \<Rightarrow> u8" where
  "safi_as_u8 Unicast = 1"
| "safi_as_u8 Multicast = 2"
| "safi_as_u8 LabeledUnicast = 4"
| "safi_as_u8 MplsVpnMulticast = 5"
| "safi_as_u8 Vpls = 65"
| "safi_as_u8 SafiEvpn = 70"
| "safi_as_u8 SafiBgpLs = 71"
| "safi_as_u8 BgpLsSrv6 = 72"
| "safi_as_u8 SafiSrPolicy = 73"
| "safi_as_u8 MplsVpn = 128"
| "safi_as_u8 McastVpn = 129"
| "safi_as_u8 RouteTargetConstraint = 132"
| "safi_as_u8 SafiFlowspec = 133"
| "safi_as_u8 FlowspecVpn = 134"
| "safi_as_u8 (SafiUnknown v) = v"

text \<open>Display of a family: the named ones, then the numeric form.\<close>

definition afi_safi_names :: "((afi \<times> safi) \<times> string) list" where
  "afi_safi_names = [
     ((AfiIpv4, Unicast), ''ipv4-unicast''),
     ((AfiIpv6, Unicast), ''ipv6-unicast''),
     ((AfiIpv4, Multicast), ''ipv4-multicast''),
     ((AfiIpv6, Multicast), ''ipv6-multicast''),
     ((AfiIpv4, LabeledUnicast), ''ipv4-labeled-unicast''),
     ((AfiIpv6, LabeledUnicast), ''ipv6-labeled-unicast''),
     ((AfiIpv4, MplsVpn), ''ipv4-vpn''),
     ((AfiIpv6, MplsVpn), ''ipv6-vpn''),
     ((AfiL2Vpn, SafiEvpn), ''l2vpn-evpn''),
     ((AfiIpv4, SafiFlowspec), ''ipv4-flowspec''),
     ((AfiIpv6, SafiFlowspec), ''ipv6-flowspec'')]"

definition afi_safi_string :: "afi_safi \<Rightarrow> string" where
  "afi_safi_string f = (case map_of afi_safi_names (afi f, safi f) of
       Some s \<Rightarrow> s
     | None \<Rightarrow> ''afi'' @ dec (unat (afi_as_u16 (afi f))) @ ''-safi'' @ dec (unat (safi_as_u8 (safi f))))"

section \<open>Route distinguishers and prefixes\<close>

text \<open>\<open>RouteDistinguisher([u8; 8])\<close>: eight bytes.\<close>

datatype route_distinguisher = RouteDistinguisher (rd_bytes: bytes)

definition rd_zero :: route_distinguisher where
  "rd_zero = RouteDistinguisher (replicate 8 0)"

definition rd_is_zero :: "route_distinguisher \<Rightarrow> bool" where
  "rd_is_zero rd \<longleftrightarrow> rd_bytes rd = replicate 8 0"

definition rd_type :: "route_distinguisher \<Rightarrow> u16" where
  "rd_type rd = from_be_bytes (take 2 (rd_bytes rd))"

definition hex_encode :: "bytes \<Rightarrow> string" where
  "hex_encode bs = concat (map hex2 bs)"

text \<open>Display of a route distinguisher: type 0 and 2 are \<open>asn:number\<close>, type 1 is \<open>ip:number\<close>.\<close>

definition rd_string :: "route_distinguisher \<Rightarrow> string" where
  "rd_string rd =
     (let b = rd_bytes rd in
      if rd_type rd = 0 then dec (be_nat (take 2 (drop 2 b))) @ '':'' @ dec (be_nat (take 4 (drop 4 b)))
      else if rd_type rd = 1
      then ipv4_string (from_be_bytes (take 4 (drop 2 b))) @ '':'' @ dec (be_nat (take 2 (drop 6 b)))
      else if rd_type rd = 2 then dec (be_nat (take 4 (drop 2 b))) @ '':'' @ dec (be_nat (take 2 (drop 6 b)))
      else ''0x'' @ hex_encode b)"

datatype prefix =
    PrefixV4 ipv4net
  | PrefixV6 ipv6net
  | Labeled prefix "u32 list"
  | Vpn route_distinguisher prefix "u32 list"

fun addr_family :: "prefix \<Rightarrow> afi" where
  "addr_family (PrefixV4 n) = AfiIpv4"
| "addr_family (PrefixV6 n) = AfiIpv6"
| "addr_family (Labeled p ls) = addr_family p"
| "addr_family (Vpn rd p ls) = addr_family p"

fun prefix_afi_safi :: "prefix \<Rightarrow> afi_safi" where
  "prefix_afi_safi (PrefixV4 n) = ipv4_unicast"
| "prefix_afi_safi (PrefixV6 n) = ipv6_unicast"
| "prefix_afi_safi (Labeled p ls) = (if addr_family p = AfiIpv6 then ipv6_labeled else ipv4_labeled)"
| "prefix_afi_safi (Vpn rd p ls) = (if addr_family p = AfiIpv6 then ipv6_vpn else ipv4_vpn)"

text \<open>Display of a prefix; \<open>labels[0]\<close> panics on an empty label stack.\<close>

fun prefix_string :: "prefix \<Rightarrow> string result" where
  "prefix_string (PrefixV4 n) = Ok (ipv4_string (v4_addr n) @ ''/'' @ dec (unat (v4_prefix_len n)))"
| "prefix_string (PrefixV6 n) = Ok (ipv6_string (v6_addr n) @ ''/'' @ dec (unat (v6_prefix_len n)))"
| "prefix_string (Labeled p ls) =
     and_then (prefix_string p) (\<lambda>s.
     and_then (at ls 0) (\<lambda>l. Ok (s @ '' label='' @ dec (unat l))))"
| "prefix_string (Vpn rd p ls) =
     and_then (prefix_string p) (\<lambda>s.
     and_then (at ls 0) (\<lambda>l. Ok (rd_string rd @ '':'' @ s @ '' label='' @ dec (unat l))))"

section \<open>AS paths\<close>

datatype as_path_segment =
    AsSet "u32 list"
  | AsSequence "u32 list"
  | ConfedSequence "u32 list"
  | ConfedSet "u32 list"

fun asns :: "as_path_segment \<Rightarrow> u32 list" where
  "asns (AsSet v) = v"
| "asns (AsSequence v) = v"
| "asns (ConfedSequence v) = v"
| "asns (ConfedSet v) = v"

datatype as_path = AsPath (segments: "as_path_segment list")

fun seg_hops :: "as_path_segment \<Rightarrow> nat" where
  "seg_hops (AsSequence v) = length v"
| "seg_hops _ = 0"

definition hop_count :: "as_path \<Rightarrow> nat" where
  "hop_count p = sum_list (map seg_hops (segments p))"

text \<open>\<open>find_map\<close>: the first answer along the list.\<close>

fun find_map :: "('a \<Rightarrow> 'b option) \<Rightarrow> 'a list \<Rightarrow> 'b option" where
  "find_map f [] = None"
| "find_map f (x # xs) = (case f x of Some y \<Rightarrow> Some y | None \<Rightarrow> find_map f xs)"

fun seg_last :: "as_path_segment \<Rightarrow> u32 option" where
  "seg_last (AsSequence v) = (if v = [] then None else Some (last v))"
| "seg_last _ = None"

fun seg_first :: "as_path_segment \<Rightarrow> u32 option" where
  "seg_first (AsSequence v) = (if v = [] then None else Some (hd v))"
| "seg_first _ = None"

definition origin_asn :: "as_path \<Rightarrow> u32 option" where
  "origin_asn p = find_map seg_last (segments p)"

definition first_asn :: "as_path \<Rightarrow> u32 option" where
  "first_asn p = find_map seg_first (segments p)"

fun repeats :: "u32 option \<Rightarrow> u32 list \<Rightarrow> bool" where
  "repeats prev [] = False"
| "repeats prev (a # v) = (Some a = prev \<or> repeats (Some a) v)"

fun seg_prepends :: "as_path_segment \<Rightarrow> bool" where
  "seg_prepends (AsSequence v) = repeats None v"
| "seg_prepends _ = False"

definition has_prepending :: "as_path \<Rightarrow> bool" where
  "has_prepending p = list_ex seg_prepends (segments p)"

text \<open>The loop of \<open>has_loop\<close> over the HashSet of ASNs already seen.\<close>

fun seen_twice :: "u32 set \<Rightarrow> u32 list \<Rightarrow> bool" where
  "seen_twice seen [] = False"
| "seen_twice seen (a # v) = (a \<in> seen \<or> seen_twice (insert a seen) v)"

definition has_loop :: "as_path \<Rightarrow> bool" where
  "has_loop p = seen_twice {} (concat (map asns (segments p)))"

fun segment_string :: "as_path_segment \<Rightarrow> string" where
  "segment_string (AsSequence v) = join_with '' '' (map (\<lambda>a. dec (unat a)) v)"
| "segment_string (AsSet v) = ''{'' @ join_with '','' (map (\<lambda>a. dec (unat a)) v) @ ''}''"
| "segment_string (ConfedSequence v) = ''('' @ join_with '' '' (map (\<lambda>a. dec (unat a)) v) @ '')''"
| "segment_string (ConfedSet v) = ''['' @ join_with '','' (map (\<lambda>a. dec (unat a)) v) @ '']''"

definition as_path_string :: "as_path \<Rightarrow> string" where
  "as_path_string p = join_with '' '' (map segment_string (segments p))"

section \<open>Communities and ORIGIN\<close>

datatype standard_community = StandardCommunity (sc_raw: u32)

definition sc_new :: "u16 \<Rightarrow> u16 \<Rightarrow> standard_community" where
  "sc_new a v = StandardCommunity (push_bit 16 (ucast a) OR ucast v)"

definition sc_asn :: "standard_community \<Rightarrow> u16" where
  "sc_asn c = ucast (drop_bit 16 (sc_raw c))"

definition sc_value :: "standard_community \<Rightarrow> u16" where
  "sc_value c = ucast (sc_raw c AND 0xFFFF)"

definition sc_is_well_known :: "standard_community \<Rightarrow> bool" where
  "sc_is_well_known c \<longleftrightarrow> sc_raw c \<ge> 0xFFFF0000"

definition sc_name :: "standard_community \<Rightarrow> string option" where
  "sc_name c = (let w = sc_raw c in
     if w = 0xFFFFFF01 then Some ''NO_EXPORT'' else if w = 0xFFFFFF02 then Some ''NO_ADVERTISE''
     else if w = 0xFFFFFF03 then Some ''NO_EXPORT_SUBCONFED'' else if w = 0xFFFF029A then Some ''BLACKHOLE''
     else if w = 0xFFFF0000 then Some ''GRACEFUL_SHUTDOWN'' else if w = 0xFFFF0001 then Some ''ACCEPT_OWN''
     else None)"

definition sc_string :: "standard_community \<Rightarrow> string" where
  "sc_string c = (case sc_name c of Some n \<Rightarrow> n
     | None \<Rightarrow> dec (unat (sc_asn c)) @ '':'' @ dec (unat (sc_value c)))"

datatype extended_community = ExtendedCommunity (type_high: u8) (type_low: u8) (ec_value: bytes)

text \<open>\<open>ExtendedCommunity::from_bytes(&[u8; 8])\<close>.\<close>

definition ec_from_bytes :: "bytes \<Rightarrow> extended_community" where
  "ec_from_bytes b = ExtendedCommunity (b ! 0) (b ! 1) (drop 2 b)"

definition ec_is_transitive :: "extended_community \<Rightarrow> bool" where
  "ec_is_transitive c \<longleftrightarrow> type_high c AND 0x40 = 0"

definition ec_kind :: "extended_community \<Rightarrow> string" where
  "ec_kind c = (let h = type_high c AND 0x3F; l = type_low c in
     if h \<in> {0, 2} \<and> l = 2 then ''route-target'' else if h = 1 \<and> l = 2 then ''route-target''
     else if h \<in> {0, 2} \<and> l = 3 then ''route-origin-soo'' else if h = 1 \<and> l = 3 then ''route-origin-soo''
     else if h = 3 \<and> l = 0x0B then ''sr-te-color''
     else if h \<in> {0x41, 1} \<and> l = 0x0C then ''vxlan-vni'' else ''extended-community'')"

text \<open>Display of an extended community.\<close>

definition ec_string :: "extended_community \<Rightarrow> string" where
  "ec_string c = (let h = type_high c AND 0x3F; l = type_low c; v = ec_value c in
     if h \<in> {0, 2} \<and> l = 2 then ''rt:'' @ dec (be_nat (take 2 v)) @ '':'' @ dec (be_nat (take 4 (drop 2 v)))
     else if h = 1 \<and> l = 2
     then ''rt:'' @ ipv4_string (from_be_bytes (take 4 v)) @ '':'' @ dec (be_nat (take 2 (drop 4 v)))
     else if h \<in> {0, 2} \<and> l = 3
     then ''soo:'' @ dec (be_nat (take 2 v)) @ '':'' @ dec (be_nat (take 4 (drop 2 v)))
     else if h = 1 \<and> l = 3
     then ''soo:'' @ ipv4_string (from_be_bytes (take 4 v)) @ '':'' @ dec (be_nat (take 2 (drop 4 v)))
     else if h = 3 \<and> l = 0x0B then ''color:'' @ dec (be_nat (take 4 (drop 2 v)))
     else if h \<in> {0x41, 1} \<and> l = 0x0C then ''vni:'' @ dec (be_nat (take 3 (drop 3 v)))
     else ''ext:0x'' @ hex2 (type_high c) @ hex2 (type_low c) @ '':'' @ hex_encode v)"

datatype large_community =
  LargeCommunity (global_admin: u32) (local_data_1: u32) (local_data_2: u32)

definition lc_string :: "large_community \<Rightarrow> string" where
  "lc_string c = dec (unat (global_admin c)) @ '':'' @ dec (unat (local_data_1 c))
     @ '':'' @ dec (unat (local_data_2 c))"

datatype origin = Igp | Egp | Incomplete

definition origin_try_from :: "u8 \<Rightarrow> origin result" where
  "origin_try_from v = (if v = 0 then Ok Igp else if v = 1 then Ok Egp else if v = 2 then Ok Incomplete
     else Err (BgpParse (''invalid ORIGIN value '' @ dec (unat v))))"

fun origin_string :: "origin \<Rightarrow> string" where
  "origin_string Igp = ''IGP''"
| "origin_string Egp = ''EGP''"
| "origin_string Incomplete = ''INCOMPLETE''"

section \<open>Capabilities\<close>

datatype bgp_capability =
    Multiprotocol afi_safi
  | RouteRefresh
  | ExtendedNextHop afi safi afi
  | ExtendedMessage
  | BgpRole u8
  | GracefulRestart (restart_time: u16) (gr_afi_safis: "(afi_safi \<times> u8) list")
  | FourByteAsn u32
  | AddPath "(afi_safi \<times> u8) list"
  | EnhancedRouteRefresh
  | LongLivedGracefulRestart (llgr_entries: bytes)
  | Fqdn (hostname: string) (domain: string)
  | UnknownCapability u8 bytes

fun capability_code :: "bgp_capability \<Rightarrow> u8" where
  "capability_code (Multiprotocol _) = 1"
| "capability_code RouteRefresh = 2"
| "capability_code (ExtendedNextHop _ _ _) = 5"
| "capability_code ExtendedMessage = 6"
| "capability_code (BgpRole _) = 9"
| "capability_code (GracefulRestart _ _) = 64"
| "capability_code (FourByteAsn _) = 65"
| "capability_code (AddPath _) = 69"
| "capability_code EnhancedRouteRefresh = 70"
| "capability_code (LongLivedGracefulRestart _) = 71"
| "capability_code (Fqdn _ _) = 73"
| "capability_code (UnknownCapability c _) = c"

section \<open>Family codes\<close>

lemma afi_as_u16_from [simp]: "afi_as_u16 (afi_from v) = v"
  by (simp add: afi_from_def)

lemma safi_as_u8_from [simp]: "safi_as_u8 (safi_from v) = v"
  by (simp add: safi_from_def)

lemma afi_from_inject [simp]: "afi_from v = afi_from w \<longleftrightarrow> v = w"
  by (metis afi_as_u16_from)

lemma safi_from_inject [simp]: "safi_from v = safi_from w \<longleftrightarrow> v = w"
  by (metis safi_as_u8_from)

lemmas afi_safi_defs = ipv4_unicast_def ipv6_unicast_def ipv4_vpn_def ipv6_vpn_def evpn_family_def
  ipv4_labeled_def ipv6_labeled_def afi_safi_new_def afi_from_def safi_from_def

section \<open>AS paths\<close>

lemma seen_twice_iff: "seen_twice S v \<longleftrightarrow> \<not> distinct v \<or> S \<inter> set v \<noteq> {}"
  by (induction v arbitrary: S) auto

lemma find_map_filter:
  "find_map f xs = (case filter (\<lambda>x. f x \<noteq> None) xs of [] \<Rightarrow> None | x # _ \<Rightarrow> f x)"
  by (induction xs) (auto split: option.splits)

lemma repeats_Some_iff: "repeats (Some a) v \<longleftrightarrow> \<not> distinct_adj (a # v)"
  by (induction v arbitrary: a) auto

lemma repeats_iff: "repeats None v \<longleftrightarrow> \<not> distinct_adj v"
  by (cases v) (simp_all add: repeats_Some_iff)

section \<open>Communities\<close>

lemma low16: "(0xFFFF :: u32) = mask 16"
  by (simp add: mask_eq_exp_minus_1)

lemma sc_asn_new [simp]: "sc_asn (sc_new a v) = a"
  by (rule bit_word_eqI) (auto simp: sc_asn_def sc_new_def bit_simps dest: bit_imp_le_length)

lemma sc_value_new [simp]: "sc_value (sc_new a v) = v"
  by (rule bit_word_eqI) (auto simp: sc_value_def sc_new_def low16 bit_simps)

lemma sc_new_parts [simp]: "sc_new (sc_asn c) (sc_value c) = c"
proof (cases c)
  case (StandardCommunity w)
  have "push_bit 16 (ucast (ucast (drop_bit 16 w) :: u16)) OR ucast (ucast (w AND 0xFFFF) :: u16) = w"
    by (rule bit_word_eqI) (auto simp: low16 bit_simps)
  then show ?thesis
    using StandardCommunity by (simp add: sc_new_def sc_asn_def sc_value_def)
qed

text \<open>The \<open>0x41\<close> alternative of \<open>kind\<close> and of Display is dead: the mask \<open>0x3F\<close> clears bit 6 first.\<close>

lemma ec_kind_high_byte: "type_high c AND 0x3F \<noteq> 0x41"
proof
  assume "type_high c AND 0x3F = 0x41"
  then have "bit (type_high c AND 0x3F) 6 = bit (0x41 :: u8) 6" by simp
  then show False by (simp add: bit_simps)
qed

end
