(* ===== verification/Parse_Loop.thy ===== *)
theory Parse_Loop
  imports Prelude
begin

text \<open>
  The shape almost every decoder of the repository has: while something is left, read one item
  and go on behind it. The locale \<open>parse_loop\<close> states what a decoder promises (one step makes
  progress, the loop is the iteration of the step), and derives once what the component theories
  need: an induction rule, panic freedom, invariants of the items, and a bound on their number.
  \<open>byte_loop\<close> is the case of a cursor over bytes; it adds the round trip with an encoder.
\<close>

locale parse_loop =
  fixes size_of :: "'s \<Rightarrow> nat"
    and more :: "'s \<Rightarrow> bool"
    and step :: "'s \<Rightarrow> ('e, 'a list \<times> 's) outcome"
    and loop :: "'s \<Rightarrow> ('e, 'a list) outcome"
  assumes step_progress: "more s \<Longrightarrow> step s = Ok (xs, s') \<Longrightarrow> size_of s' < size_of s"
    and loop_unfold: "loop s = (if more s
      then and_then (step s) (\<lambda>(xs, s'). and_then (loop s') (\<lambda>ys. Ok (xs @ ys))) else Ok [])"
begin

lemma loop_induct [case_names step]:
  assumes "\<And>s. (\<And>xs s'. more s \<Longrightarrow> step s = Ok (xs, s') \<Longrightarrow> P s') \<Longrightarrow> P s"
  shows "P s"
proof (induction s rule: measure_induct_rule [where f = size_of])
  case (less s)
  then show ?case using assms [of s] step_progress by blast
qed

lemma loop_stop: "\<not> more s \<Longrightarrow> loop s = Ok []"
  by (subst loop_unfold) simp

lemma loop_step: "more s \<Longrightarrow> step s = Ok (xs, s') \<Longrightarrow> loop s = and_then (loop s') (\<lambda>ys. Ok (xs @ ys))"
  by (subst loop_unfold) simp

lemma loop_Err: "more s \<Longrightarrow> step s = Err e \<Longrightarrow> loop s = Err e"
  by (subst loop_unfold) simp

lemma loop_Panic: "more s \<Longrightarrow> step s = Panic \<Longrightarrow> loop s = Panic"
  by (subst loop_unfold) simp

lemma loop_no_panic_inv:
  assumes safe: "\<And>s. I s \<Longrightarrow> more s \<Longrightarrow> step s \<noteq> Panic"
    and inv: "\<And>s xs s'. I s \<Longrightarrow> more s \<Longrightarrow> step s = Ok (xs, s') \<Longrightarrow> I s'"
    and "I s"
  shows "loop s \<noteq> Panic"
  using \<open>I s\<close>
proof (induction s rule: loop_induct)
  case (step s)
  show ?case
  proof
    assume panic: "loop s = Panic"
    then have more: "more s" by (metis loop_stop outcome.distinct(3))
    with panic safe [OF step.prems more] obtain xs s'
      where *: "step s = Ok (xs, s')" "loop s' = Panic"
      using loop_unfold [of s] by (auto simp: and_then_Panic_iff)
    with step.IH [OF more *(1) inv [OF step.prems more *(1)]] show False by simp
  qed
qed

lemma loop_no_panic: "(\<And>s. more s \<Longrightarrow> step s \<noteq> Panic) \<Longrightarrow> loop s \<noteq> Panic"
  by (rule loop_no_panic_inv [where I = "\<lambda>_. True"]) auto

lemma loop_OkE:
  assumes "loop s = Ok ys" "more s"
  obtains xs s' zs where "step s = Ok (xs, s')" "loop s' = Ok zs" "ys = xs @ zs"
  using assms loop_unfold [of s] by (auto simp: and_then_Ok_iff)

lemma loop_all:
  assumes "\<And>s xs s' x. more s \<Longrightarrow> step s = Ok (xs, s') \<Longrightarrow> x \<in> set xs \<Longrightarrow> P x"
    and "loop s = Ok ys" "y \<in> set ys"
  shows "P y"
  using assms(2, 3)
proof (induction s arbitrary: ys rule: loop_induct)
  case (step s)
  show ?case
  proof (cases "more s")
    case True
    with step.prems(1) obtain xs s' zs
      where *: "step s = Ok (xs, s')" "loop s' = Ok zs" "ys = xs @ zs"
      by (rule loop_OkE)
    show ?thesis
    proof (cases "y \<in> set xs")
      case True
      with assms(1) [OF \<open>more s\<close> *(1)] show ?thesis .
    next
      case False
      with *(3) step.prems(2) have "y \<in> set zs" by simp
      with step.IH [OF \<open>more s\<close> *(1) *(2)] show ?thesis .
    qed
  qed (use step.prems in \<open>simp add: loop_stop\<close>)
qed

text \<open>A second loop whose step differs only in a function applied to the items.\<close>

lemma loop_map:
  assumes step': "\<And>s. more s \<Longrightarrow> step' s = and_then (step s) (\<lambda>(xs, r). Ok (map f xs, r))"
    and loop': "parse_loop size_of more step' loop'"
  shows "loop' s = and_then (loop s) (\<lambda>xs. Ok (map f xs))"
proof (induction s rule: loop_induct)
  case (step s)
  show ?case
  proof (cases "more s")
    case True
    show ?thesis
    proof (cases "step s")
      case (Ok p)
      then obtain xs r where *: "step s = Ok (xs, r)" by (cases p) auto
      with True have "step' s = Ok (map f xs, r)" by (simp add: step')
      with step [OF True *] show ?thesis
        using loop_step [OF True *] parse_loop.loop_step [OF loop' True]
        by (cases "loop r") simp_all
    next
      case (Err e)
      then show ?thesis
        using loop_Err [OF True] parse_loop.loop_Err [OF loop' True] step' [OF True] by simp
    next
      case Panic
      then show ?thesis
        using loop_Panic [OF True] parse_loop.loop_Panic [OF loop' True] step' [OF True] by simp
    qed
  next
    case False
    then show ?thesis
      using parse_loop.loop_stop [OF loop' False] by (simp add: loop_stop)
  qed
qed

text \<open>An item that costs at least \<open>c\<close> units of input: at most \<open>size div c\<close> items come out.\<close>

lemma loop_length:
  assumes "\<And>s xs s'. more s \<Longrightarrow> step s = Ok (xs, s') \<Longrightarrow> c * length xs + size_of s' \<le> size_of s"
    and "loop s = Ok ys"
  shows "c * length ys \<le> size_of s"
  using assms(2)
proof (induction s arbitrary: ys rule: loop_induct)
  case (step s)
  show ?case
  proof (cases "more s")
    case True
    with step.prems obtain xs s' zs
      where *: "step s = Ok (xs, s')" "loop s' = Ok zs" "ys = xs @ zs"
      by (rule loop_OkE)
    with step.IH [OF True *(1) *(2)] assms(1) [OF True *(1)] show ?thesis
      by (simp add: distrib_left)
  qed (use step.prems in \<open>simp add: loop_stop\<close>)
qed

end

locale byte_loop = parse_loop length more step loop
  for more :: "bytes \<Rightarrow> bool"
    and step :: "bytes \<Rightarrow> ('e, 'a list \<times> bytes) outcome"
    and loop :: "bytes \<Rightarrow> ('e, 'a list) outcome" +
  assumes more_Nil: "\<not> more []"
begin

lemma loop_Nil [simp]: "loop [] = Ok []"
  by (simp add: loop_stop more_Nil)

lemma loop_encoded_concat:
  assumes "\<And>x r. x \<in> set xs \<Longrightarrow> more (enc x @ r) \<and> step (enc x @ r) = Ok (f x, r)"
  shows "loop (concat (map enc xs)) = Ok (concat (map f xs))"
  using assms
proof (induction xs)
  case (Cons x xs)
  then have "loop (concat (map enc xs)) = Ok (concat (map f xs))" by simp
  with Cons.prems [of x "concat (map enc xs)"] show ?case
    by (simp add: loop_step)
qed simp

lemma loop_encoded:
  assumes "\<And>x r. x \<in> set xs \<Longrightarrow> more (enc x @ r) \<and> step (enc x @ r) = Ok ([x], r)"
  shows "loop (concat (map enc xs)) = Ok xs"
  using loop_encoded_concat [of xs enc "\<lambda>x. [x]"] assms by simp

end

text \<open>The form in which the component theories establish the contract: by cases on the input.\<close>

lemma byte_loopI:
  assumes "\<not> more []"
    and "\<And>b bs xs r. more (b # bs) \<Longrightarrow> step (b # bs) = Ok (xs, r) \<Longrightarrow> length r < length (b # bs)"
    and "loop [] = Ok []"
    and "\<And>b bs. loop (b # bs) = (if more (b # bs)
      then and_then (step (b # bs)) (\<lambda>(xs, r). and_then (loop r) (\<lambda>ys. Ok (xs @ ys))) else Ok [])"
  shows "byte_loop more step loop"
proof
  fix s xs s'
  show "length s' < length s" if "more s" "step s = Ok (xs, s')"
    using assms(1, 2) that by (cases s) auto
  show "loop s = (if more s
      then and_then (step s) (\<lambda>(xs, s'). and_then (loop s') (\<lambda>ys. Ok (xs @ ys))) else Ok [])"
    using assms(1, 3, 4) by (cases s) auto
qed (rule assms(1))

end
