(* ===== verification/Capabilities.thy ===== *)
theory Capabilities
  imports Bgp_Types Parse_Loop
begin

unbundle bit_operations_syntax

text \<open>
  BGP session negotiation: \<open>bgp/capabilities.rs\<close> (the capabilities optional parameter), \<open>bgp/open.rs\<close>
  (the OPEN message) and the decode context of \<open>bgp/types.rs\<close> that the two OPENs of a session give.
\<close>

section \<open>Capabilities\<close>

text \<open>The loop of the graceful-restart capability: four bytes per family, the flags byte of the last
  one optional.\<close>

fun graceful_families :: "bytes \<Rightarrow> (afi_safi \<times> u8) list" where
  "graceful_families (a0 # a1 # s # flags # rest) =
     (afi_safi_new (from_be_bytes [a0, a1]) s, flags) # graceful_families rest"
| "graceful_families [a0, a1, s] = [(afi_safi_new (from_be_bytes [a0, a1]) s, 0)]"
| "graceful_families _ = []"

fun add_path_entries :: "bytes \<Rightarrow> (afi_safi \<times> u8) list" where
  "add_path_entries (a0 # a1 # s # mode # rest) =
     (afi_safi_new (from_be_bytes [a0, a1]) s, mode) # add_path_entries rest"
| "add_path_entries _ = []"

definition parse_fqdn :: "bytes \<Rightarrow> bgp_capability result" where
  "parse_fqdn data =
     (if data = [] then Err (UnexpectedEof 1 0) else
      and_then (at data 0) (\<lambda>h.
      let hostname_len = unat h in
      if length data < 1 + hostname_len then Err (UnexpectedEof (1 + hostname_len) (length data)) else
      and_then (slice data 1 (1 + hostname_len)) (\<lambda>host.
      if length data > 1 + hostname_len then
        and_then (at data (1 + hostname_len)) (\<lambda>d.
        let domain_len = unat d; start = 2 + hostname_len in
        if length data < start + domain_len
        then Err (UnexpectedEof (start + domain_len) (length data))
        else and_then (slice data start (start + domain_len)) (\<lambda>dom.
          Ok (Fqdn (from_utf8_lossy host) (from_utf8_lossy dom))))
      else Ok (Fqdn (from_utf8_lossy host) []))))"

definition parse_one_capability :: "u8 \<Rightarrow> bytes \<Rightarrow> bgp_capability result" where
  "parse_one_capability code data =
     (if code = 1 then
        if length data \<noteq> 4 then Err (UnexpectedEof 4 (length data)) else
        and_then (be16_at data 0) (\<lambda>a. and_then (at data 3) (\<lambda>s.
        Ok (Multiprotocol (afi_safi_new a s))))
      else if code = 2 then Ok RouteRefresh
      else if code = 5 then
        if length data < 6 then Err (UnexpectedEof 6 (length data)) else
        and_then (be16_at data 0) (\<lambda>a. and_then (at data 3) (\<lambda>s. and_then (be16_at data 4) (\<lambda>nh.
        Ok (ExtendedNextHop (afi_from a) (safi_from s) (afi_from nh)))))
      else if code = 6 then Ok ExtendedMessage
      else if code = 64 then
        if length data < 2 then Err (UnexpectedEof 2 (length data)) else
        and_then (be16_at data 0) (\<lambda>t. and_then (slice_from data 2) (\<lambda>fams.
        Ok (GracefulRestart (t AND 0x0FFF) (graceful_families fams))))
      else if code = 65 then
        if length data \<noteq> 4 then Err (UnexpectedEof 4 (length data)) else
        and_then (be32_at data 0) (\<lambda>asn. Ok (FourByteAsn asn))
      else if code = 69 then
        if \<not> 4 dvd length data
        then Err (BgpParse (''invalid Add-Path capability length '' @ dec (length data)
          @ '' (must be multiple of 4)''))
        else Ok (AddPath (add_path_entries data))
      else if code = 70 then Ok EnhancedRouteRefresh
      else if code = 71 then Ok (LongLivedGracefulRestart data)
      else if code = 9 then
        if data = [] then Err (UnexpectedEof 1 0) else and_then (at data 0) (\<lambda>r. Ok (BgpRole r))
      else if code = 73 then parse_fqdn data
      else Ok (UnknownCapability code data))"

text \<open>One capability of a capabilities parameter: the body of the inner loop.\<close>

definition capability_entry :: "bytes \<Rightarrow> (bgp_capability list \<times> bytes) result" where
  "capability_entry buf =
     (if length buf < 2 then Err (UnexpectedEof 2 (length buf)) else
      and_then (get_u8 buf) (\<lambda>(cap_code, buf).
      and_then (get_u8 buf) (\<lambda>(len, buf).
      let cap_len = unat len in
      if length buf < cap_len then Err (UnexpectedEof cap_len (length buf)) else
      and_then (copy_to_bytes cap_len buf) (\<lambda>(cap_data, buf).
      and_then (parse_one_capability cap_code cap_data) (\<lambda>cap. Ok ([cap], buf))))))"

lemma capability_entry_rest: "capability_entry buf = Ok (cs, r) \<Longrightarrow> length r < length buf"
  by (auto simp: capability_entry_def Let_def and_then_Ok_iff split: if_splits
      dest!: get_u8_rest copy_to_bytes_rest)

function parse_capability_list :: "bytes \<Rightarrow> bgp_capability list result" where
  "parse_capability_list [] = Ok []"
| "parse_capability_list (b # bs) =
     and_then (capability_entry (b # bs)) (\<lambda>(cs, buf).
     and_then (parse_capability_list buf) (\<lambda>ds. Ok (cs @ ds)))"
  by pat_completeness auto
termination
  by (relation "measure length") (use capability_entry_rest in fastforce)+

text \<open>One optional parameter: the body of the outer loop; parameters other than type 2 are skipped.\<close>

definition parameter_entry :: "bytes \<Rightarrow> (bgp_capability list \<times> bytes) result" where
  "parameter_entry buf =
     (if length buf < 2 then Err (UnexpectedEof 2 (length buf)) else
      and_then (get_u8 buf) (\<lambda>(param_type, buf).
      and_then (get_u8 buf) (\<lambda>(len, buf).
      let param_len = unat len in
      if length buf < param_len then Err (UnexpectedEof param_len (length buf)) else
      and_then (copy_to_bytes param_len buf) (\<lambda>(param_buf, buf).
      if param_type \<noteq> 2 then Ok ([], buf)
      else and_then (parse_capability_list param_buf) (\<lambda>cs. Ok (cs, buf))))))"

lemma parameter_entry_rest: "parameter_entry buf = Ok (cs, r) \<Longrightarrow> length r < length buf"
  by (auto simp: parameter_entry_def Let_def and_then_Ok_iff split: if_splits
      dest!: get_u8_rest copy_to_bytes_rest)

function parse_capabilities :: "bytes \<Rightarrow> bgp_capability list result" where
  "parse_capabilities [] = Ok []"
| "parse_capabilities (b # bs) =
     and_then (parameter_entry (b # bs)) (\<lambda>(cs, buf).
     and_then (parse_capabilities buf) (\<lambda>ds. Ok (cs @ ds)))"
  by pat_completeness auto
termination
  by (relation "measure length") (use parameter_entry_rest in fastforce)+

interpretation capability_loop: byte_loop "\<lambda>buf. buf \<noteq> []" capability_entry parse_capability_list
  by (rule byte_loopI) (auto dest: capability_entry_rest)

interpretation parameter_loop: byte_loop "\<lambda>buf. buf \<noteq> []" parameter_entry parse_capabilities
  by (rule byte_loopI) (auto dest: parameter_entry_rest)

section \<open>OPEN messages\<close>

record bgp_open_info =
  open_version :: u8
  open_asn :: u32
  hold_time :: u16
  bgp_id :: ipv4
  capabilities :: "bgp_capability list"

fun four_byte_asn_of :: "bgp_capability \<Rightarrow> u32 option" where
  "four_byte_asn_of (FourByteAsn asn) = Some asn"
| "four_byte_asn_of _ = None"

definition parse_bgp_open :: "bytes \<Rightarrow> bgp_open_info result" where
  "parse_bgp_open buf =
     (if length buf < 19 then Err (UnexpectedEof 19 (length buf)) else
      and_then (copy_to_bytes 16 buf) (\<lambda>(marker, buf).
      if marker \<noteq> replicate 16 0xFF then Err InvalidBgpMarker else
      and_then (get_u16 buf) (\<lambda>(len, buf).
      and_then (get_u8 buf) (\<lambda>(msg_type, buf).
      let msg_len = unat len in
      if msg_type \<noteq> 1 then Err (InvalidBgpMessageType msg_type)
      else if \<not> (29 \<le> msg_len \<and> msg_len \<le> 4096)
      then Err (BgpParse (''invalid BGP OPEN declared length '' @ dec msg_len @ '' (must be 29..=4096)''))
      else
        let body_len = msg_len - 19 in
        if length buf < body_len then Err (UnexpectedEof msg_len (19 + length buf))
        else if length buf > body_len
        then Err (BgpParse (''BGP OPEN buffer length '' @ dec (19 + length buf)
          @ '' exceeds declared length '' @ dec msg_len))
        else
          and_then (get_u8 buf) (\<lambda>(version, buf).
          and_then (get_u16 buf) (\<lambda>(my_asn, buf).
          and_then (get_u16 buf) (\<lambda>(hold, buf).
          and_then (copy_to_bytes 4 buf) (\<lambda>(id_raw, buf).
          and_then (get_u8 buf) (\<lambda>(opt_len, buf).
          let opt_params_len = unat opt_len in
          if 10 + opt_params_len \<noteq> body_len
          then Err (BgpParse (''BGP OPEN opt_params_len '' @ dec opt_params_len
            @ '' does not match declared body length '' @ dec body_len))
          else
            and_then (copy_to_bytes opt_params_len buf) (\<lambda>(params, buf).
            and_then (parse_capabilities params) (\<lambda>caps.
            Ok \<lparr>open_version = version,
                open_asn = (case find_map four_byte_asn_of caps of Some a \<Rightarrow> a | None \<Rightarrow> ucast my_asn),
                hold_time = hold, bgp_id = from_be_bytes id_raw, capabilities = caps\<rparr>)))))))))))"

section \<open>The decode context\<close>

record bgp_decode_context =
  four_byte_asn :: bool
  add_path_families :: "afi_safi set"

definition default_context :: bgp_decode_context where
  "default_context = \<lparr>four_byte_asn = True, add_path_families = {}\<rparr>"

definition context_new :: "bool \<Rightarrow> bgp_decode_context" where
  "context_new four = \<lparr>four_byte_asn = four, add_path_families = {}\<rparr>"

definition with_add_path_ipv4 :: "bool \<Rightarrow> bgp_decode_context" where
  "with_add_path_ipv4 on = (if on
     then default_context\<lparr>add_path_families := insert ipv4_unicast (add_path_families default_context)\<rparr>
     else default_context)"

definition with_add_path_family :: "bgp_decode_context \<Rightarrow> afi_safi \<Rightarrow> bgp_decode_context" where
  "with_add_path_family ctx f = ctx\<lparr>add_path_families := insert f (add_path_families ctx)\<rparr>"

fun is_four_byte :: "bgp_capability \<Rightarrow> bool" where
  "is_four_byte (FourByteAsn _) = True"
| "is_four_byte _ = False"

fun add_path_of :: "bgp_capability \<Rightarrow> (afi_safi \<times> u8) list" where
  "add_path_of (AddPath entries) = entries"
| "add_path_of _ = []"

definition from_capabilities :: "bool \<Rightarrow> bgp_capability list \<Rightarrow> bgp_decode_context" where
  "from_capabilities four caps =
     \<lparr>four_byte_asn = four \<or> list_ex is_four_byte caps,
      add_path_families = foldl (\<lambda>fams (f, mode). if mode = 3 then insert f fams else fams) {}
        (concat (map add_path_of caps))\<rparr>"

definition add_path_active :: "u8 \<Rightarrow> u8 \<Rightarrow> bool" where
  "add_path_active sent_mode recv_mode \<longleftrightarrow>
     (sent_mode AND 1 \<noteq> 0 \<and> recv_mode AND 2 \<noteq> 0) \<or> (sent_mode AND 2 \<noteq> 0 \<and> recv_mode AND 1 \<noteq> 0)"

text \<open>The four nested loops over the Add-Path entries of both sides.\<close>

definition from_negotiated_open ::
  "bool \<Rightarrow> bgp_capability list \<Rightarrow> bgp_capability list \<Rightarrow> bgp_decode_context" where
  "from_negotiated_open four sent_caps recv_caps =
     \<lparr>four_byte_asn = four \<or> list_ex is_four_byte (sent_caps @ recv_caps),
      add_path_families =
        foldl (\<lambda>fams ((sent_af, sent_mode), (recv_af, recv_mode)).
            if sent_af = recv_af \<and> add_path_active sent_mode recv_mode then insert sent_af fams else fams) {}
          (List.product (concat (map add_path_of sent_caps)) (concat (map add_path_of recv_caps)))\<rparr>"

definition has_add_path :: "bgp_decode_context \<Rightarrow> afi_safi \<Rightarrow> bool" where
  "has_add_path ctx f \<longleftrightarrow> f \<in> add_path_families ctx"

section \<open>Panic freedom\<close>

lemma parse_fqdn_no_panic [panics]: "parse_fqdn data \<noteq> Panic"
  by (auto simp: parse_fqdn_def Let_def reads not_less Suc_le_eq and_then_Panic_iff)

lemma parse_one_capability_no_panic [panics]: "parse_one_capability code data \<noteq> Panic"
  unfolding parse_one_capability_def
  by (auto simp: reads parse_fqdn_no_panic simp flip: length_greater_0_conv)

lemma capability_entry_no_panic [panics]: "capability_entry buf \<noteq> Panic"
  by (auto simp: capability_entry_def Let_def and_then_Panic_iff parse_one_capability_no_panic
      dest!: reader_lengths)

lemma parse_capability_list_no_panic [panics]: "parse_capability_list buf \<noteq> Panic"
  by (rule capability_loop.loop_no_panic) (rule capability_entry_no_panic)

lemma parameter_entry_no_panic [panics]: "parameter_entry buf \<noteq> Panic"
  by (auto simp: parameter_entry_def Let_def and_then_Panic_iff parse_capability_list_no_panic
      dest!: reader_lengths)

lemma parse_capabilities_no_panic [panics]: "parse_capabilities buf \<noteq> Panic"
  by (rule parameter_loop.loop_no_panic) (rule parameter_entry_no_panic)

lemma parse_bgp_open_no_panic [panics]: "parse_bgp_open buf \<noteq> Panic"
  unfolding parse_bgp_open_def Let_def
  by (auto simp: reads parse_capabilities_no_panic and_then_Panic_iff)

section \<open>Wire formats\<close>

text \<open>A family is in normal form when its codes are not aliases of a named family.\<close>

definition family_ok :: "afi_safi \<Rightarrow> bool" where
  "family_ok f \<longleftrightarrow> afi_safi_new (afi_as_u16 (afi f)) (safi_as_u8 (safi f)) = f"

definition family_wire :: "afi_safi \<Rightarrow> bytes" where
  "family_wire f = to_be_bytes 2 (afi_as_u16 (afi f)) @ [safi_as_u8 (safi f)]"

fun capability_data :: "bgp_capability \<Rightarrow> bytes" where
  "capability_data (Multiprotocol f) = to_be_bytes 2 (afi_as_u16 (afi f)) @ [0, safi_as_u8 (safi f)]"
| "capability_data RouteRefresh = []"
| "capability_data (ExtendedNextHop a s nh) =
     to_be_bytes 2 (afi_as_u16 a) @ [0, safi_as_u8 s] @ to_be_bytes 2 (afi_as_u16 nh)"
| "capability_data ExtendedMessage = []"
| "capability_data (BgpRole r) = [r]"
| "capability_data (GracefulRestart t fs) =
     to_be_bytes 2 t @ concat (map (\<lambda>(f, flags). family_wire f @ [flags]) fs)"
| "capability_data (FourByteAsn a) = to_be_bytes 4 a"
| "capability_data (AddPath es) = concat (map (\<lambda>(f, mode). family_wire f @ [mode]) es)"
| "capability_data EnhancedRouteRefresh = []"
| "capability_data (LongLivedGracefulRestart es) = es"
| "capability_data (Fqdn h d) = word_of_nat (length h) # map (\<lambda>c. word_of_nat (of_char c)) h
     @ word_of_nat (length d) # map (\<lambda>c. word_of_nat (of_char c)) d"
| "capability_data (UnknownCapability c d) = d"

definition ascii :: "string \<Rightarrow> bool" where
  "ascii s \<longleftrightarrow> (\<forall>c \<in> set s. (of_char c :: nat) < 128)"

fun capability_ok :: "bgp_capability \<Rightarrow> bool" where
  "capability_ok (Multiprotocol f) \<longleftrightarrow> family_ok f"
| "capability_ok (ExtendedNextHop a s nh) \<longleftrightarrow> afi_from (afi_as_u16 a) = a \<and> safi_from (safi_as_u8 s) = s
     \<and> afi_from (afi_as_u16 nh) = nh"
| "capability_ok (GracefulRestart t fs) \<longleftrightarrow> t AND 0x0FFF = t \<and> (\<forall>(f, _) \<in> set fs. family_ok f)"
| "capability_ok (AddPath es) \<longleftrightarrow> (\<forall>(f, _) \<in> set es. family_ok f)"
| "capability_ok (Fqdn h d) \<longleftrightarrow> ascii h \<and> ascii d"
| "capability_ok (UnknownCapability c d) \<longleftrightarrow> c \<notin> {1, 2, 5, 6, 9, 64, 65, 69, 70, 71, 73}"
| "capability_ok _ \<longleftrightarrow> True"

definition capability_wire :: "bgp_capability \<Rightarrow> bytes" where
  "capability_wire c = capability_code c # word_of_nat (length (capability_data c)) # capability_data c"

definition parameter_wire :: "bgp_capability list \<Rightarrow> bytes" where
  "parameter_wire cs = (let body = concat (map capability_wire cs) in 2 # word_of_nat (length body) # body)"

definition open_wire :: "u16 \<Rightarrow> bgp_open_info \<Rightarrow> bytes" where
  "open_wire my_asn info =
     (let params = (if capabilities info = [] then [] else parameter_wire (capabilities info)) in
      replicate 16 0xFF @ to_be_bytes 2 (word_of_nat (29 + length params) :: u16) @ [1, open_version info]
      @ to_be_bytes 2 my_asn @ to_be_bytes 2 (hold_time info) @ to_be_bytes 4 (bgp_id info)
      @ [word_of_nat (length params)] @ params)"

lemma family_new: "family_ok f \<Longrightarrow> afi_safi_new (from_be_bytes (to_be_bytes 2 (afi_as_u16 (afi f)))) (safi_as_u8 (safi f)) = f"
  by (simp add: family_ok_def)

lemma graceful_families_wire:
  "\<forall>(f, flags) \<in> set fs. family_ok f \<Longrightarrow>
    graceful_families (concat (map (\<lambda>(f, flags). family_wire f @ [flags]) fs)) = fs"
proof (induction fs)
  case (Cons e fs)
  obtain f flags where e: "e = (f, flags)" by (cases e)
  with Cons show ?case
    using family_new [of f] by (simp add: family_wire_def to_be_bytes_2)
qed simp

lemma add_path_entries_wire:
  "\<forall>(f, mode) \<in> set es. family_ok f \<Longrightarrow>
    add_path_entries (concat (map (\<lambda>(f, mode). family_wire f @ [mode]) es)) = es"
proof (induction es)
  case (Cons e es)
  obtain f mode where e: "e = (f, mode)" by (cases e)
  with Cons show ?case
    using family_new [of f] by (simp add: family_wire_def to_be_bytes_2)
qed simp

lemma length_families_wire: "length (concat (map (\<lambda>(f, x). family_wire f @ [x]) es)) = 4 * length es"
  by (induction es) (auto simp: family_wire_def)

lemma from_utf8_lossy_of_ascii:
  "ascii s \<Longrightarrow> from_utf8_lossy (map (\<lambda>c. word_of_nat (of_char c)) s) = s"
proof -
  assume s: "ascii s"
  have w: "unat (word_of_nat (of_char c) :: u8) = of_char c" if "c \<in> set s" for c
    using s that by (intro unat_word_of_nat) (auto simp: ascii_def)
  then have "\<forall>b \<in> set (map (\<lambda>c. word_of_nat (of_char c) :: u8) s). b < 0x80"
    using s by (auto simp: ascii_def word_less_nat_alt)
  then have "from_utf8_lossy (map (\<lambda>c. word_of_nat (of_char c)) s) = map (\<lambda>c. byte_char (word_of_nat (of_char c))) s"
    by (simp add: from_utf8_lossy_ascii)
  also have "\<dots> = s"
    using w by (intro map_idI) (auto simp: byte_char_def)
  finally show ?thesis .
qed

lemma parse_fqdn_wire:
  assumes "ascii h" "ascii d" "length h + length d + 2 < 256"
  shows "parse_fqdn (capability_data (Fqdn h d)) = Ok (Fqdn h d)"
proof -
  have u: "unat (word_of_nat (length h) :: u8) = length h" "unat (word_of_nat (length d) :: u8) = length d"
    by (rule unat_word_of_nat, use assms(3) in simp)+
  then show ?thesis
    using assms(1, 2)
    by (simp add: parse_fqdn_def Let_def at_def slice_def nth_append from_utf8_lossy_of_ascii)
qed

lemma parse_one_capability_wire:
  assumes "capability_ok c" "length (capability_data c) < 256"
  shows "parse_one_capability (capability_code c) (capability_data c) = Ok c"
proof (cases c)
  case (Fqdn h d)
  with assms parse_fqdn_wire [of h d] show ?thesis
    by (simp add: parse_one_capability_def)
next
  case (UnknownCapability code d)
  with assms show ?thesis by (simp add: parse_one_capability_def)
qed (use assms in \<open>auto simp: parse_one_capability_def reads length_families_wire graceful_families_wire
    add_path_entries_wire family_ok_def nth_append\<close>)

lemma capability_entry_wire:
  assumes "capability_ok c" "length (capability_data c) < 256"
  shows "capability_entry (capability_wire c @ r) = Ok ([c], r)"
proof -
  have "unat (word_of_nat (length (capability_data c)) :: u8) = length (capability_data c)"
    by (rule unat_word_of_nat) (use assms(2) in simp)
  then show ?thesis
    using parse_one_capability_wire [OF assms]
    by (simp add: capability_entry_def capability_wire_def get_u8_def copy_to_bytes_def Let_def)
qed

lemma capability_data_short:
  "c \<in> set cs \<Longrightarrow> length (concat (map capability_wire cs)) < 256 \<Longrightarrow> length (capability_data c) < 256"
proof (induction cs)
  case (Cons d cs)
  then show ?case by (cases "c = d") (simp_all add: capability_wire_def)
qed simp

lemma parse_capability_list_wire:
  assumes "\<forall>c \<in> set cs. capability_ok c" "length (concat (map capability_wire cs)) < 256"
  shows "parse_capability_list (concat (map capability_wire cs)) = Ok cs"
proof (rule capability_loop.loop_encoded)
  fix c r assume "c \<in> set cs"
  then show "capability_wire c @ r \<noteq> [] \<and> capability_entry (capability_wire c @ r) = Ok ([c], r)"
    using assms capability_entry_wire [of c r] capability_data_short [of c cs] by (simp add: capability_wire_def)
qed

lemma parameter_entry_wire:
  assumes "\<forall>c \<in> set cs. capability_ok c" "length (concat (map capability_wire cs)) < 256"
  shows "parameter_entry (parameter_wire cs @ r) = Ok (cs, r)"
proof -
  have "unat (word_of_nat (length (concat (map capability_wire cs))) :: u8) = length (concat (map capability_wire cs))"
    by (rule unat_word_of_nat) (use assms(2) in simp)
  then show ?thesis
    using parse_capability_list_wire [OF assms]
    by (simp add: parameter_entry_def parameter_wire_def get_u8_def copy_to_bytes_def Let_def)
qed

lemma parameter_wire_nonempty: "parameter_wire cs \<noteq> []"
  by (simp add: parameter_wire_def Let_def)

lemma parse_capabilities_wire:
  assumes "\<forall>cs \<in> set css. (\<forall>c \<in> set cs. capability_ok c) \<and> length (concat (map capability_wire cs)) < 256"
  shows "parse_capabilities (concat (map parameter_wire css)) = Ok (concat css)"
proof -
  have "parse_capabilities (concat (map parameter_wire css)) = Ok (concat (map (\<lambda>cs. cs) css))"
    by (rule parameter_loop.loop_encoded_concat)
      (use assms parameter_entry_wire parameter_wire_nonempty in auto)
  then show ?thesis by simp
qed

text \<open>An Ok result of the OPEN parser pins down the whole message.\<close>

lemma parse_bgp_open_accepts:
  assumes "parse_bgp_open buf = Ok info"
  shows "length buf = be_nat (take 2 (drop 16 buf)) \<and> 29 \<le> length buf \<and> length buf \<le> 4096
    \<and> take 16 buf = replicate 16 0xFF \<and> buf ! 18 = 1
    \<and> length buf = 29 + unat (buf ! 28)"
  using assms unfolding parse_bgp_open_def Let_def
  by (auto simp: reads unat_from_be_bytes and_then_Ok_iff split: if_splits)

section \<open>Folds over Add-Path entries\<close>

lemma foldl_insert_if:
  "foldl (\<lambda>S x. if P x then insert (f x) S else S) S xs = S \<union> f ` {x \<in> set xs. P x}"
  by (induction xs arbitrary: S) auto

lemma negotiated_families:
  "add_path_families (from_negotiated_open four sent recv) =
    {f. \<exists>sm rm. (f, sm) \<in> set (concat (map add_path_of sent)) \<and> (f, rm) \<in> set (concat (map add_path_of recv))
      \<and> add_path_active sm rm}" (is "_ = {f. ?active f}")
proof -
  let ?P = "\<lambda>p. fst (fst p) = fst (snd p) \<and> add_path_active (snd (fst p)) (snd (snd p))"
  let ?ps = "List.product (concat (map add_path_of sent)) (concat (map add_path_of recv))"
  have "add_path_families (from_negotiated_open four sent recv)
    = foldl (\<lambda>S p. if ?P p then insert (fst (fst p)) S else S) {} ?ps"
    by (auto simp: from_negotiated_open_def split_def intro!: foldl_cong)
  also have "\<dots> = (\<lambda>p. fst (fst p)) ` {p \<in> set ?ps. ?P p}"
    by (simp add: foldl_insert_if del: set_product)
  also have "\<dots> = {f. ?active f}"
  proof (rule set_eqI)
    fix f
    show "f \<in> (\<lambda>p. fst (fst p)) ` {p \<in> set ?ps. ?P p} \<longleftrightarrow> f \<in> {f. ?active f}"
      unfolding set_product image_iff by (simp only: mem_Collect_eq) force
  qed
  finally show ?thesis .
qed

lemma add_path_active_sym: "add_path_active sm rm = add_path_active rm sm"
  by (auto simp: add_path_active_def)

section \<open>Properties\<close>

text \<open>C28: OPEN messages round-trip: parsing the wire form of an OPEN with well-formed capabilities gives
  back its version, hold time, BGP identifier and capability list, and as AS number the four-octet
  capability when there is one and the two-octet field otherwise.\<close>

theorem bgp_open_roundtrip:
  assumes "\<forall>c \<in> set (capabilities info). capability_ok c"
    and "length (concat (map capability_wire (capabilities info))) \<le> 253"
    and "open_asn info = (case find_map four_byte_asn_of (capabilities info) of
      Some a \<Rightarrow> a | None \<Rightarrow> ucast my_asn)"
  shows "parse_bgp_open (open_wire my_asn info) = Ok info"
proof -
  define params where "params = (if capabilities info = [] then [] else parameter_wire (capabilities info))"
  have params: "parse_capabilities params = Ok (capabilities info)"
    using parse_capabilities_wire [of "[capabilities info]"] assms(1, 2) by (simp add: params_def)
  have len: "length params \<le> 255"
    using assms(2) by (simp add: params_def parameter_wire_def Let_def)
  have "unat (word_of_nat (29 + length params) :: u16) = 29 + length params"
    by (rule unat_word_of_nat) (use len in simp)
  moreover have "unat (word_of_nat (length params) :: u8) = length params"
    by (rule unat_word_of_nat) (use len in simp)
  ultimately show ?thesis
    using params len assms(3)
    by (simp add: parse_bgp_open_def open_wire_def get_u8_def get_u16_def copy_to_bytes_def Let_def
        flip: params_def)
qed

theorem bgp_open_roundtrip_witness:
  "parse_bgp_open (open_wire 23456 \<lparr>open_version = 4, open_asn = 400000, hold_time = 90, bgp_id = 0x01010101,
      capabilities = [Multiprotocol ipv4_unicast, FourByteAsn 400000]\<rparr>)
   = Ok \<lparr>open_version = 4, open_asn = 400000, hold_time = 90, bgp_id = 0x01010101,
      capabilities = [Multiprotocol ipv4_unicast, FourByteAsn 400000]\<rparr>"
  by (rule bgp_open_roundtrip) (simp_all add: family_ok_def afi_safi_defs capability_wire_def)

text \<open>C29: The OPEN parser never panics, and what it accepts is framed exactly: the marker is all ones, the
  type is OPEN, the buffer has the declared length, that length is between 29 and 4096, and the optional
  parameters fill the rest of the body.\<close>

theorem bgp_open_framing:
  "parse_bgp_open buf \<noteq> Panic
   \<and> (\<forall>info. parse_bgp_open buf = Ok info \<longrightarrow>
       length buf = be_nat (take 2 (drop 16 buf)) \<and> 29 \<le> length buf \<and> length buf \<le> 4096
       \<and> take 16 buf = replicate 16 0xFF \<and> buf ! 18 = 1 \<and> length buf = 29 + unat (buf ! 28))"
  using parse_bgp_open_no_panic parse_bgp_open_accepts by blast

theorem bgp_open_framing_witness:
  "\<exists>info. parse_bgp_open (replicate 16 0xFF @ [0, 29, 1, 4, 0, 1, 0, 90, 1, 1, 1, 1, 0]) = Ok info
    \<and> length (replicate 16 (0xFF :: u8) @ [0, 29, 1, 4, 0, 1, 0, 90, 1, 1, 1, 1, 0]) = 29 + unat (0 :: u8)"
proof -
  have "parse_bgp_open (replicate 16 0xFF @ [0, 29, 1, 4, 0, 1, 0, 90, 1, 1, 1, 1, 0])
    = Ok \<lparr>open_version = 4, open_asn = 1, hold_time = 90, bgp_id = 0x01010101, capabilities = []\<rparr>"
    by (simp add: parse_bgp_open_def reads Let_def from_be_bytes_def be_nat_def)
  with bgp_open_framing [of "replicate 16 0xFF @ [0, 29, 1, 4, 0, 1, 0, 90, 1, 1, 1, 1, 0]"]
  show ?thesis by simp
qed

lemma add_path_active_bits: "add_path_active sm rm \<longleftrightarrow> bit sm 1 \<and> bit rm 0 \<or> bit sm 0 \<and> bit rm 1"
proof -
  have "(m AND 1 \<noteq> 0) = bit m 0" "(m AND 2 \<noteq> 0) = bit m 1" for m :: u8
    using bit_iff_and_push_bit_not_eq_0 [of m 0] bit_iff_and_push_bit_not_eq_0 [of m 1] by simp_all
  then show ?thesis by (auto simp: add_path_active_def)
qed

lemma add_path_of_iff: "x \<in> set (concat (map add_path_of caps)) \<longleftrightarrow> (\<exists>fams. AddPath fams \<in> set caps \<and> x \<in> set fams)"
proof -
  have "x \<in> set (add_path_of c) \<longleftrightarrow> (\<exists>fams. c = AddPath fams \<and> x \<in> set fams)" for c by (cases c) auto
  then show ?thesis by auto
qed

text \<open>C30: Add-Path negotiation is RFC 7911 section 5, where mode bit 1 says that a side sends and mode bit 0 that it receives
  additional paths: a family is active exactly when each OPEN has an Add-Path capability that lists it, with modes such that one
  side sends and the other receives. The result does not depend on which OPEN is called sent and which received.\<close>

theorem negotiated_add_path:
  "(has_add_path (from_negotiated_open four sent recv) f \<longleftrightarrow>
     (\<exists>sfams sm rfams rm. AddPath sfams \<in> set sent \<and> (f, sm) \<in> set sfams \<and> AddPath rfams \<in> set recv \<and> (f, rm) \<in> set rfams
        \<and> (bit sm 1 \<and> bit rm 0 \<or> bit sm 0 \<and> bit rm 1)))
   \<and> from_negotiated_open four sent recv = from_negotiated_open four recv sent"
proof -
  have "add_path_families (from_negotiated_open four sent recv) = add_path_families (from_negotiated_open four recv sent)"
    unfolding negotiated_families using add_path_active_sym by blast
  moreover have "four_byte_asn (from_negotiated_open four sent recv) = four_byte_asn (from_negotiated_open four recv sent)"
    by (auto simp: from_negotiated_open_def)
  ultimately have "from_negotiated_open four sent recv = from_negotiated_open four recv sent"
    by (simp add: bgp_decode_context.equality)
  moreover have "has_add_path (from_negotiated_open four sent recv) f \<longleftrightarrow>
      (\<exists>sm rm. (f, sm) \<in> set (concat (map add_path_of sent)) \<and> (f, rm) \<in> set (concat (map add_path_of recv))
        \<and> add_path_active sm rm)"
    by (simp only: has_add_path_def negotiated_families mem_Collect_eq)
  ultimately show ?thesis unfolding add_path_of_iff add_path_active_bits by blast
qed

end
