(* ===== verification/Flowspec.thy ===== *)
theory Flowspec
  imports Bgp_Types Parse_Loop
begin

unbundle bit_operations_syntax

text \<open>
  \<open>crates/rbmp-core/src/bgp/flowspec.rs\<close>: flow specification rules. A rule is a list of typed
  components with a printed summary. A position in a slice is represented by the bytes behind it.
\<close>

section \<open>Data\<close>

record numeric_op =
  nlt :: bool
  ngt :: bool
  neq :: bool
  nand_bit :: bool
  nvalue :: u64

record bitmask_op =
  bnot :: bool
  match_bit :: bool
  band_bit :: bool
  bvalue :: u64

datatype flowspec_component =
    DestPrefix string u8
  | SrcPrefix string u8
  | IpProtocol "numeric_op list"
  | Port "numeric_op list"
  | DstPort "numeric_op list"
  | SrcPort "numeric_op list"
  | IcmpType "numeric_op list"
  | IcmpCode "numeric_op list"
  | TcpFlags "bitmask_op list"
  | PktLen "numeric_op list"
  | Dscp "numeric_op list"
  | Fragment "bitmask_op list"
  | UnknownComponent u8 bytes

record flowspec_nlri =
  components :: "flowspec_component list"
  summary :: string

section \<open>Operators\<close>

definition value_len :: "u8 \<Rightarrow> nat" where
  "value_len op_byte = 2 ^ unat (drop_bit 4 op_byte AND 0x03)"

text \<open>The loops of \<open>parse_numeric_ops\<close> and \<open>parse_bitmask_ops\<close>: the operators and how many bytes they
  took. A truncated operand ends the list, with its operator byte consumed.\<close>

fun parse_numeric_ops :: "bytes \<Rightarrow> numeric_op list \<times> nat" where
  "parse_numeric_ops [] = ([], 0)"
| "parse_numeric_ops (op_byte # rest) =
     (let vlen = value_len op_byte in
      if vlen > length rest then ([], 1)
      else
        let op = \<lparr>nlt = op_byte AND 0x04 \<noteq> 0, ngt = op_byte AND 0x02 \<noteq> 0, neq = op_byte AND 0x01 \<noteq> 0,
                  nand_bit = op_byte AND 0x40 \<noteq> 0, nvalue = from_be_bytes (take vlen rest)\<rparr> in
        if op_byte AND 0x80 \<noteq> 0 then ([op], 1 + vlen)
        else
          let (ops, n) = parse_numeric_ops (drop vlen rest) in (op # ops, 1 + vlen + n))"

fun parse_bitmask_ops :: "bytes \<Rightarrow> bitmask_op list \<times> nat" where
  "parse_bitmask_ops [] = ([], 0)"
| "parse_bitmask_ops (op_byte # rest) =
     (let vlen = value_len op_byte in
      if vlen > length rest then ([], 1)
      else
        let op = \<lparr>bnot = op_byte AND 0x02 \<noteq> 0, match_bit = op_byte AND 0x01 \<noteq> 0,
                  band_bit = op_byte AND 0x40 \<noteq> 0,
                  bvalue = (if vlen = 1 \<or> vlen = 2 then from_be_bytes (take vlen rest) else 0)\<rparr> in
        if op_byte AND 0x80 \<noteq> 0 then ([op], 1 + vlen)
        else
          let (ops, n) = parse_bitmask_ops (drop vlen rest) in (op # ops, 1 + vlen + n))"

section \<open>Components\<close>

definition flowspec_prefix :: "u8 \<Rightarrow> bytes \<Rightarrow> bool \<Rightarrow> (flowspec_component \<times> string \<times> nat) result" where
  "flowspec_prefix t buf ipv6 =
     (if buf = [] then Err (UnexpectedEof 1 0) else
      and_then (at buf 0) (\<lambda>prefix_len.
      let octets = (unat prefix_len + 7) div 8 in
      if length buf < 1 + octets then Err (UnexpectedEof (1 + octets) (length buf)) else
      and_then
        (if ipv6 then
           and_then (slice buf 1 (1 + octets)) (\<lambda>b. and_then (fill_array 16 b) (\<lambda>a.
           Ok (ipv6_string (from_be_bytes a))))
         else
           let n = min octets 4 in
           and_then (slice buf 1 (1 + n)) (\<lambda>b. and_then (fill_array 4 b) (\<lambda>a.
           Ok (ipv4_string (from_be_bytes a)))))
      (\<lambda>prefix.
      let summary = (if t = 1 then ''dst'' else ''src'') @ ''='' @ prefix @ ''/'' @ dec (unat prefix_len);
          comp = (if t = 1 then DestPrefix prefix prefix_len else SrcPrefix prefix prefix_len) in
      Ok (comp, summary, 1 + octets))))"

definition numeric_label :: "u8 \<Rightarrow> string" where
  "numeric_label t = (if t = 3 then ''proto'' else if t = 4 then ''port'' else if t = 5 then ''dstport''
     else if t = 6 then ''srcport'' else if t = 7 then ''icmptype'' else if t = 8 then ''icmpcode''
     else if t = 10 then ''pktlen'' else ''dscp'')"

definition numeric_component :: "u8 \<Rightarrow> numeric_op list \<Rightarrow> flowspec_component" where
  "numeric_component t ops = (if t = 3 then IpProtocol ops else if t = 4 then Port ops
     else if t = 5 then DstPort ops else if t = 6 then SrcPort ops else if t = 7 then IcmpType ops
     else if t = 8 then IcmpCode ops else if t = 10 then PktLen ops else Dscp ops)"

definition parse_flowspec_component ::
  "u8 \<Rightarrow> bytes \<Rightarrow> bool \<Rightarrow> (flowspec_component \<times> string \<times> nat) result" where
  "parse_flowspec_component t buf ipv6 =
     (if t = 1 \<or> t = 2 then flowspec_prefix t buf ipv6
      else if 3 \<le> t \<and> t \<le> 8 \<or> t = 10 \<or> t = 11 then
        let (ops, consumed) = parse_numeric_ops buf in
        Ok (numeric_component t ops,
            numeric_label t @ ''='' @ join_with '','' (map (\<lambda>op. dec (unat (nvalue op))) ops), consumed)
      else if t = 9 \<or> t = 12 then
        let (ops, consumed) = parse_bitmask_ops buf;
            first = (case ops of [] \<Rightarrow> 0 | op # _ \<Rightarrow> bvalue op) in
        Ok (if t = 9 then TcpFlags ops else Fragment ops,
            (if t = 9 then ''tcpflags'' else ''fragment'') @ ''=0x'' @ hex (unat first), consumed)
      else Ok (UnknownComponent t buf, ''unknown-type-'' @ dec (unat t), length buf))"

section \<open>Rules\<close>

definition component_entry :: "bool \<Rightarrow> bytes \<Rightarrow> ((flowspec_component \<times> string) list \<times> bytes) result" where
  "component_entry ipv6 buf =
     and_then (at buf 0) (\<lambda>comp_type.
     and_then (slice_from buf 1) (\<lambda>buf.
     and_then (parse_flowspec_component comp_type buf ipv6) (\<lambda>(comp, summary, consumed).
     and_then (slice_from buf consumed) (\<lambda>buf. Ok ([(comp, summary)], buf)))))"

lemma component_entry_rest: "component_entry ipv6 buf = Ok (cs, r) \<Longrightarrow> length r < length buf"
  by (auto simp: component_entry_def and_then_Ok_iff at_def slice_from_def split: if_splits)

function flowspec_components :: "bool \<Rightarrow> bytes \<Rightarrow> (flowspec_component \<times> string) list result" where
  "flowspec_components ipv6 [] = Ok []"
| "flowspec_components ipv6 (b # bs) =
     and_then (component_entry ipv6 (b # bs)) (\<lambda>(cs, buf).
     and_then (flowspec_components ipv6 buf) (\<lambda>ds. Ok (cs @ ds)))"
  by pat_completeness auto
termination
  by (relation "measure (\<lambda>(v, buf). length buf)") (use component_entry_rest in fastforce)+

definition parse_flowspec_nlri :: "bytes \<Rightarrow> bool \<Rightarrow> flowspec_nlri result" where
  "parse_flowspec_nlri buf ipv6 =
     and_then (flowspec_components ipv6 buf) (\<lambda>cs.
     Ok \<lparr>components = map fst cs, summary = join_with '' '' (map snd cs)\<rparr>)"

text \<open>The length prefix of a rule: one byte below \<open>0xF0\<close>, else twelve bits of two bytes.\<close>

definition flowspec_header :: "bytes \<Rightarrow> (nat \<times> nat) option" where
  "flowspec_header buf =
     (case buf of
        [] \<Rightarrow> None
      | b0 # rest \<Rightarrow>
          if b0 < 0xF0 then Some (unat b0, 1)
          else (case rest of b1 # _ \<Rightarrow> Some (push_bit 8 (unat b0 AND 0x0F) OR unat b1, 2) | [] \<Rightarrow> None))"

text \<open>The loop goes on while a complete rule is there; both \<open>break\<close>s end it with what was decoded.\<close>

definition flowspec_more :: "bytes \<Rightarrow> bool" where
  "flowspec_more buf \<longleftrightarrow> (case flowspec_header buf of
     None \<Rightarrow> False | Some (len, header_size) \<Rightarrow> header_size + len \<le> length buf)"

definition flowspec_entry :: "bool \<Rightarrow> bytes \<Rightarrow> (flowspec_nlri list \<times> bytes) result" where
  "flowspec_entry ipv6 buf =
     (case flowspec_header buf of
        None \<Rightarrow> Ok ([], [])
      | Some (len, header_size) \<Rightarrow>
          and_then (slice buf header_size (header_size + len)) (\<lambda>nlri_bytes.
          and_then (slice_from buf (header_size + len)) (\<lambda>rest.
          and_then (parse_flowspec_nlri nlri_bytes ipv6) (\<lambda>nlri. Ok ([nlri], rest)))))"

lemma flowspec_entry_rest: "buf \<noteq> [] \<Longrightarrow> flowspec_entry ipv6 buf = Ok (ns, r) \<Longrightarrow> length r < length buf"
  by (auto simp: flowspec_entry_def flowspec_header_def and_then_Ok_iff slice_from_def
      split: if_splits option.splits list.splits)

lemma flowspec_more_Nil [simp]: "\<not> flowspec_more []"
  by (simp add: flowspec_more_def flowspec_header_def)

function decode_flowspec_nlri :: "bool \<Rightarrow> bytes \<Rightarrow> flowspec_nlri list result" where
  "decode_flowspec_nlri ipv6 [] = Ok []"
| "decode_flowspec_nlri ipv6 (b # bs) =
     (if flowspec_more (b # bs) then
        and_then (flowspec_entry ipv6 (b # bs)) (\<lambda>(ns, buf).
        and_then (decode_flowspec_nlri ipv6 buf) (\<lambda>ms. Ok (ns @ ms)))
      else Ok [])"
  by pat_completeness auto
termination
  by (relation "measure (\<lambda>(v, buf). length buf)") (use flowspec_entry_rest in fastforce)+

interpretation component_loop: byte_loop "\<lambda>buf. buf \<noteq> []" "component_entry ipv6" "flowspec_components ipv6" for ipv6
  by (rule byte_loopI) (auto dest: component_entry_rest)

interpretation flowspec_loop: byte_loop flowspec_more "flowspec_entry ipv6" "decode_flowspec_nlri ipv6" for ipv6
  by (rule byte_loopI) (auto dest!: flowspec_entry_rest [rotated])

section \<open>How much a component takes\<close>

lemma numeric_ops_bound: "snd (parse_numeric_ops buf) \<le> length buf"
proof (induction buf rule: measure_induct_rule [where f = length])
  case (less buf)
  show ?case
  proof (cases buf)
    case (Cons b rest)
    have "snd (parse_numeric_ops (drop (value_len b) rest)) \<le> length rest - value_len b"
      using less [of "drop (value_len b) rest"] Cons by simp
    then show ?thesis
      using Cons by (auto simp: Let_def split_def)
  qed simp
qed

lemma bitmask_ops_bound: "snd (parse_bitmask_ops buf) \<le> length buf"
proof (induction buf rule: measure_induct_rule [where f = length])
  case (less buf)
  show ?case
  proof (cases buf)
    case (Cons b rest)
    have "snd (parse_bitmask_ops (drop (value_len b) rest)) \<le> length rest - value_len b"
      using less [of "drop (value_len b) rest"] Cons by simp
    then show ?thesis
      using Cons by (auto simp: Let_def split_def)
  qed simp
qed

lemma flowspec_prefix_bound: "flowspec_prefix t buf ipv6 = Ok (c, s, n) \<Longrightarrow> n \<le> length buf"
  by (auto simp: flowspec_prefix_def Let_def and_then_Ok_iff split: if_splits)

lemma component_bound:
  "parse_flowspec_component t buf ipv6 = Ok (c, s, n) \<Longrightarrow> n \<le> length buf"
  using numeric_ops_bound [of buf] bitmask_ops_bound [of buf] flowspec_prefix_bound [of t buf ipv6 c s n]
  by (auto simp: parse_flowspec_component_def Let_def split: if_splits prod.splits)

text \<open>The only panic: the octets of an over-long IPv6 prefix.\<close>

lemma flowspec_prefix_Panic_iff:
  "flowspec_prefix t buf ipv6 = Panic \<longleftrightarrow>
    ipv6 \<and> buf \<noteq> [] \<and> 128 < unat (buf ! 0) \<and> 1 + (unat (buf ! 0) + 7) div 8 \<le> length buf"
  by (cases buf) (auto simp: flowspec_prefix_def Let_def and_then_Panic_iff at_def slice_def)

lemma component_Panic_iff:
  "parse_flowspec_component t buf ipv6 = Panic \<longleftrightarrow> (t = 1 \<or> t = 2) \<and> flowspec_prefix t buf ipv6 = Panic"
  by (auto simp: parse_flowspec_component_def Let_def split: prod.splits)

lemma component_entry_no_panic:
  "buf \<noteq> [] \<Longrightarrow> component_entry False buf \<noteq> Panic"
  using component_bound
  by (cases buf)
    (fastforce simp: component_entry_def and_then_Panic_iff at_def slice_from_def component_Panic_iff
      flowspec_prefix_Panic_iff split: if_splits)+

lemma flowspec_components_no_panic: "flowspec_components False buf \<noteq> Panic"
  by (rule component_loop.loop_no_panic) (rule component_entry_no_panic)

section \<open>Properties\<close>

text \<open>Decoding IPv4 flow specifications never panics. A single IPv6 component panics exactly when it is a
  destination or source prefix whose announced length exceeds 128 bits with all its octets present.\<close>

theorem flowspec_panics:
  "decode_flowspec_nlri False buf \<noteq> Panic
   \<and> (parse_flowspec_component t body True = Panic \<longleftrightarrow>
       (t = 1 \<or> t = 2) \<and> body \<noteq> [] \<and> 128 < unat (body ! 0) \<and> 1 + (unat (body ! 0) + 7) div 8 \<le> length body)"
proof -
  have "decode_flowspec_nlri False buf \<noteq> Panic"
  proof (rule flowspec_loop.loop_no_panic)
    fix s assume "flowspec_more s"
    then show "flowspec_entry False s \<noteq> Panic"
      by (auto simp: flowspec_entry_def flowspec_more_def reads and_then_Panic_iff parse_flowspec_nlri_def
          flowspec_components_no_panic split: option.splits)
  qed
  then show ?thesis
    by (auto simp: component_Panic_iff flowspec_prefix_Panic_iff)
qed

end
