(* ===== verification/Srv6.thy ===== *)
theory Srv6
  imports Bgp_Types
begin

text \<open>
  \<open>crates/rbmp-core/src/bgp/srv6.rs\<close>: the BGP Prefix-SID attribute (RFC 8669) with the SRv6 L3 service
  TLV (RFC 9252). Both loops stop at the first TLV that does not fit and never report an error.
\<close>

record srv6_sub_sub_tlv =
  sid :: bytes
  sid_flags :: u8
  sst_endpoint_behavior :: u16

record prefix_sid =
  label_index :: "u32 option"
  originator_srgb :: "(u16 \<times> (u32 \<times> u32) list) option"
  srv6_l3_service :: "srv6_sub_sub_tlv list option"
  raw_tlvs :: "(u8 \<times> bytes) list"

text \<open>The TLV walk of both functions: type (1), length (2), value, on the bytes from \<open>pos\<close> on.\<close>

fun sid_tlvs :: "bytes \<Rightarrow> (u8 \<times> bytes) list" where
  "sid_tlvs (t # l0 # l1 # rest) =
     (let n = unat (from_be_bytes [l0, l1] :: u16) in
      if n > length rest then [] else (t, take n rest) # sid_tlvs (drop n rest))"
| "sid_tlvs _ = []"

definition srv6_sid_tlv :: "u8 \<times> bytes \<Rightarrow> (error, srv6_sub_sub_tlv list) outcome" where
  "srv6_sid_tlv tlv = (let (sub_type, sub_data) = tlv in
     if sub_type = 1 \<and> length sub_data \<ge> 19 then
       and_then (slice sub_data 0 16) (\<lambda>s.
       and_then (at sub_data 16) (\<lambda>f.
       and_then (be16_at sub_data 17) (\<lambda>b.
       Ok [\<lparr>sid = s, sid_flags = f, sst_endpoint_behavior = b\<rparr>])))
     else Ok [])"

fun collect_tlvs :: "('t \<Rightarrow> (error, 'a list) outcome) \<Rightarrow> 't list \<Rightarrow> 'a list result" where
  "collect_tlvs f [] = Ok []"
| "collect_tlvs f (t # ts) = and_then (f t) (\<lambda>xs. and_then (collect_tlvs f ts) (\<lambda>ys. Ok (xs @ ys)))"

definition parse_srv6_l3_service :: "bytes \<Rightarrow> srv6_sub_sub_tlv list result" where
  "parse_srv6_l3_service buf = collect_tlvs srv6_sid_tlv (sid_tlvs (drop 1 buf))"

fun srgb_entries :: "bytes \<Rightarrow> (u32 \<times> u32) list" where
  "srgb_entries (a0 # a1 # a2 # r0 # r1 # r2 # rest) =
     (from_be_bytes [a0, a1, a2], from_be_bytes [r0, r1, r2]) # srgb_entries rest"
| "srgb_entries _ = []"

text \<open>One TLV of the attribute; a later TLV of the same type replaces an earlier one.\<close>

definition apply_sid_tlv :: "u8 \<times> bytes \<Rightarrow> prefix_sid \<Rightarrow> prefix_sid result" where
  "apply_sid_tlv tlv acc = (let (tlv_type, tlv_data) = tlv in
     if tlv_type = 1 then
       if length tlv_data \<ge> 6 then
         and_then (be32_at tlv_data 2) (\<lambda>i. Ok (acc\<lparr>label_index := Some i\<rparr>))
       else Ok acc
     else if tlv_type = 3 then
       if length tlv_data \<ge> 2 then
         and_then (be16_at tlv_data 0) (\<lambda>flags. and_then (slice_from tlv_data 2) (\<lambda>srgbs.
         Ok (acc\<lparr>originator_srgb := Some (flags, srgb_entries srgbs)\<rparr>)))
       else Ok acc
     else if tlv_type = 5 then
       and_then (parse_srv6_l3_service tlv_data) (\<lambda>s. Ok (acc\<lparr>srv6_l3_service := Some s\<rparr>))
     else Ok (acc\<lparr>raw_tlvs := raw_tlvs acc @ [(tlv_type, tlv_data)]\<rparr>))"

fun apply_sid_tlvs :: "(u8 \<times> bytes) list \<Rightarrow> prefix_sid \<Rightarrow> prefix_sid result" where
  "apply_sid_tlvs [] acc = Ok acc"
| "apply_sid_tlvs (t # ts) acc = and_then (apply_sid_tlv t acc) (apply_sid_tlvs ts)"

definition parse_prefix_sid :: "bytes \<Rightarrow> prefix_sid result" where
  "parse_prefix_sid buf = apply_sid_tlvs (sid_tlvs buf)
     \<lparr>label_index = None, originator_srgb = None, srv6_l3_service = None, raw_tlvs = []\<rparr>"

section \<open>The parser is total\<close>

lemma srv6_sid_tlv_Ok: "\<exists>xs. srv6_sid_tlv t = Ok xs"
  by (auto simp: srv6_sid_tlv_def Let_def reads split: prod.splits)

lemma collect_tlvs_Ok: "(\<And>t. \<exists>xs. f t = Ok xs) \<Longrightarrow> \<exists>ys. collect_tlvs f ts = Ok ys"
proof (induction ts)
  case (Cons t ts)
  then obtain xs ys where "f t = Ok xs" "collect_tlvs f ts = Ok ys" by blast
  then show ?case by simp
qed simp

lemma parse_srv6_l3_service_Ok: "\<exists>s. parse_srv6_l3_service buf = Ok s"
  unfolding parse_srv6_l3_service_def by (rule collect_tlvs_Ok) (rule srv6_sid_tlv_Ok)

lemma apply_sid_tlv_Ok: "\<exists>acc'. apply_sid_tlv t acc = Ok acc'"
  using parse_srv6_l3_service_Ok [of "snd t"]
  by (cases t) (auto simp: apply_sid_tlv_def reads)

lemma apply_sid_tlvs_Ok: "\<exists>acc'. apply_sid_tlvs ts acc = Ok acc'"
proof (induction ts arbitrary: acc)
  case (Cons t ts)
  obtain acc' where "apply_sid_tlv t acc = Ok acc'" using apply_sid_tlv_Ok by blast
  with Cons show ?case by simp
qed simp

lemma parse_prefix_sid_Ok: "\<exists>s. parse_prefix_sid buf = Ok s"
  unfolding parse_prefix_sid_def by (rule apply_sid_tlvs_Ok)

lemma apply_sid_tlvs_raw:
  "apply_sid_tlvs ts acc = Ok acc' \<Longrightarrow>
    raw_tlvs acc' = raw_tlvs acc @ filter (\<lambda>t. fst t \<notin> {1, 3, 5}) ts"
proof (induction ts arbitrary: acc)
  case (Cons t ts)
  then obtain acc1 where step: "apply_sid_tlv t acc = Ok acc1" and rest: "apply_sid_tlvs ts acc1 = Ok acc'"
    by (auto simp: and_then_Ok_iff)
  from step have "raw_tlvs acc1 = raw_tlvs acc @ filter (\<lambda>t. fst t \<notin> {1, 3, 5}) [t]"
    by (cases t) (auto simp: apply_sid_tlv_def and_then_Ok_iff split: if_splits)
  with Cons.IH [OF rest] show ?case by simp
qed simp

definition sid_tlv_wire :: "u8 \<times> bytes \<Rightarrow> bytes" where
  "sid_tlv_wire t = fst t # to_be_bytes 2 (word_of_nat (length (snd t)) :: u16) @ snd t"

lemma sid_tlvs_wire:
  "\<forall>t \<in> set ts. length (snd t) < 65536 \<Longrightarrow> sid_tlvs (concat (map sid_tlv_wire ts)) = ts"
proof (induction ts)
  case (Cons t ts)
  then have u: "unat (word_of_nat (length (snd t)) :: u16) = length (snd t)"
    by (intro unat_word_of_nat) simp
  obtain l0 l1 where l: "to_be_bytes 2 (word_of_nat (length (snd t)) :: u16) = [l0, l1]"
    "from_be_bytes [l0, l1] = (word_of_nat (length (snd t)) :: u16)"
    by (rule to_be_bytes_2E)
  with Cons u l show ?case by (simp add: sid_tlv_wire_def)
qed simp

section \<open>Properties\<close>

text \<open>The Prefix-SID parser is total and keeps what it does not understand: on the encoding of any list
  of TLVs it returns an attribute whose raw TLVs are exactly the ones of unknown type, in order.\<close>

theorem prefix_sid_keeps_unknown:
  assumes "\<forall>t \<in> set ts. length (snd t) < 65536"
  shows "\<exists>s. parse_prefix_sid (concat (map sid_tlv_wire ts)) = Ok s
    \<and> raw_tlvs s = filter (\<lambda>t. fst t \<notin> {1, 3, 5}) ts"
proof -
  obtain s where s: "parse_prefix_sid (concat (map sid_tlv_wire ts)) = Ok s"
    using parse_prefix_sid_Ok by blast
  then have "raw_tlvs s = filter (\<lambda>t. fst t \<notin> {1, 3, 5}) ts"
    using sid_tlvs_wire [OF assms] by (auto simp: parse_prefix_sid_def dest: apply_sid_tlvs_raw)
  with s show ?thesis by blast
qed

theorem prefix_sid_keeps_unknown_witness:
  "\<exists>s. parse_prefix_sid (concat (map sid_tlv_wire [(99, [0xDE, 0xAD]), (1, [0, 0, 0, 0, 0, 42])])) = Ok s
    \<and> raw_tlvs s = filter (\<lambda>t. fst t \<notin> {1, 3, 5}) [(99, [0xDE, 0xAD]), (1, [0, 0, 0, 0, 0, 42])]"
  by (rule prefix_sid_keeps_unknown) simp

end
