(* ===== verification/Nlri.thy ===== *)
theory Nlri
  imports Bgp_Types Parse_Loop
begin

unbundle bit_operations_syntax

text \<open>
  \<open>crates/rbmp-core/src/bgp/nlri.rs\<close>: the decoders of network layer reachability information.
  Each loop of the source is a step (\<open>*_entry\<close>, the loop body) and the loop itself; both are tied
  together by an interpretation of \<open>byte_loop\<close>. The encoders (\<open>*_wire\<close>) are the wire formats of
  RFC 4271, 7911, 8277 and 4364 and serve as reference for the round trips.
\<close>

section \<open>Decoders\<close>

definition div_ceil8 :: "nat \<Rightarrow> nat" where
  "div_ceil8 n = (n + 7) div 8"

text \<open>The block \<open>match afi { Afi::Ipv6 => ..., _ => ... }\<close> shared by the decoders: read the address
  octets, build the network, clear the host bits.\<close>

definition read_net :: "externals \<Rightarrow> afi \<Rightarrow> u8 \<Rightarrow> nat \<Rightarrow> bytes \<Rightarrow> (prefix \<times> bytes) result" where
  "read_net X a prefix_len octets buf =
     (if a = AfiIpv6 then
        and_then (copy_to_bytes octets buf) (\<lambda>(chunk, rest).
        and_then (fill_array 16 chunk) (\<lambda>addr.
        case ipv6net_new X (from_be_bytes addr) prefix_len of
          None \<Rightarrow> Err (InvalidPrefixLen prefix_len (afi_as_u16 a))
        | Some net \<Rightarrow> Ok (PrefixV6 (ipv6net_trunc X net), rest)))
      else
        and_then (copy_to_bytes octets buf) (\<lambda>(chunk, rest).
        and_then (fill_array 4 chunk) (\<lambda>addr.
        case ipv4net_new X (from_be_bytes addr) prefix_len of
          None \<Rightarrow> Err (InvalidPrefixLen prefix_len (afi_as_u16 a))
        | Some net \<Rightarrow> Ok (PrefixV4 (ipv4net_trunc X net), rest))))"

definition max_bits :: "afi \<Rightarrow> u8" where
  "max_bits a = (if a = AfiIpv6 then 128 else 32)"

definition read_path_id :: "bool \<Rightarrow> bytes \<Rightarrow> (u32 option \<times> bytes) result" where
  "read_path_id add_path buf =
     (if add_path then
        if length buf < 4 then Err (UnexpectedEof 4 (length buf))
        else and_then (get_u32 buf) (\<lambda>(v, rest). Ok (Some v, rest))
      else Ok (None, buf))"

definition nlri_with_path_id_entry ::
  "externals \<Rightarrow> afi \<Rightarrow> bool \<Rightarrow> bytes \<Rightarrow> ((prefix \<times> u32 option) list \<times> bytes) result" where
  "nlri_with_path_id_entry X a add_path buf =
     and_then (read_path_id add_path buf) (\<lambda>(path_id, buf).
     if length buf < 1 then Err (UnexpectedEof 1 0) else
     and_then (get_u8 buf) (\<lambda>(prefix_len, buf).
     let octets = div_ceil8 (unat prefix_len) in
     if length buf < octets then Err (UnexpectedEof octets (length buf))
     else if prefix_len > max_bits a then Err (InvalidPrefixLen prefix_len (afi_as_u16 a))
     else and_then (read_net X a prefix_len octets buf) (\<lambda>(prefix, buf).
       Ok ([(prefix, path_id)], buf))))"

definition nlri_entry :: "externals \<Rightarrow> afi \<Rightarrow> bytes \<Rightarrow> (prefix list \<times> bytes) result" where
  "nlri_entry X a buf =
     and_then (get_u8 buf) (\<lambda>(prefix_len, buf).
     let octets = div_ceil8 (unat prefix_len) in
     if length buf < octets then Err (UnexpectedEof octets (length buf))
     else if prefix_len > max_bits a then Err (InvalidPrefixLen prefix_len (afi_as_u16 a))
     else and_then (read_net X a prefix_len octets buf) (\<lambda>(prefix, buf). Ok ([prefix], buf)))"

text \<open>The inner loop of \<open>decode_labeled_nlri\<close>: labels up to the bottom of the stack.\<close>

fun read_labels :: "bytes \<Rightarrow> (u32 list \<times> bytes) result" where
  "read_labels (b0 # b1 # b2 # buf) =
     (let raw = from_be_bytes [b0, b1, b2] :: u32; label = drop_bit 4 raw in
      if raw AND 1 \<noteq> 0 then Ok ([label], buf)
      else and_then (read_labels buf) (\<lambda>(labels, rest). Ok (label # labels, rest)))"
| "read_labels buf = Err (UnexpectedEof 3 (length buf))"

definition labeled_entry :: "externals \<Rightarrow> afi \<Rightarrow> bytes \<Rightarrow> (prefix list \<times> bytes) result" where
  "labeled_entry X a buf =
     and_then (get_u8 buf) (\<lambda>(len, buf).
     let total_len = unat len in
     and_then (read_labels buf) (\<lambda>(labels, buf).
     let label_bits = length labels * 24 in
     if total_len < label_bits
     then Err (BgpParse (''labeled NLRI bit length '' @ dec total_len
       @ '' smaller than label stack bits '' @ dec label_bits))
     else
       let prefix_len = word_of_nat (total_len - label_bits); octets = div_ceil8 (unat prefix_len) in
       if length buf < octets then Err (UnexpectedEof octets (length buf))
       else and_then (read_net X a prefix_len octets buf) (\<lambda>(inner, buf).
         Ok ([Labeled inner labels], buf))))"

definition vpn_entry :: "externals \<Rightarrow> afi \<Rightarrow> bytes \<Rightarrow> (prefix list \<times> bytes) result" where
  "vpn_entry X a buf =
     and_then (get_u8 buf) (\<lambda>(len, buf).
     let total_len = unat len in
     if length buf < 3 then Err (UnexpectedEof 3 (length buf)) else
     and_then (copy_to_bytes 3 buf) (\<lambda>(b, buf).
     let label = drop_bit 4 (from_be_bytes b :: u32) in
     if length buf < 8 then Err (UnexpectedEof 8 (length buf)) else
     and_then (copy_to_bytes 8 buf) (\<lambda>(rd, buf).
     if total_len < 24 + 64
     then Err (BgpParse (''VPN NLRI bit length '' @ dec total_len
       @ '' smaller than 88-bit label+RD header''))
     else
       let prefix_len = word_of_nat (total_len - (24 + 64)); octets = div_ceil8 (unat prefix_len) in
       if length buf < octets then Err (UnexpectedEof octets (length buf))
       else and_then (read_net X a prefix_len octets buf) (\<lambda>(inner, buf).
         Ok ([Vpn (RouteDistinguisher rd) inner [label]], buf)))))"

record vpls_nlri =
  vpls_rd :: bytes
  ve_id :: u16
  ve_block_offset :: u16
  ve_block_size :: u16
  label_base :: u32

text \<open>One round of the loop of \<open>decode_vpls_nlri\<close>: the loop condition together with the \<open>break\<close> on a
  truncated entry, and the body, which skips a short entry (\<open>continue\<close>).\<close>

definition vpls_more :: "bytes \<Rightarrow> bool" where
  "vpls_more buf \<longleftrightarrow> 2 \<le> length buf \<and> be_nat (take 2 buf) \<le> length buf - 2"

definition vpls_entry :: "bytes \<Rightarrow> (vpls_nlri list \<times> bytes) result" where
  "vpls_entry buf =
     and_then (get_u16 buf) (\<lambda>(nlri_len, buf).
     and_then (copy_to_bytes (unat nlri_len) buf) (\<lambda>(nlri, buf).
     if length nlri < 17 then Ok ([], buf) else
     and_then (slice nlri 0 8) (\<lambda>rd.
     and_then (be16_at nlri 8) (\<lambda>ve.
     and_then (be16_at nlri 10) (\<lambda>off.
     and_then (be16_at nlri 12) (\<lambda>sz.
     and_then (be24_at nlri 14) (\<lambda>label_raw.
     Ok ([\<lparr>vpls_rd = rd, ve_id = ve, ve_block_offset = off, ve_block_size = sz,
            label_base = drop_bit 4 label_raw\<rparr>], buf))))))))"

section \<open>Next hops\<close>

definition hop_size :: "afi \<Rightarrow> nat" where
  "hop_size a = (if a = AfiIpv6 then 16 else 4)"

definition hop_addr :: "afi \<Rightarrow> bytes \<Rightarrow> ip_addr" where
  "hop_addr a b = (if a = AfiIpv6 then IpV6 (from_be_bytes b) else IpV4 (from_be_bytes b))"

text \<open>The loop \<open>while pos + hop_size <= nh_bytes.len()\<close>, on the bytes from \<open>pos\<close> on.\<close>

function read_hops :: "afi \<Rightarrow> bytes \<Rightarrow> ip_addr list result" where
  "read_hops a [] = Ok []"
| "read_hops a (c # cs) =
     (if hop_size a \<le> length (c # cs) then
        and_then (slice (c # cs) 0 (hop_size a)) (\<lambda>b.
        and_then (read_hops a (drop (hop_size a) (c # cs))) (\<lambda>hops. Ok (hop_addr a b # hops)))
      else Ok [])"
  by pat_completeness auto
termination
  by (relation "measure (\<lambda>(a, b). length b)") (auto simp: hop_size_def split: if_splits)

definition decode_next_hops :: "afi \<Rightarrow> bytes \<Rightarrow> (ip_addr list \<times> bytes) result" where
  "decode_next_hops a buf =
     (if length buf < 1 then Err (UnexpectedEof 1 0) else
      and_then (get_u8 buf) (\<lambda>(len, buf).
      let nh_len = unat len in
      if length buf < nh_len then Err (UnexpectedEof nh_len (length buf)) else
      and_then (copy_to_bytes nh_len buf) (\<lambda>(nh_bytes, rest).
      if nh_len = 0 \<or> \<not> hop_size a dvd nh_len
      then Err (BgpParse (''invalid MP_REACH next-hop length '' @ dec nh_len @ '' for AFI ''
        @ dec (unat (afi_as_u16 a))))
      else and_then (read_hops a nh_bytes) (\<lambda>hops. Ok (hops, rest)))))"

section \<open>Progress of the loop bodies\<close>

lemma read_net_rest: "read_net X a l n buf = Ok (p, r) \<Longrightarrow> length r \<le> length buf"
  by (auto simp: read_net_def and_then_Ok_iff copy_to_bytes_def split: if_splits option.splits)

lemma read_path_id_rest: "read_path_id ap buf = Ok (i, r) \<Longrightarrow> length r \<le> length buf"
  by (auto simp: read_path_id_def and_then_Ok_iff dest: get_u32_rest split: if_splits)

lemma read_labels_rest: "read_labels buf = Ok (ls, r) \<Longrightarrow> length r + 3 * length ls \<le> length buf"
  by (induction buf arbitrary: ls r rule: read_labels.induct)
    (fastforce simp: Let_def and_then_Ok_iff split: if_splits)+

lemma nlri_with_path_id_entry_rest:
  "nlri_with_path_id_entry X a ap buf = Ok (ps, r) \<Longrightarrow> length r < length buf"
  by (auto simp: nlri_with_path_id_entry_def Let_def and_then_Ok_iff split: if_splits
      dest!: read_path_id_rest get_u8_rest read_net_rest)

lemma nlri_entry_rest: "nlri_entry X a buf = Ok (ps, r) \<Longrightarrow> length r < length buf"
  by (auto simp: nlri_entry_def Let_def and_then_Ok_iff split: if_splits
      dest!: get_u8_rest read_net_rest)

lemma labeled_entry_rest: "labeled_entry X a buf = Ok (ps, r) \<Longrightarrow> length r < length buf"
  by (auto simp: labeled_entry_def Let_def and_then_Ok_iff split: if_splits
      dest!: get_u8_rest read_labels_rest read_net_rest)

lemma vpn_entry_rest: "vpn_entry X a buf = Ok (ps, r) \<Longrightarrow> length r < length buf"
  by (auto simp: vpn_entry_def Let_def and_then_Ok_iff split: if_splits
      dest!: get_u8_rest copy_to_bytes_rest read_net_rest)

lemma vpls_entry_rest: "vpls_entry buf = Ok (ps, r) \<Longrightarrow> length r < length buf"
  by (auto simp: vpls_entry_def Let_def and_then_Ok_iff split: if_splits
      dest!: get_u16_rest copy_to_bytes_rest)

section \<open>The loops\<close>

text \<open>\<open>while buf.remaining() > 0\<close>: by cases on the bytes left.\<close>

function decode_nlri_with_path_id :: "externals \<Rightarrow> bytes \<Rightarrow> afi \<Rightarrow> bool \<Rightarrow> (prefix \<times> u32 option) list result" where
  "decode_nlri_with_path_id X [] a add_path = Ok []"
| "decode_nlri_with_path_id X (b # bs) a add_path =
     and_then (nlri_with_path_id_entry X a add_path (b # bs)) (\<lambda>(ps, buf).
     and_then (decode_nlri_with_path_id X buf a add_path) (\<lambda>qs. Ok (ps @ qs)))"
  by pat_completeness auto
termination
  by (relation "measure (\<lambda>(X, buf, a, ap). length buf)") (use nlri_with_path_id_entry_rest in fastforce)+

function decode_nlri :: "externals \<Rightarrow> bytes \<Rightarrow> afi \<Rightarrow> prefix list result" where
  "decode_nlri X [] a = Ok []"
| "decode_nlri X (b # bs) a =
     and_then (nlri_entry X a (b # bs)) (\<lambda>(ps, buf).
     and_then (decode_nlri X buf a) (\<lambda>qs. Ok (ps @ qs)))"
  by pat_completeness auto
termination
  by (relation "measure (\<lambda>(X, buf, a). length buf)") (use nlri_entry_rest in fastforce)+

function decode_labeled_nlri :: "externals \<Rightarrow> bytes \<Rightarrow> afi \<Rightarrow> prefix list result" where
  "decode_labeled_nlri X [] a = Ok []"
| "decode_labeled_nlri X (b # bs) a =
     and_then (labeled_entry X a (b # bs)) (\<lambda>(ps, buf).
     and_then (decode_labeled_nlri X buf a) (\<lambda>qs. Ok (ps @ qs)))"
  by pat_completeness auto
termination
  by (relation "measure (\<lambda>(X, buf, a). length buf)") (use labeled_entry_rest in fastforce)+

function decode_vpn_nlri :: "externals \<Rightarrow> bytes \<Rightarrow> afi \<Rightarrow> prefix list result" where
  "decode_vpn_nlri X [] a = Ok []"
| "decode_vpn_nlri X (b # bs) a =
     and_then (vpn_entry X a (b # bs)) (\<lambda>(ps, buf).
     and_then (decode_vpn_nlri X buf a) (\<lambda>qs. Ok (ps @ qs)))"
  by pat_completeness auto
termination
  by (relation "measure (\<lambda>(X, buf, a). length buf)") (use vpn_entry_rest in fastforce)+

function decode_vpls_nlri :: "bytes \<Rightarrow> vpls_nlri list result" where
  "decode_vpls_nlri [] = Ok []"
| "decode_vpls_nlri (b # bs) =
     (if vpls_more (b # bs) then
        and_then (vpls_entry (b # bs)) (\<lambda>(ps, buf).
        and_then (decode_vpls_nlri buf) (\<lambda>qs. Ok (ps @ qs)))
      else Ok [])"
  by pat_completeness auto
termination
  by (relation "measure length") (use vpls_entry_rest in fastforce)+

interpretation path_id_loop: byte_loop "\<lambda>buf. buf \<noteq> []" "nlri_with_path_id_entry X a ap"
    "\<lambda>buf. decode_nlri_with_path_id X buf a ap" for X a ap
  by (rule byte_loopI) (auto dest: nlri_with_path_id_entry_rest)

interpretation nlri_loop: byte_loop "\<lambda>buf. buf \<noteq> []" "nlri_entry X a" "\<lambda>buf. decode_nlri X buf a" for X a
  by (rule byte_loopI) (auto dest: nlri_entry_rest)

interpretation labeled_loop: byte_loop "\<lambda>buf. buf \<noteq> []" "labeled_entry X a"
    "\<lambda>buf. decode_labeled_nlri X buf a" for X a
  by (rule byte_loopI) (auto dest: labeled_entry_rest)

interpretation vpn_loop: byte_loop "\<lambda>buf. buf \<noteq> []" "vpn_entry X a" "\<lambda>buf. decode_vpn_nlri X buf a" for X a
  by (rule byte_loopI) (auto dest: vpn_entry_rest)

interpretation vpls_loop: byte_loop vpls_more vpls_entry decode_vpls_nlri
  by (rule byte_loopI) (auto dest: vpls_entry_rest simp: vpls_more_def)

section \<open>Wire formats\<close>

text \<open>A network in the form the decoders produce: the length fits the family and no host bit is set.\<close>

fun canonical_net :: "afi \<Rightarrow> prefix \<Rightarrow> bool" where
  "canonical_net a (PrefixV4 n) \<longleftrightarrow> a \<noteq> AfiIpv6 \<and> unat (v4_prefix_len n) \<le> 32
     \<and> clear_host_bits (32 - unat (v4_prefix_len n)) (v4_addr n) = v4_addr n"
| "canonical_net a (PrefixV6 n) \<longleftrightarrow> a = AfiIpv6 \<and> unat (v6_prefix_len n) \<le> 128
     \<and> clear_host_bits (128 - unat (v6_prefix_len n)) (v6_addr n) = v6_addr n"
| "canonical_net a _ \<longleftrightarrow> False"

fun net_len :: "prefix \<Rightarrow> u8" where
  "net_len (PrefixV4 n) = v4_prefix_len n"
| "net_len (PrefixV6 n) = v6_prefix_len n"
| "net_len (Labeled p ls) = net_len p"
| "net_len (Vpn rd p ls) = net_len p"

fun net_octets :: "prefix \<Rightarrow> bytes" where
  "net_octets (PrefixV4 n) = take (div_ceil8 (unat (v4_prefix_len n))) (to_be_bytes 4 (v4_addr n))"
| "net_octets (PrefixV6 n) = take (div_ceil8 (unat (v6_prefix_len n))) (to_be_bytes 16 (v6_addr n))"
| "net_octets (Labeled p ls) = net_octets p"
| "net_octets (Vpn rd p ls) = net_octets p"

fun nlri_wire :: "prefix \<times> u32 option \<Rightarrow> bytes" where
  "nlri_wire (p, path_id) =
     (case path_id of Some v \<Rightarrow> to_be_bytes 4 v | None \<Rightarrow> []) @ net_len p # net_octets p"

fun labels_wire :: "u32 list \<Rightarrow> bytes" where
  "labels_wire [] = []"
| "labels_wire [l] = nat_to_be 3 (16 * unat l + 1)"
| "labels_wire (l # ls) = nat_to_be 3 (16 * unat l) @ labels_wire ls"

fun labeled_wire :: "prefix \<Rightarrow> bytes" where
  "labeled_wire (Labeled p ls) =
     word_of_nat (24 * length ls + unat (net_len p)) # labels_wire ls @ net_octets p"
| "labeled_wire _ = []"

fun canonical_labeled :: "afi \<Rightarrow> prefix \<Rightarrow> bool" where
  "canonical_labeled a (Labeled p ls) \<longleftrightarrow> canonical_net a p \<and> ls \<noteq> []
     \<and> (\<forall>l \<in> set ls. unat l < 2 ^ 20) \<and> 24 * length ls + unat (net_len p) < 256"
| "canonical_labeled a _ \<longleftrightarrow> False"

fun vpn_wire :: "prefix \<Rightarrow> bytes" where
  "vpn_wire (Vpn rd p ls) = word_of_nat (88 + unat (net_len p))
     # nat_to_be 3 (16 * unat (hd ls) + 1) @ rd_bytes rd @ net_octets p"
| "vpn_wire _ = []"

fun canonical_vpn :: "afi \<Rightarrow> prefix \<Rightarrow> bool" where
  "canonical_vpn a (Vpn rd p ls) \<longleftrightarrow> canonical_net a p \<and> length (rd_bytes rd) = 8
     \<and> (\<exists>l. ls = [l] \<and> unat l < 2 ^ 20)"
| "canonical_vpn a _ \<longleftrightarrow> False"

section \<open>Address octets\<close>

lemma be_nat_append: "be_nat (xs @ ys) = be_nat xs * 256 ^ length ys + be_nat ys"
  by (induction ys rule: rev_induct) (simp_all add: algebra_simps flip: append_assoc)

lemma be_nat_single [simp]: "be_nat [b] = unat b"
  by (simp add: be_nat_def)

lemma be_nat_Cons: "be_nat (b # bs) = unat b * 256 ^ length bs + be_nat bs"
  using be_nat_append [of "[b]" bs] by simp

lemma be_nat_zeros [simp]: "be_nat (replicate n 0) = 0"
  by (induction n) (simp_all add: be_nat_Cons)

lemma take_nat_to_be: "k \<le> N \<Longrightarrow> take k (nat_to_be N n) = nat_to_be k (n div 256 ^ (N - k))"
proof (induction N n arbitrary: k rule: nat_to_be.induct)
  case (2 N n)
  show ?case
  proof (cases "k = Suc N")
    case False
    with 2 have "k \<le> N" by simp
    with 2(1) [of k] show ?thesis
      by (simp add: Suc_diff_le div_mult2_eq)
  qed simp
qed simp

lemma host_bits_dvd:
  fixes a :: "'a::len word"
  assumes "clear_host_bits h a = a" "j \<le> h"
  shows "2 ^ j dvd unat a"
proof -
  have "take_bit j a = 0"
  proof (rule bit_word_eqI)
    fix i
    show "bit (take_bit j a) i \<longleftrightarrow> bit (0 :: 'a word) i"
      using clear_host_bits_bit [of h a i] assms by (auto simp: bit_take_bit_iff)
  qed
  then have "take_bit j (unat a) = 0"
    by (metis unsigned_0 unsigned_take_bit_eq)
  then show ?thesis
    by (simp add: take_bit_eq_0_iff)
qed

lemma div_ceil8_bounds: "l \<le> 8 * div_ceil8 l" "8 * div_ceil8 l < l + 8"
  by (simp_all add: div_ceil8_def)

lemma div_ceil8_less: "k < div_ceil8 n \<longleftrightarrow> 8 * k < n"
  using less_eq_div_iff_mult_less_eq [of 8 "Suc k" "n + 7"] by (auto simp: div_ceil8_def Suc_le_eq)

lemma pad_octets:
  fixes a :: "'a::len word"
  assumes len: "LENGTH('a) = 8 * N" and "l \<le> 8 * N" and clear: "clear_host_bits (8 * N - l) a = a"
  shows "from_be_bytes (take (div_ceil8 l) (to_be_bytes N a) @ replicate (N - div_ceil8 l) 0) = a"
proof -
  define k where "k = div_ceil8 l"
  have k: "l \<le> 8 * k" "k \<le> N"
    using div_ceil8_bounds [of l] \<open>l \<le> 8 * N\<close> by (auto simp: k_def)
  have bound: "unat a < 256 ^ N"
    using unsigned_less [of a, where 'a = nat] by (simp add: len power_mult)
  have "unat a div 256 ^ (N - k) < 256 ^ k"
    using bound k by (simp add: less_mult_imp_div_less flip: power_add)
  then have "be_nat (take k (to_be_bytes N a) @ replicate (N - k) 0)
      = unat a div 256 ^ (N - k) * 256 ^ (N - k)"
    using k by (simp add: to_be_bytes_def take_nat_to_be be_nat_append be_nat_nat_to_be)
  also have "\<dots> = unat a"
  proof -
    have "2 ^ (8 * (N - k)) dvd unat a"
      using clear k by (intro host_bits_dvd) auto
    then show ?thesis by (simp add: power_mult)
  qed
  finally show ?thesis
    by (simp add: from_be_bytes_def k_def)
qed

section \<open>Panic freedom\<close>

lemma read_net_no_panic [panics]:
  "octets \<le> length buf \<Longrightarrow> octets \<le> (if a = AfiIpv6 then 16 else 4) \<Longrightarrow> read_net X a l octets buf \<noteq> Panic"
  by (auto simp: read_net_def reads min_def split: option.splits)

lemma div_ceil8_max_bits: "l \<le> max_bits a \<Longrightarrow> div_ceil8 (unat l) \<le> (if a = AfiIpv6 then 16 else 4)"
  by (auto simp: max_bits_def div_ceil8_def word_le_nat_alt)

lemma read_path_id_no_panic [panics]: "read_path_id ap buf \<noteq> Panic"
  by (simp add: read_path_id_def reads)

lemma read_labels_no_panic [panics]: "read_labels buf \<noteq> Panic"
  by (induction buf rule: read_labels.induct) (auto simp: Let_def and_then_Panic_iff)

lemma nlri_with_path_id_entry_no_panic [panics]: "nlri_with_path_id_entry X a ap buf \<noteq> Panic"
  by (auto simp: nlri_with_path_id_entry_def Let_def reads not_less and_then_Panic_iff
      read_path_id_no_panic dest: read_net_no_panic [OF _ div_ceil8_max_bits, rotated])

lemma nlri_entry_no_panic [panics]: "buf \<noteq> [] \<Longrightarrow> nlri_entry X a buf \<noteq> Panic"
  by (auto simp: nlri_entry_def Let_def reads not_less and_then_Panic_iff
      dest: read_net_no_panic [OF _ div_ceil8_max_bits, rotated])

section \<open>The decoders read back the wire formats\<close>

lemma net_octets_length [simp]:
  "canonical_net a p \<Longrightarrow> length (net_octets p) = div_ceil8 (unat (net_len p))"
  using div_ceil8_bounds(2) by (cases p) (auto simp: min_def not_le div_ceil8_def)

lemma canonical_net_len: "canonical_net a p \<Longrightarrow> net_len p \<le> max_bits a"
  by (cases p) (auto simp: max_bits_def word_le_nat_alt)

context ipnet
begin

lemma read_net_wire:
  assumes "canonical_net a p"
  shows "read_net X a (net_len p) (div_ceil8 (unat (net_len p))) (net_octets p @ r) = Ok (p, r)"
proof (cases p)
  case (PrefixV4 n)
  then show ?thesis
    using assms pad_octets [of 4 "unat (v4_prefix_len n)" "v4_addr n"] net_octets_length [OF assms]
    by (cases n) (simp add: read_net_def copy_to_bytes_def fill_array_def v4_new v4_trunc)
next
  case (PrefixV6 n)
  then show ?thesis
    using assms pad_octets [of 16 "unat (v6_prefix_len n)" "v6_addr n"] net_octets_length [OF assms]
    by (cases n) (simp add: read_net_def copy_to_bytes_def fill_array_def v6_new v6_trunc)
qed (use assms in auto)

lemma read_net_canonical: "read_net X a l n buf = Ok (p, r) \<Longrightarrow> canonical_net a p"
  by (auto simp: read_net_def and_then_Ok_iff v4_new v4_trunc v6_new v6_trunc split: if_splits)

lemma entry_wire:
  assumes "canonical_net a p" "path_id \<noteq> None \<longleftrightarrow> ap"
  shows "nlri_with_path_id_entry X a ap (nlri_wire (p, path_id) @ r) = Ok ([(p, path_id)], r)"
  using assms canonical_net_len [OF assms(1)] read_net_wire [OF assms(1)] net_octets_length [OF assms(1)]
  by (cases path_id)
    (auto simp: nlri_with_path_id_entry_def read_path_id_def get_u32_def get_u8_def Let_def)

end

lemma raw24:
  assumes "unat l < 2 ^ 20" "b < 16"
  shows "from_be_bytes (nat_to_be 3 (16 * unat l + b)) = (word_of_nat (16 * unat l + b) :: u32)"
proof -
  have "16 * unat l + b < 256 ^ 3" using assms by simp
  then show ?thesis by (simp add: from_be_bytes_def be_nat_nat_to_be)
qed

lemma raw24_parts:
  assumes "unat l < 2 ^ 20"
  shows "drop_bit 4 (word_of_nat (16 * unat l) :: u32) = l"
    "drop_bit 4 (word_of_nat (16 * unat l + 1) :: u32) = l"
    "(word_of_nat (16 * unat l) :: u32) AND 1 = 0"
    "(word_of_nat (16 * unat l + 1) :: u32) AND 1 \<noteq> 0"
proof -
  have u: "unat (word_of_nat (16 * unat l) :: u32) = 16 * unat l"
    "unat (word_of_nat (16 * unat l + 1) :: u32) = 16 * unat l + 1"
    by (rule unat_word_of_nat, use assms in simp)+
  have and_one: "w AND 1 = 0 \<longleftrightarrow> even (unat w)" for w :: u32
  proof -
    have "unat (w AND 1) = unat w mod 2"
      by (simp add: and_one_eq unat_mod)
    then show ?thesis
      by (metis even_iff_mod_2_eq_zero unat_eq_zero)
  qed
  show "drop_bit 4 (word_of_nat (16 * unat l) :: u32) = l"
    "drop_bit 4 (word_of_nat (16 * unat l + 1) :: u32) = l"
    using u by (auto intro!: word_unat_eq_iff [THEN iffD2] simp: unsigned_drop_bit_eq drop_bit_eq_div unat_div)
  show "(word_of_nat (16 * unat l) :: u32) AND 1 = 0"
    "(word_of_nat (16 * unat l + 1) :: u32) AND 1 \<noteq> 0"
    unfolding and_one u by simp_all
qed

lemma read_labels_front:
  "length b = 3 \<Longrightarrow> read_labels (b @ buf) =
     (let raw = from_be_bytes b :: u32; label = drop_bit 4 raw in
      if raw AND 1 \<noteq> 0 then Ok ([label], buf)
      else and_then (read_labels buf) (\<lambda>(labels, rest). Ok (label # labels, rest)))"
  by (auto simp: length_Suc_conv numeral_3_eq_3)

lemma read_labels_wire:
  "ls \<noteq> [] \<Longrightarrow> \<forall>l \<in> set ls. unat l < 2 ^ 20 \<Longrightarrow> read_labels (labels_wire ls @ r) = Ok (ls, r)"
proof (induction ls rule: labels_wire.induct)
  case (2 l)
  then show ?case
    using raw24 [of l 1] raw24_parts [of l]
    by (simp add: read_labels_front Let_def)
next
  case (3 l l' ls)
  then show ?case
    using raw24 [of l 0] raw24_parts [of l]
    by (simp add: read_labels_front Let_def)
qed simp

lemma labels_wire_length [simp]: "length (labels_wire ls) = 3 * length ls"
  by (induction ls rule: labels_wire.induct) auto

lemma canonical_net_bits: "canonical_net a p \<Longrightarrow> unat (net_len p) \<le> 128"
  by (cases p) auto

context ipnet
begin

lemma labeled_entry_wire:
  assumes "canonical_labeled a p"
  shows "labeled_entry X a (labeled_wire p @ r) = Ok ([p], r)"
proof -
  obtain q ls where p: "p = Labeled q ls" using assms by (cases p) auto
  with assms have c: "canonical_net a q" "ls \<noteq> []" "\<forall>l \<in> set ls. unat l < 2 ^ 20"
    and bits: "24 * length ls + unat (net_len q) < 256" by auto
  have "unat (word_of_nat (24 * length ls + unat (net_len q)) :: u8) = 24 * length ls + unat (net_len q)"
    by (rule unat_word_of_nat) (use bits in simp)
  then show ?thesis
    using read_labels_wire [OF c(2, 3)] read_net_wire [OF c(1)] net_octets_length [OF c(1)] p
    by (simp add: labeled_entry_def get_u8_def Let_def mult.commute)
qed

lemma vpn_entry_wire:
  assumes "canonical_vpn a p"
  shows "vpn_entry X a (vpn_wire p @ r) = Ok ([p], r)"
proof -
  obtain rd q l where p: "p = Vpn rd q [l]" and l: "unat l < 2 ^ 20"
    and c: "canonical_net a q" "length (rd_bytes rd) = 8"
    using assms by (cases p) auto
  have "unat (word_of_nat (88 + unat (net_len q)) :: u8) = 88 + unat (net_len q)"
    by (rule unat_word_of_nat) (use canonical_net_bits [OF c(1)] in simp)
  then show ?thesis
    using raw24 [OF l, of 1] raw24_parts(2) [OF l] read_net_wire [OF c(1)] net_octets_length [OF c(1)] c(2) p
    by (cases rd) (simp add: vpn_entry_def get_u8_def copy_to_bytes_def Let_def)
qed

end

lemma wire_nonempty:
  "canonical_labeled a p \<Longrightarrow> labeled_wire p \<noteq> []" "canonical_vpn a p \<Longrightarrow> vpn_wire p \<noteq> []"
  by (cases p; auto)+

text \<open>Where the label decoders panic: their prefix length has no upper bound, so the octets of an
  over-long prefix do not fit the address array.\<close>

lemma read_net_Panic_iff:
  "read_net X a l octets buf = Panic \<longleftrightarrow>
    length buf < octets \<or> (if a = AfiIpv6 then 16 else 4) < octets"
  by (auto simp: read_net_def and_then_Panic_iff copy_to_bytes_def split: option.splits)

text \<open>What the simplifier needs to run the unicast decoders on concrete bytes.\<close>

lemmas nlri_eval = nlri_with_path_id_entry_def nlri_entry_def read_path_id_def get_u8_def Let_def
  div_ceil8_def max_bits_def read_net_def copy_to_bytes_def fill_array_def from_be_bytes_def be_nat_Cons
  doc_ipnet.v4_new doc_ipnet.v4_trunc doc_ipnet.v6_new doc_ipnet.v6_trunc clear_host_bits_def
  mask_eq_exp_minus_1

section \<open>Properties\<close>

text \<open>C21: Decoding reads back every encoded list of unicast prefixes, with their Add-Path identifiers
  exactly when Add-Path is on: \<open>decode_nlri_with_path_id\<close> inverts the RFC 4271 / RFC 7911 wire format on
  canonical networks.\<close>

theorem nlri_roundtrip:
  assumes "ipnet X" and "\<forall>(p, path_id) \<in> set ps. canonical_net a p \<and> (path_id \<noteq> None \<longleftrightarrow> ap)"
  shows "decode_nlri_with_path_id X (concat (map nlri_wire ps)) a ap = Ok ps"
proof (rule path_id_loop.loop_encoded)
  fix e r assume "e \<in> set ps"
  with assms show "nlri_wire e @ r \<noteq> [] \<and> nlri_with_path_id_entry X a ap (nlri_wire e @ r) = Ok ([e], r)"
    by (cases e) (auto simp del: nlri_wire.simps simp: ipnet.entry_wire; simp)
qed

theorem nlri_roundtrip_witness:
  "decode_nlri_with_path_id documented_externals
     (concat (map nlri_wire [(PrefixV4 (Ipv4Net 0x0A010000 16), Some 7)])) AfiIpv4 True
   = Ok [(PrefixV4 (Ipv4Net 0x0A010000 16), Some 7)]"
  by (rule nlri_roundtrip [OF doc_ipnet.ipnet_axioms]) (simp add: clear_host_bits_def mask_eq_exp_minus_1)

text \<open>C22: Whatever bytes arrive, the prefixes the unicast decoder returns are canonical: the length fits
  the address family, no host bit is set, and a path identifier is present exactly under Add-Path.\<close>

theorem nlri_canonical:
  assumes "ipnet X" and "decode_nlri_with_path_id X buf a ap = Ok ps" and "(p, path_id) \<in> set ps"
  shows "canonical_net a p \<and> (path_id \<noteq> None \<longleftrightarrow> ap)"
proof -
  have entry: "case e of (p, path_id) \<Rightarrow> canonical_net a p \<and> (path_id \<noteq> None \<longleftrightarrow> ap)"
    if "nlri_with_path_id_entry X a ap s = Ok (xs, s')" "e \<in> set xs" for s xs s' e
    using that ipnet.read_net_canonical [OF assms(1)]
    by (auto simp: nlri_with_path_id_entry_def read_path_id_def Let_def and_then_Ok_iff split: if_splits)
  have "case (p, path_id) of (p, path_id) \<Rightarrow> canonical_net a p \<and> (path_id \<noteq> None \<longleftrightarrow> ap)"
    by (rule path_id_loop.loop_all [OF _ assms(2, 3)]) (rule entry)
  then show ?thesis by simp
qed

theorem nlri_canonical_witness:
  "canonical_net AfiIpv4 (PrefixV4 (Ipv4Net 0x0A000000 8)) \<and> ((None :: u32 option) \<noteq> None \<longleftrightarrow> False)"
  by (rule nlri_canonical [OF doc_ipnet.ipnet_axioms, of "[8, 10]" AfiIpv4 False
        "[(PrefixV4 (Ipv4Net 0x0A000000 8), None)]"])
    (simp_all add: nlri_eval)

lemma entry_without_path_id:
  "buf \<noteq> [] \<Longrightarrow> nlri_with_path_id_entry X a False buf
    = and_then (nlri_entry X a buf) (\<lambda>(ps, r). Ok (map (\<lambda>p. (p, None)) ps, r))"
  by (cases buf)
    (auto simp: nlri_with_path_id_entry_def nlri_entry_def read_path_id_def get_u8_def Let_def
      and_then_assoc split_def)

text \<open>C23: Without Add-Path the two unicast decoders are the same function, errors and panics included:
  \<open>decode_nlri_with_path_id\<close> returns the prefixes of \<open>decode_nlri\<close>, each with no path identifier.\<close>

theorem decode_nlri_equiv:
  "decode_nlri_with_path_id X buf a False
    = and_then (decode_nlri X buf a) (\<lambda>ps. Ok (map (\<lambda>p. (p, None)) ps))"
  by (rule nlri_loop.loop_map [OF entry_without_path_id path_id_loop.parse_loop_axioms])

text \<open>C24: The unicast decoders never panic, on any input and for any behaviour of the \<open>ipnet\<close> crate:
  malformed bytes are reported as an error value.\<close>

theorem decode_nlri_no_panic:
  "decode_nlri_with_path_id X buf a ap \<noteq> Panic \<and> decode_nlri X buf a \<noteq> Panic"
proof -
  have "decode_nlri X buf a \<noteq> Panic"
    by (rule nlri_loop.loop_no_panic) (rule nlri_entry_no_panic)
  moreover have "decode_nlri_with_path_id X buf a ap \<noteq> Panic"
    by (rule path_id_loop.loop_no_panic) (rule nlri_with_path_id_entry_no_panic)
  ultimately show ?thesis by simp
qed

text \<open>C25: Labeled-unicast (RFC 8277) and VPN (RFC 4364) decoding read back every encoded list of
  well-formed routes: the whole label stack up to the bottom-of-stack bit, the route distinguisher and
  the inner network.\<close>

theorem labeled_vpn_roundtrip:
  assumes "ipnet X" and "\<forall>p \<in> set ps. canonical_labeled a p" and "\<forall>q \<in> set qs. canonical_vpn a q"
  shows "decode_labeled_nlri X (concat (map labeled_wire ps)) a = Ok ps
    \<and> decode_vpn_nlri X (concat (map vpn_wire qs)) a = Ok qs"
proof
  show "decode_labeled_nlri X (concat (map labeled_wire ps)) a = Ok ps"
  proof (rule labeled_loop.loop_encoded)
    fix p r assume "p \<in> set ps"
    with assms have "canonical_labeled a p" by simp
    then show "labeled_wire p @ r \<noteq> [] \<and> labeled_entry X a (labeled_wire p @ r) = Ok ([p], r)"
      using ipnet.labeled_entry_wire [OF assms(1)] wire_nonempty by simp
  qed
  show "decode_vpn_nlri X (concat (map vpn_wire qs)) a = Ok qs"
  proof (rule vpn_loop.loop_encoded)
    fix p r assume "p \<in> set qs"
    with assms have "canonical_vpn a p" by simp
    then show "vpn_wire p @ r \<noteq> [] \<and> vpn_entry X a (vpn_wire p @ r) = Ok ([p], r)"
      using ipnet.vpn_entry_wire [OF assms(1)] wire_nonempty by simp
  qed
qed

theorem labeled_vpn_roundtrip_witness:
  "decode_labeled_nlri documented_externals
     (concat (map labeled_wire [Labeled (PrefixV4 (Ipv4Net 0x0A000000 8)) [100, 200]])) AfiIpv4
     = Ok [Labeled (PrefixV4 (Ipv4Net 0x0A000000 8)) [100, 200]]
   \<and> decode_vpn_nlri documented_externals
     (concat (map vpn_wire [Vpn (RouteDistinguisher [0, 0, 0, 1, 0, 0, 0, 2]) (PrefixV4 (Ipv4Net 0x0A000000 8)) [300]]))
     AfiIpv4 = Ok [Vpn (RouteDistinguisher [0, 0, 0, 1, 0, 0, 0, 2]) (PrefixV4 (Ipv4Net 0x0A000000 8)) [300]]"
  by (rule labeled_vpn_roundtrip [OF doc_ipnet.ipnet_axioms])
    (simp_all add: clear_host_bits_def mask_eq_exp_minus_1)

text \<open>C26: The panic of the VPN decoder, exactly: on an entry whose label, route distinguisher and
  address octets are all present, decoding panics if and only if the announced length leaves more
  prefix octets than the address family has. (The unicast decoder checks \<open>max_bits\<close>; this one does not.)\<close>

theorem vpn_overlong_prefix_panics:
  assumes "length b = 3" and "length rd = 8" and "88 \<le> unat len"
    and "div_ceil8 (unat len - 88) \<le> length rest"
  shows "vpn_entry X a (len # b @ rd @ rest) = Panic
    \<longleftrightarrow> 88 + (if a = AfiIpv6 then 128 else 32) < unat len"
proof -
  have diff: "unat (len - 88) = unat len - 88"
    using assms(3) by (simp add: unat_sub word_le_nat_alt)
  have "vpn_entry X a (len # b @ rd @ rest) = Panic
    \<longleftrightarrow> read_net X a (len - 88) (div_ceil8 (unat len - 88)) rest = Panic"
    using assms by (simp add: vpn_entry_def get_u8_def copy_to_bytes_def Let_def diff and_then_Panic_iff split_def)
  also have "\<dots> \<longleftrightarrow> (if a = AfiIpv6 then 16 else 4) < div_ceil8 (unat len - 88)"
    using assms(4) by (simp add: read_net_Panic_iff)
  also have "\<dots> \<longleftrightarrow> 88 + (if a = AfiIpv6 then 128 else 32) < unat len"
    using assms(3) by (auto simp: div_ceil8_less)
  finally show ?thesis .
qed

theorem vpn_overlong_prefix_panics_witness:
  "vpn_entry documented_externals AfiIpv4 (121 # [0, 0, 1] @ [0, 0, 0, 1, 0, 0, 0, 2] @ [10, 0, 0, 0, 0]) = Panic
    \<longleftrightarrow> 88 + (if AfiIpv4 = AfiIpv6 then 128 else 32) < unat (121 :: u8)"
  by (rule vpn_overlong_prefix_panics) (simp_all add: div_ceil8_def)

text \<open>C27: The VPLS decoder is total: it returns a list for every input, and each 17-byte entry costs at
  least 19 bytes of it, so the result is bounded by the input.\<close>

theorem decode_vpls_total:
  "\<exists>vs. decode_vpls_nlri buf = Ok vs \<and> 19 * length vs \<le> length buf"
proof -
  have ok: "\<exists>vs r. vpls_entry s = Ok (vs, r) \<and> 19 * length vs + length r \<le> length s"
    if "vpls_more s" for s
    using that by (auto simp: vpls_more_def vpls_entry_def reads unat_from_be_bytes)
  have "\<exists>vs. decode_vpls_nlri buf = Ok vs"
  proof (induction buf rule: vpls_loop.loop_induct)
    case (step s)
    show ?case
    proof (cases "vpls_more s")
      case True
      with ok obtain vs r where *: "vpls_entry s = Ok (vs, r)" by blast
      with step [OF True *] show ?thesis by (auto simp: vpls_loop.loop_step [OF True *])
    qed (simp add: vpls_loop.loop_stop)
  qed
  then obtain vs where vs: "decode_vpls_nlri buf = Ok vs" ..
  moreover have "19 * length vs \<le> length buf"
    by (rule vpls_loop.loop_length [OF _ vs]) (use ok in fastforce)
  ultimately show ?thesis by blast
qed

end
