(* ===== verification/Evpn.thy ===== *)
theory Evpn
  imports Nlri
begin

unbundle bit_operations_syntax

text \<open>
  \<open>crates/rbmp-core/src/bgp/evpn.rs\<close>: Ethernet VPN routes (RFC 7432, 9136, 9251, 9572). Route
  distinguishers, segment identifiers and MAC addresses are byte strings of 8, 10 and 6 bytes.
\<close>

section \<open>Routes\<close>

datatype evpn_route =
    EthernetAutoDiscovery (evpn_rd: bytes) (evpn_esi: bytes) (ethernet_tag: u32) (mpls_label: u32)
  | MacIpAdvertisement (evpn_rd: bytes) (evpn_esi: bytes) (ethernet_tag: u32) (evpn_mac: bytes) (mac_ip: "ip_addr option")
      (mpls_label1: u32) (mpls_label2: "u32 option")
  | InclusiveMulticastEthernetTag (evpn_rd: bytes) (ethernet_tag: u32) (originating_router_ip: ip_addr)
  | EthernetSegment (evpn_rd: bytes) (evpn_esi: bytes) (originating_router_ip: ip_addr)
  | IpPrefix (evpn_rd: bytes) (evpn_esi: bytes) (ethernet_tag: u32) (ip_prefix: ip_addr) (ip_prefix_len: u8)
      (gw_ip: "ip_addr option") (mpls_label: u32)
  | SelectiveMulticastEthernetTag (evpn_rd: bytes) (ethernet_tag: u32) (multicast_source: ip_addr)
      (multicast_group: ip_addr) (originating_router_ip: ip_addr)
  | IgmpJoinSynch (evpn_rd: bytes) (ethernet_tag: u32) (multicast_source: ip_addr)
      (multicast_group: ip_addr) (originating_router_ip: ip_addr)
  | IgmpLeaveSynch (evpn_rd: bytes) (ethernet_tag: u32) (multicast_source: ip_addr)
      (multicast_group: ip_addr) (originating_router_ip: ip_addr)
  | PerRegionIPmsi (evpn_rd: bytes) (ethernet_tag: u32) (originating_router_ip: ip_addr)
  | SPmsi (evpn_rd: bytes) (ethernet_tag: u32) (multicast_source: ip_addr)
      (multicast_group: ip_addr) (originating_router_ip: ip_addr)
  | LeafAD (route_key: bytes) (leaf_path_id: u32)
  | UnknownEvpn (unknown_type: u8) (unknown_data: bytes)

fun route_type_name :: "evpn_route \<Rightarrow> string" where
  "route_type_name (EthernetAutoDiscovery _ _ _ _) = ''ethernet-auto-discovery''"
| "route_type_name (MacIpAdvertisement _ _ _ _ _ _ _) = ''mac-ip-advertisement''"
| "route_type_name (InclusiveMulticastEthernetTag _ _ _) = ''inclusive-multicast-ethernet-tag''"
| "route_type_name (EthernetSegment _ _ _) = ''ethernet-segment''"
| "route_type_name (IpPrefix _ _ _ _ _ _ _) = ''ip-prefix''"
| "route_type_name (SelectiveMulticastEthernetTag _ _ _ _ _) = ''selective-multicast-ethernet-tag''"
| "route_type_name (IgmpJoinSynch _ _ _ _ _) = ''igmp-join-synch''"
| "route_type_name (IgmpLeaveSynch _ _ _ _ _) = ''igmp-leave-synch''"
| "route_type_name (PerRegionIPmsi _ _ _) = ''per-region-i-pmsi''"
| "route_type_name (SPmsi _ _ _ _ _) = ''s-pmsi''"
| "route_type_name (LeafAD _ _) = ''leaf-ad''"
| "route_type_name (UnknownEvpn _ _) = ''unknown''"

fun route_type_code :: "evpn_route \<Rightarrow> u8" where
  "route_type_code (EthernetAutoDiscovery _ _ _ _) = 1"
| "route_type_code (MacIpAdvertisement _ _ _ _ _ _ _) = 2"
| "route_type_code (InclusiveMulticastEthernetTag _ _ _) = 3"
| "route_type_code (EthernetSegment _ _ _) = 4"
| "route_type_code (IpPrefix _ _ _ _ _ _ _) = 5"
| "route_type_code (SelectiveMulticastEthernetTag _ _ _ _ _) = 6"
| "route_type_code (IgmpJoinSynch _ _ _ _ _) = 7"
| "route_type_code (IgmpLeaveSynch _ _ _ _ _) = 8"
| "route_type_code (PerRegionIPmsi _ _ _) = 9"
| "route_type_code (SPmsi _ _ _ _ _) = 10"
| "route_type_code (LeafAD _ _) = 11"
| "route_type_code (UnknownEvpn t _) = t"

section \<open>Decoding\<close>

text \<open>\<open>decode_mpls_label(&v[i..i + 3])\<close>.\<close>

definition decode_mpls_label :: "bytes \<Rightarrow> nat \<Rightarrow> u32 result" where
  "decode_mpls_label v i = and_then (be24_at v i) (\<lambda>raw. Ok (drop_bit 4 raw))"

definition decode_evpn_router_ip :: "u8 \<Rightarrow> bytes \<Rightarrow> ip_addr result" where
  "decode_evpn_router_ip ip_len buf =
     (if ip_len = 32 then
        if length buf < 4 then Err (UnexpectedEof 4 (length buf))
        else and_then (slice buf 0 4) (\<lambda>b. Ok (IpV4 (from_be_bytes b)))
      else if ip_len = 128 then
        if length buf < 16 then Err (UnexpectedEof 16 (length buf))
        else and_then (slice buf 0 16) (\<lambda>b. Ok (IpV6 (from_be_bytes b)))
      else Err (BgpParse (''EVPN originator IP length '' @ dec (unat ip_len) @ '' not 32 or 128'')))"

definition evpn_type1 :: "bytes \<Rightarrow> evpn_route result" where
  "evpn_type1 v =
     (if length v < 25 then Err (UnexpectedEof 25 (length v)) else
      and_then (slice v 0 8) (\<lambda>rd. and_then (slice v 8 18) (\<lambda>esi.
      and_then (be32_at v 18) (\<lambda>tag. and_then (decode_mpls_label v 22) (\<lambda>label.
      Ok (EthernetAutoDiscovery rd esi tag label))))))"

text \<open>The optional IP address of a MAC/IP route and the position behind it.\<close>

definition evpn_mac_ip :: "u8 \<Rightarrow> bytes \<Rightarrow> nat \<Rightarrow> (ip_addr option \<times> nat) result" where
  "evpn_mac_ip ip_len v pos =
     (if ip_len = 0 then Ok (None, pos)
      else if ip_len = 32 then
        if length v < pos + 4 then Err (UnexpectedEof (pos + 4) (length v))
        else and_then (slice v pos (pos + 4)) (\<lambda>b. Ok (Some (IpV4 (from_be_bytes b)), pos + 4))
      else if ip_len = 128 then
        if length v < pos + 16 then Err (UnexpectedEof (pos + 16) (length v))
        else and_then (slice v pos (pos + 16)) (\<lambda>b. Ok (Some (IpV6 (from_be_bytes b)), pos + 16))
      else Err (BgpParse (''EVPN type2 ip_len='' @ dec (unat ip_len))))"

definition evpn_type2 :: "bytes \<Rightarrow> evpn_route result" where
  "evpn_type2 v =
     (if length v < 33 then Err (UnexpectedEof 33 (length v)) else
      and_then (slice v 0 8) (\<lambda>rd. and_then (slice v 8 18) (\<lambda>esi.
      and_then (be32_at v 18) (\<lambda>tag. and_then (at v 22) (\<lambda>mac_len.
      if mac_len \<noteq> 48
      then Err (BgpParse (''EVPN type2 mac_len='' @ dec (unat mac_len) @ '', expected 48'')) else
      and_then (slice v 23 29) (\<lambda>mac. and_then (at v 29) (\<lambda>ip_len.
      and_then (evpn_mac_ip ip_len v 30) (\<lambda>(ip, pos).
      if length v < pos + 3 then Err (UnexpectedEof (pos + 3) (length v)) else
      and_then (decode_mpls_label v pos) (\<lambda>label1.
      if length v \<ge> pos + 6 then
        and_then (decode_mpls_label v (pos + 3)) (\<lambda>label2.
        Ok (MacIpAdvertisement rd esi tag mac ip label1 (Some label2)))
      else Ok (MacIpAdvertisement rd esi tag mac ip label1 None))))))))))"

text \<open>Types 3 and 9: route distinguisher, Ethernet tag, originating router.\<close>

definition evpn_tag_router :: "bytes \<Rightarrow> (bytes \<times> u32 \<times> ip_addr) result" where
  "evpn_tag_router v =
     (if length v < 13 then Err (UnexpectedEof 13 (length v)) else
      and_then (slice v 0 8) (\<lambda>rd. and_then (be32_at v 8) (\<lambda>tag. and_then (at v 12) (\<lambda>ip_len.
      and_then (slice_from v 13) (\<lambda>rest. and_then (decode_evpn_router_ip ip_len rest) (\<lambda>ip.
      Ok (rd, tag, ip)))))))"

definition evpn_type4 :: "bytes \<Rightarrow> evpn_route result" where
  "evpn_type4 v =
     (if length v < 19 then Err (UnexpectedEof 19 (length v)) else
      and_then (slice v 0 8) (\<lambda>rd. and_then (slice v 8 18) (\<lambda>esi. and_then (at v 18) (\<lambda>ip_len.
      and_then (slice_from v 19) (\<lambda>rest. and_then (decode_evpn_router_ip ip_len rest) (\<lambda>ip.
      Ok (EthernetSegment rd esi ip)))))))"

definition evpn_addr :: "bytes \<Rightarrow> nat \<Rightarrow> nat \<Rightarrow> ip_addr result" where
  "evpn_addr v pos ip_octets =
     (if ip_octets = 4 then and_then (slice v pos (pos + 4)) (\<lambda>b. Ok (IpV4 (from_be_bytes b)))
      else and_then (slice v pos (pos + 16)) (\<lambda>b. Ok (IpV6 (from_be_bytes b))))"

definition evpn_type5 :: "bytes \<Rightarrow> evpn_route result" where
  "evpn_type5 v =
     (if length v < 34 then Err (UnexpectedEof 34 (length v)) else
      and_then (slice v 0 8) (\<lambda>rd. and_then (slice v 8 18) (\<lambda>esi.
      and_then (be32_at v 18) (\<lambda>tag. and_then (at v 22) (\<lambda>prefix_len.
      let ip_octets = (if prefix_len \<le> 32 then 4 else 16) in
      if length v < 23 + ip_octets * 2 + 3
      then Err (UnexpectedEof (23 + ip_octets * 2 + 3) (length v)) else
      and_then (evpn_addr v 23 ip_octets) (\<lambda>prefix.
      let gw_off = 23 + ip_octets in
      and_then (slice v gw_off (gw_off + ip_octets)) (\<lambda>gw.
      and_then (if list_all (\<lambda>b. b = 0) gw then Ok None
                else and_then (evpn_addr v gw_off ip_octets) (\<lambda>a. Ok (Some a))) (\<lambda>gw_ip.
      and_then (decode_mpls_label v (gw_off + ip_octets)) (\<lambda>label.
      Ok (IpPrefix rd esi tag prefix prefix_len gw_ip label))))))))))"

text \<open>Types 6, 7, 8 and 10: source, group and originator behind the Ethernet tag.\<close>

definition evpn_multicast :: "bytes \<Rightarrow> (bytes \<times> u32 \<times> ip_addr \<times> ip_addr \<times> ip_addr) result" where
  "evpn_multicast v =
     (if length v < 13 then Err (UnexpectedEof 13 (length v)) else
      and_then (slice v 0 8) (\<lambda>rd. and_then (be32_at v 8) (\<lambda>tag.
      and_then (at v 12) (\<lambda>src_ip_len.
      and_then (slice_from v 13) (\<lambda>rest. and_then (decode_evpn_router_ip src_ip_len rest) (\<lambda>src.
      let pos = 13 + (if src_ip_len = 32 then 4 else 16) in
      if pos \<ge> length v then Err (UnexpectedEof (pos + 1) (length v)) else
      and_then (at v pos) (\<lambda>grp_ip_len.
      and_then (slice_from v (pos + 1)) (\<lambda>rest. and_then (decode_evpn_router_ip grp_ip_len rest) (\<lambda>grp.
      let pos = pos + 1 + (if grp_ip_len = 32 then 4 else 16) in
      if pos \<ge> length v then Err (UnexpectedEof (pos + 1) (length v)) else
      and_then (at v pos) (\<lambda>orig_ip_len.
      and_then (slice_from v (pos + 1)) (\<lambda>rest. and_then (decode_evpn_router_ip orig_ip_len rest) (\<lambda>orig.
      Ok (rd, tag, src, grp, orig)))))))))))))"

definition evpn_type11 :: "bytes \<Rightarrow> evpn_route result" where
  "evpn_type11 v =
     (if length v < 4 then Err (UnexpectedEof 4 (length v)) else
      and_then (be32_at v (length v - 4)) (\<lambda>path_id.
      and_then (slice v 0 (length v - 4)) (\<lambda>key. Ok (LeafAD key path_id))))"

definition parse_evpn_route :: "u8 \<Rightarrow> bytes \<Rightarrow> evpn_route result" where
  "parse_evpn_route route_type v =
     (if route_type = 1 then evpn_type1 v
      else if route_type = 2 then evpn_type2 v
      else if route_type = 3 then
        and_then (evpn_tag_router v) (\<lambda>(rd, tag, ip). Ok (InclusiveMulticastEthernetTag rd tag ip))
      else if route_type = 4 then evpn_type4 v
      else if route_type = 5 then evpn_type5 v
      else if route_type = 6 then
        and_then (evpn_multicast v) (\<lambda>(rd, tag, s, g, r). Ok (SelectiveMulticastEthernetTag rd tag s g r))
      else if route_type = 7 then
        and_then (evpn_multicast v) (\<lambda>(rd, tag, s, g, r). Ok (IgmpJoinSynch rd tag s g r))
      else if route_type = 8 then
        and_then (evpn_multicast v) (\<lambda>(rd, tag, s, g, r). Ok (IgmpLeaveSynch rd tag s g r))
      else if route_type = 9 then
        and_then (evpn_tag_router v) (\<lambda>(rd, tag, ip). Ok (PerRegionIPmsi rd tag ip))
      else if route_type = 10 then
        and_then (evpn_multicast v) (\<lambda>(rd, tag, s, g, r). Ok (SPmsi rd tag s g r))
      else if route_type = 11 then evpn_type11 v
      else Ok (UnknownEvpn route_type v))"

definition evpn_entry :: "bytes \<Rightarrow> (evpn_route list \<times> bytes) result" where
  "evpn_entry buf =
     and_then (at buf 0) (\<lambda>route_type.
     and_then (at buf 1) (\<lambda>len.
     and_then (slice_from buf 2) (\<lambda>buf.
     if length buf < unat len then Err (UnexpectedEof (unat len) (length buf)) else
     and_then (slice buf 0 (unat len)) (\<lambda>value.
     and_then (slice_from buf (unat len)) (\<lambda>buf.
     and_then (parse_evpn_route route_type value) (\<lambda>route. Ok ([route], buf)))))))"

lemma evpn_entry_rest: "evpn_entry buf = Ok (rs, r) \<Longrightarrow> length r < length buf"
  by (auto simp: evpn_entry_def and_then_Ok_iff at_def slice_from_def split: if_splits)

text \<open>\<open>while buf.len() >= 2\<close>: a single trailing byte is ignored.\<close>

function decode_evpn_nlri :: "bytes \<Rightarrow> evpn_route list result" where
  "decode_evpn_nlri [] = Ok []"
| "decode_evpn_nlri [b] = Ok []"
| "decode_evpn_nlri (b # c # bs) =
     and_then (evpn_entry (b # c # bs)) (\<lambda>(rs, buf).
     and_then (decode_evpn_nlri buf) (\<lambda>ss. Ok (rs @ ss)))"
  by pat_completeness auto
termination
  by (relation "measure length") (use evpn_entry_rest in fastforce)+

interpretation evpn_loop: byte_loop "\<lambda>buf. 2 \<le> length buf" evpn_entry decode_evpn_nlri
proof (rule byte_loopI)
  fix b bs
  show "decode_evpn_nlri (b # bs) = (if 2 \<le> length (b # bs)
    then and_then (evpn_entry (b # bs)) (\<lambda>(xs, r). and_then (decode_evpn_nlri r) (\<lambda>ys. Ok (xs @ ys))) else Ok [])"
    by (cases bs) simp_all
qed (auto dest: evpn_entry_rest)

section \<open>Panic freedom\<close>

lemma decode_mpls_label_Ok [reads]:
  "i + 3 \<le> length v \<Longrightarrow> decode_mpls_label v i = Ok (drop_bit 4 (from_be_bytes (take 3 (drop i v))))"
  by (simp add: decode_mpls_label_def reads)

lemma decode_evpn_router_ip_no_panic [panics]: "decode_evpn_router_ip l buf \<noteq> Panic"
  by (auto simp: decode_evpn_router_ip_def reads)

lemma evpn_mac_ip_no_panic [panics]: "evpn_mac_ip l v pos \<noteq> Panic"
  by (auto simp: evpn_mac_ip_def reads)

lemma evpn_type2_no_panic [panics]: "evpn_type2 v \<noteq> Panic"
  by (auto simp: evpn_type2_def reads evpn_mac_ip_no_panic and_then_Panic_iff)

lemma evpn_tag_router_no_panic [panics]: "evpn_tag_router v \<noteq> Panic"
  by (auto simp: evpn_tag_router_def reads decode_evpn_router_ip_no_panic and_then_Panic_iff)

lemma evpn_type5_no_panic [panics]: "evpn_type5 v \<noteq> Panic"
  by (auto simp: evpn_type5_def evpn_addr_def Let_def reads)

lemma evpn_multicast_no_panic [panics]: "evpn_multicast v \<noteq> Panic"
  unfolding evpn_multicast_def Let_def
  by (auto simp: reads decode_evpn_router_ip_no_panic and_then_Panic_iff)

lemma parse_evpn_route_no_panic [panics]: "parse_evpn_route t v \<noteq> Panic"
  unfolding parse_evpn_route_def
  by (auto simp: evpn_type1_def evpn_type4_def evpn_type11_def reads and_then_Panic_iff panics)

lemma evpn_entry_no_panic [panics]: "2 \<le> length buf \<Longrightarrow> evpn_entry buf \<noteq> Panic"
  by (auto simp: evpn_entry_def reads and_then_Panic_iff parse_evpn_route_no_panic)

section \<open>The wire format\<close>

definition label_wire :: "u32 \<Rightarrow> bytes" where
  "label_wire l = nat_to_be 3 (16 * unat l)"

fun ip_wire :: "ip_addr \<Rightarrow> bytes" where
  "ip_wire (IpV4 a) = to_be_bytes 4 a"
| "ip_wire (IpV6 a) = to_be_bytes 16 a"

fun ip_bits :: "ip_addr \<Rightarrow> u8" where
  "ip_bits (IpV4 a) = 32"
| "ip_bits (IpV6 a) = 128"

definition ip_field :: "ip_addr \<Rightarrow> bytes" where
  "ip_field a = ip_bits a # ip_wire a"

fun evpn_value :: "evpn_route \<Rightarrow> bytes" where
  "evpn_value (EthernetAutoDiscovery rd esi tag l) = rd @ esi @ to_be_bytes 4 tag @ label_wire l"
| "evpn_value (MacIpAdvertisement rd esi tag mac ip l1 l2) =
     rd @ esi @ to_be_bytes 4 tag @ 48 # mac @ (case ip of None \<Rightarrow> [0] | Some a \<Rightarrow> ip_field a)
     @ label_wire l1 @ (case l2 of None \<Rightarrow> [] | Some l \<Rightarrow> label_wire l)"
| "evpn_value (InclusiveMulticastEthernetTag rd tag r) = rd @ to_be_bytes 4 tag @ ip_field r"
| "evpn_value (EthernetSegment rd esi r) = rd @ esi @ ip_field r"
| "evpn_value (IpPrefix rd esi tag p len gw l) =
     rd @ esi @ to_be_bytes 4 tag @ len # ip_wire p
     @ (case gw of None \<Rightarrow> replicate (length (ip_wire p)) 0 | Some a \<Rightarrow> ip_wire a) @ label_wire l"
| "evpn_value (SelectiveMulticastEthernetTag rd tag s g r) =
     rd @ to_be_bytes 4 tag @ ip_field s @ ip_field g @ ip_field r"
| "evpn_value (IgmpJoinSynch rd tag s g r) = rd @ to_be_bytes 4 tag @ ip_field s @ ip_field g @ ip_field r"
| "evpn_value (IgmpLeaveSynch rd tag s g r) = rd @ to_be_bytes 4 tag @ ip_field s @ ip_field g @ ip_field r"
| "evpn_value (PerRegionIPmsi rd tag r) = rd @ to_be_bytes 4 tag @ ip_field r"
| "evpn_value (SPmsi rd tag s g r) = rd @ to_be_bytes 4 tag @ ip_field s @ ip_field g @ ip_field r"
| "evpn_value (LeafAD key path_id) = key @ to_be_bytes 4 path_id"
| "evpn_value (UnknownEvpn t d) = d"

definition evpn_wire :: "evpn_route \<Rightarrow> bytes" where
  "evpn_wire r = route_type_code r # word_of_nat (length (evpn_value r)) # evpn_value r"

text \<open>The gateway of an IP prefix route has the family of the prefix and is not all zero; an IPv6 prefix
  is longer than 32 bits, the only ones the decoder can tell apart.\<close>

fun gw_ok :: "ip_addr \<Rightarrow> u8 \<Rightarrow> ip_addr option \<Rightarrow> bool" where
  "gw_ok (IpV4 p) len gw \<longleftrightarrow> len \<le> 32 \<and> (case gw of None \<Rightarrow> True | Some (IpV4 a) \<Rightarrow> a \<noteq> 0 | Some (IpV6 a) \<Rightarrow> False)"
| "gw_ok (IpV6 p) len gw \<longleftrightarrow> len > 32 \<and> (case gw of None \<Rightarrow> True | Some (IpV4 a) \<Rightarrow> False | Some (IpV6 a) \<Rightarrow> a \<noteq> 0)"

fun evpn_ok :: "evpn_route \<Rightarrow> bool" where
  "evpn_ok (EthernetAutoDiscovery rd esi tag l) \<longleftrightarrow> length rd = 8 \<and> length esi = 10 \<and> unat l < 2 ^ 20"
| "evpn_ok (MacIpAdvertisement rd esi tag mac ip l1 l2) \<longleftrightarrow> length rd = 8 \<and> length esi = 10 \<and> length mac = 6
     \<and> unat l1 < 2 ^ 20 \<and> (case l2 of None \<Rightarrow> True | Some l \<Rightarrow> unat l < 2 ^ 20)"
| "evpn_ok (EthernetSegment rd esi r) \<longleftrightarrow> length rd = 8 \<and> length esi = 10"
| "evpn_ok (IpPrefix rd esi tag p len gw l) \<longleftrightarrow> length rd = 8 \<and> length esi = 10 \<and> gw_ok p len gw \<and> unat l < 2 ^ 20"
| "evpn_ok (LeafAD key path_id) \<longleftrightarrow> length key < 252"
| "evpn_ok (UnknownEvpn t d) \<longleftrightarrow> t \<notin> {1 .. 11} \<and> length d < 256"
| "evpn_ok r \<longleftrightarrow> length (evpn_rd r) = 8"

lemma ip_wire_length: "length (ip_wire a) = (if ip_bits a = 32 then 4 else 16)"
  by (cases a) auto

lemma router_ip_wire [simp]: "decode_evpn_router_ip (ip_bits a) (ip_wire a @ r) = Ok a"
  by (cases a) (simp_all add: decode_evpn_router_ip_def slice_def)

lemma router_ip_wire_Nil [simp]: "decode_evpn_router_ip (ip_bits a) (ip_wire a) = Ok a"
  using router_ip_wire [of a "[]"] by simp

lemma label_wire_length [simp]: "length (label_wire l) = 3"
  by (simp add: label_wire_def)

lemma label_wire_read [simp]: "unat l < 2 ^ 20 \<Longrightarrow> drop_bit 4 (from_be_bytes (label_wire l) :: u32) = l"
  using raw24 [of l 0] raw24_parts(1) [of l] by (simp add: label_wire_def)

lemma type1_wire: "evpn_ok (EthernetAutoDiscovery rd esi tag l) \<Longrightarrow>
    evpn_type1 (evpn_value (EthernetAutoDiscovery rd esi tag l)) = Ok (EthernetAutoDiscovery rd esi tag l)"
  by (simp add: evpn_type1_def reads)

lemma mac_ip_wire:
  "length v = 30 \<Longrightarrow> evpn_mac_ip (ip_bits a) (v @ ip_wire a @ r) 30 = Ok (Some a, 30 + length (ip_wire a))"
  by (cases a) (simp_all add: evpn_mac_ip_def reads)

lemma type2_wire: "evpn_ok (MacIpAdvertisement rd esi tag mac ip l1 l2) \<Longrightarrow>
    evpn_type2 (evpn_value (MacIpAdvertisement rd esi tag mac ip l1 l2))
      = Ok (MacIpAdvertisement rd esi tag mac ip l1 l2)"
  by (cases ip; cases l2; (cases "the ip")?)
    (simp_all add: evpn_type2_def evpn_mac_ip_def reads nth_append ip_field_def)

lemma tag_router_wire: "length rd = 8 \<Longrightarrow> evpn_tag_router (rd @ to_be_bytes 4 tag @ ip_field r) = Ok (rd, tag, r)"
  by (simp add: evpn_tag_router_def reads nth_append ip_field_def ip_wire_length)

lemma type4_wire: "length rd = 8 \<Longrightarrow> length esi = 10 \<Longrightarrow>
    evpn_type4 (rd @ esi @ ip_field r) = Ok (EthernetSegment rd esi r)"
  by (simp add: evpn_type4_def reads nth_append ip_field_def ip_wire_length)

lemma multicast_wire: "length rd = 8 \<Longrightarrow>
    evpn_multicast (rd @ to_be_bytes 4 tag @ ip_field s @ ip_field g @ ip_field r) = Ok (rd, tag, s, g, r)"
  by (cases s; cases g; cases r)
    (simp_all add: evpn_multicast_def decode_evpn_router_ip_def reads nth_append ip_field_def ip_wire_length Let_def)

lemma type11_wire: "evpn_type11 (key @ to_be_bytes 4 path_id) = Ok (LeafAD key path_id)"
  by (simp add: evpn_type11_def reads)

lemma to_be_bytes_nonzero:
  fixes a :: "'a::len word"
  assumes "LENGTH('a) = 8 * k" "a \<noteq> 0"
  shows "\<not> list_all (\<lambda>b. b = 0) (to_be_bytes k a)"
proof
  assume "list_all (\<lambda>b. b = 0) (to_be_bytes k a)"
  then have "to_be_bytes k a = replicate k 0"
    by (intro replicate_eqI) (auto simp: list_all_iff)
  then have "a = from_be_bytes (replicate k 0)"
    using from_be_bytes_to_be_bytes [OF assms(1), of a] by simp
  with assms(2) show False by (simp add: from_be_bytes_def)
qed

lemma type5_wire:
  assumes "evpn_ok (IpPrefix rd esi tag p len gw l)"
  shows "evpn_type5 (evpn_value (IpPrefix rd esi tag p len gw l)) = Ok (IpPrefix rd esi tag p len gw l)"
proof (cases p)
  case (IpV4 a)
  with assms to_be_bytes_nonzero [of 4 "case gw of Some (IpV4 b) \<Rightarrow> b | _ \<Rightarrow> 1"] show ?thesis
    by (simp add: evpn_type5_def evpn_addr_def reads nth_append Let_def list_all_iff
        split: option.splits ip_addr.splits)
next
  case (IpV6 a)
  with assms have "\<not> len \<le> 32" by (simp add: not_le)
  with IpV6 assms to_be_bytes_nonzero [of 16 "case gw of Some (IpV6 b) \<Rightarrow> b | _ \<Rightarrow> 1"] show ?thesis
    by (simp add: evpn_type5_def evpn_addr_def reads nth_append Let_def list_all_iff
        split: option.splits ip_addr.splits)
qed

lemma parse_evpn_route_wire:
  assumes "evpn_ok r"
  shows "parse_evpn_route (route_type_code r) (evpn_value r) = Ok r"
proof (cases r)
  case (EthernetAutoDiscovery rd esi tag l)
  with assms type1_wire [of rd esi tag l] show ?thesis by (simp add: parse_evpn_route_def)
next
  case (MacIpAdvertisement rd esi tag mac ip l1 l2)
  with assms type2_wire [of rd esi tag mac ip l1 l2] show ?thesis by (simp add: parse_evpn_route_def)
next
  case (IpPrefix rd esi tag p len gw l)
  with assms type5_wire [of rd esi tag p len gw l] show ?thesis by (simp add: parse_evpn_route_def)
next
  case (UnknownEvpn t d)
  then have "t \<notin> {1 .. 11}" using assms by simp
  then have "t \<noteq> 1 \<and> t \<noteq> 2 \<and> t \<noteq> 3 \<and> t \<noteq> 4 \<and> t \<noteq> 5 \<and> t \<noteq> 6 \<and> t \<noteq> 7 \<and> t \<noteq> 8 \<and> t \<noteq> 9 \<and> t \<noteq> 10 \<and> t \<noteq> 11"
    by auto
  with UnknownEvpn show ?thesis by (simp add: parse_evpn_route_def)
qed (use assms in \<open>simp_all add: parse_evpn_route_def tag_router_wire type4_wire multicast_wire type11_wire\<close>)

lemma evpn_value_length: "evpn_ok r \<Longrightarrow> length (evpn_value r) < 256"
  by (cases r) (auto simp: ip_field_def ip_wire_length split: option.splits)

lemma evpn_entry_wire:
  assumes "evpn_ok r"
  shows "evpn_entry (evpn_wire r @ buf) = Ok ([r], buf)"
proof -
  have "unat (word_of_nat (length (evpn_value r)) :: u8) = length (evpn_value r)"
    by (rule unat_word_of_nat) (use evpn_value_length [OF assms] in simp)
  then show ?thesis
    using parse_evpn_route_wire [OF assms] by (simp add: evpn_entry_def evpn_wire_def reads)
qed

section \<open>Properties\<close>

text \<open>C31: EVPN decoding reads back every encoded list of well-formed routes of all eleven types (and of
  unknown types), and never panics on any input.\<close>

theorem evpn_roundtrip:
  assumes "\<forall>r \<in> set rs. evpn_ok r"
  shows "decode_evpn_nlri (concat (map evpn_wire rs)) = Ok rs \<and> decode_evpn_nlri buf \<noteq> Panic"
proof
  show "decode_evpn_nlri (concat (map evpn_wire rs)) = Ok rs"
    by (rule evpn_loop.loop_encoded) (use assms evpn_entry_wire in \<open>auto simp: evpn_wire_def\<close>)
  show "decode_evpn_nlri buf \<noteq> Panic"
    by (rule evpn_loop.loop_no_panic) (rule evpn_entry_no_panic)
qed

theorem evpn_roundtrip_witness:
  "decode_evpn_nlri (concat (map evpn_wire
     [MacIpAdvertisement [0, 1, 2, 3, 4, 5, 6, 7] (replicate 10 0) 5 [0xAA, 0xBB, 0xCC, 0, 0, 1] (Some (IpV4 0x0A000001)) 100 None]))
   = Ok [MacIpAdvertisement [0, 1, 2, 3, 4, 5, 6, 7] (replicate 10 0) 5 [0xAA, 0xBB, 0xCC, 0, 0, 1] (Some (IpV4 0x0A000001)) 100 None]
   \<and> decode_evpn_nlri [2, 0] \<noteq> Panic"
  by (rule evpn_roundtrip) simp

text \<open>The family of an EVPN IP prefix route is taken from its prefix length alone: a well-framed IPv6
  route (58 bytes, RFC 9136) whose prefix length is at most 32 is returned as an IPv4 route made of the
  first four address bytes. What is returned as gateway and label is left open.\<close>

theorem evpn_short_ipv6_prefix_misread:
  assumes "length rd = 8" and "length esi = 10" and "len \<le> 32"
  shows "\<exists>gw l'. parse_evpn_route 5
      (rd @ esi @ to_be_bytes 4 tag @ len # to_be_bytes 16 (a :: ipv6) @ to_be_bytes 16 (g :: ipv6) @ label_wire l)
    = Ok (IpPrefix rd esi tag (IpV4 (from_be_bytes (take 4 (to_be_bytes 16 a)))) len gw l')"
  using assms by (auto simp: parse_evpn_route_def evpn_type5_def evpn_addr_def reads nth_append Let_def)

theorem evpn_short_ipv6_prefix_misread_witness:
  "\<exists>gw l'. parse_evpn_route 5
      (replicate 8 0 @ replicate 10 0 @ to_be_bytes 4 (0 :: u32) @ 32
        # to_be_bytes 16 (0x20010DB8000000000000000000000000 :: ipv6) @ to_be_bytes 16 (0 :: ipv6) @ label_wire 0)
    = Ok (IpPrefix (replicate 8 0) (replicate 10 0) 0
        (IpV4 (from_be_bytes (take 4 (to_be_bytes 16 (0x20010DB8000000000000000000000000 :: ipv6))))) 32 gw l')"
  by (rule evpn_short_ipv6_prefix_misread) simp_all

end
