(* ===== verification/Sr_Policy.thy ===== *)
theory Sr_Policy
  imports Evpn
begin

unbundle bit_operations_syntax

text \<open>
  \<open>crates/rbmp-core/src/bgp/srpolicy.rs\<close>: SR Policy NLRI (RFC 9256), candidate paths carried in the tunnel
  encapsulation attribute, and route target constraint NLRI (RFC 4684). The walks over sub-TLVs work on
  the bytes from \<open>pos\<close> on; every read in them is covered by the length test just before it.
\<close>

section \<open>Data\<close>

record sr_policy_nlri =
  distinguisher :: u32
  color :: u32
  endpoint :: ip_addr

datatype segment =
    MplsLabelSegment (seg_label: u32) (seg_tc: u8) (seg_s: bool) (seg_ttl: u8)
  | Srv6SidSegment bytes "u16 option"
  | Ipv4PrefixSegment ipv4 u8 u8
  | Ipv6PrefixSegment ipv6 u8 u8
  | Ipv4Adjacency u32 u32
  | Ipv4Interface ipv4 ipv4
  | Ipv6LocalAdj u32 ipv6 ipv6
  | Ipv6Adjacency u32 u32 ipv6 ipv6
  | Ipv4NextHop ipv4 u8
  | Ipv6NextHop ipv6 u8
  | SubList "segment list"
  | UnknownSegment u8 bytes

record segment_list =
  sl_weight :: u32
  sl_segments :: "segment list"

record candidate_path =
  preference :: u32
  path_name :: "string option"
  segment_lists :: "segment_list list"
  is_best_path :: bool

datatype rtc_nlri = Wildcard | Specific (rtc_origin_as: "u32 option") (rtc_prefix_len: u8) (rtc_data: bytes)

section \<open>SR Policy NLRI\<close>

definition srpolicy_more :: "bool \<Rightarrow> bytes \<Rightarrow> bool" where
  "srpolicy_more ipv6 buf \<longleftrightarrow> 4 + 4 + (if ipv6 then 16 else 4) \<le> length buf"

definition srpolicy_entry :: "bool \<Rightarrow> bytes \<Rightarrow> (sr_policy_nlri list \<times> bytes) result" where
  "srpolicy_entry ipv6 buf =
     (let ep_octets = (if ipv6 then 16 else 4) in
      and_then (be32_at buf 0) (\<lambda>d.
      and_then (be32_at buf 4) (\<lambda>c.
      and_then (slice buf 8 (8 + ep_octets)) (\<lambda>b.
      and_then (slice_from buf (8 + ep_octets)) (\<lambda>rest.
      Ok ([\<lparr>distinguisher = d, color = c,
             endpoint = (if ipv6 then IpV6 (from_be_bytes b) else IpV4 (from_be_bytes b))\<rparr>], rest))))))"

lemma srpolicy_entry_rest: "srpolicy_more v buf \<Longrightarrow> srpolicy_entry v buf = Ok (ps, r) \<Longrightarrow> length r < length buf"
  by (auto simp: srpolicy_entry_def srpolicy_more_def Let_def and_then_Ok_iff slice_from_def split: if_splits)

function decode_srpolicy_nlri :: "bool \<Rightarrow> bytes \<Rightarrow> sr_policy_nlri list result" where
  "decode_srpolicy_nlri ipv6 [] = Ok []"
| "decode_srpolicy_nlri ipv6 (b # bs) =
     (if srpolicy_more ipv6 (b # bs) then
        and_then (srpolicy_entry ipv6 (b # bs)) (\<lambda>(ps, buf).
        and_then (decode_srpolicy_nlri ipv6 buf) (\<lambda>qs. Ok (ps @ qs)))
      else Ok [])"
  by pat_completeness auto
termination
  by (relation "measure (\<lambda>(v, buf). length buf)") (use srpolicy_entry_rest in fastforce)+

lemma srpolicy_more_Nil [simp]: "\<not> srpolicy_more v []"
  by (simp add: srpolicy_more_def)

interpretation srpolicy_loop: byte_loop "srpolicy_more v" "srpolicy_entry v" "decode_srpolicy_nlri v" for v
  by (rule byte_loopI) (auto dest!: srpolicy_entry_rest)

section \<open>Segments and candidate paths\<close>

text \<open>The \<open>match seg_type\<close> of \<open>parse_segments\<close>, for every type but the nested list.\<close>

definition plain_segment :: "u8 \<Rightarrow> bytes \<Rightarrow> segment" where
  "plain_segment seg_type data =
     (if seg_type = 1 \<and> length data \<ge> 3 then
        let raw = from_be_bytes (take 3 data) :: u32 in
        MplsLabelSegment (drop_bit 12 raw) (ucast (drop_bit 9 raw AND 0x07)) (drop_bit 8 raw AND 0x01 \<noteq> 0)
          (ucast (raw AND 0xFF))
      else if seg_type = 2 \<and> length data \<ge> 16 then
        Srv6SidSegment (take 16 data)
          (if length data \<ge> 18 then Some (from_be_bytes (take 2 (drop 16 data))) else None)
      else if seg_type = 3 \<and> length data \<ge> 6 then
        Ipv4PrefixSegment (from_be_bytes (take 4 data)) (data ! 4) (data ! 5)
      else if seg_type = 4 \<and> length data \<ge> 18 then
        Ipv6PrefixSegment (from_be_bytes (take 16 data)) (data ! 16) (data ! 17)
      else if seg_type = 5 \<and> length data \<ge> 8 then
        Ipv4Adjacency (from_be_bytes (take 4 data)) (from_be_bytes (take 4 (drop 4 data)))
      else if seg_type = 6 \<and> length data \<ge> 8 then
        Ipv4Interface (from_be_bytes (take 4 data)) (from_be_bytes (take 4 (drop 4 data)))
      else if seg_type = 7 \<and> length data \<ge> 36 then
        Ipv6LocalAdj (from_be_bytes (take 4 data)) (from_be_bytes (take 16 (drop 4 data)))
          (from_be_bytes (take 16 (drop 20 data)))
      else if seg_type = 8 \<and> length data \<ge> 40 then
        Ipv6Adjacency (from_be_bytes (take 4 data)) (from_be_bytes (take 4 (drop 4 data)))
          (from_be_bytes (take 16 (drop 8 data))) (from_be_bytes (take 16 (drop 24 data)))
      else if seg_type = 9 \<and> length data \<ge> 5 then
        Ipv4NextHop (from_be_bytes (take 4 data)) (data ! 4)
      else if seg_type = 10 \<and> length data \<ge> 17 then
        Ipv6NextHop (from_be_bytes (take 16 data)) (data ! 16)
      else UnknownSegment seg_type data)"

text \<open>The flags and reserved bytes are skipped also where they are missing; the second length test then
  ends the loop.\<close>

function (sequential) parse_segments :: "bytes \<Rightarrow> segment list" where
  "parse_segments (seg_type # len # rest) =
     (let seg_len = unat len; data_len = seg_len - 2 in
      if seg_len < 2 \<or> seg_len - 2 > length rest then []
      else if 2 + data_len > length rest then []
      else
        let data = take data_len (drop 2 rest) in
        (if seg_type = 11 then SubList (parse_segments data) else plain_segment seg_type data)
          # parse_segments (drop (2 + data_len) rest))"
| "parse_segments _ = []"
  by pat_completeness auto
termination
  by (relation "measure length") auto

text \<open>The sub-TLV walk shared by \<open>parse_srpolicy_candidate_paths\<close>, \<open>parse_segment_lists\<close> and
  \<open>extract_path_name\<close>: type (1), length (2), value, up to the first truncated one.\<close>

fun sub_tlvs :: "bytes \<Rightarrow> (u8 \<times> bytes) list" where
  "sub_tlvs (t # l0 # l1 # rest) =
     (let n = unat (from_be_bytes [l0, l1] :: u16) in
      if n > length rest then [] else (t, take n rest) # sub_tlvs (drop n rest))"
| "sub_tlvs _ = []"

definition parse_segment_lists :: "bytes \<Rightarrow> segment_list list" where
  "parse_segment_lists buf =
     concat (map (\<lambda>(sub_type, data).
       if sub_type = 132 \<and> length data \<ge> 4
       then [\<lparr>sl_weight = from_be_bytes (take 4 data), sl_segments = parse_segments (drop 4 data)\<rparr>]
       else []) (sub_tlvs buf))"

definition extract_path_name :: "bytes \<Rightarrow> string option" where
  "extract_path_name buf =
     (if length buf < 8 then None
      else find_map (\<lambda>(t, data). if t = 130 then Some (from_utf8_lossy data) else None)
        (sub_tlvs (drop 8 buf)))"

definition candidate_of :: "u8 \<times> bytes \<Rightarrow> candidate_path list" where
  "candidate_of tlv = (let (sub_type, sub_data) = tlv in
     if sub_type = 128 \<and> length sub_data \<ge> 8
     then [\<lparr>preference = from_be_bytes (take 4 (drop 4 sub_data)), path_name = extract_path_name sub_data,
            segment_lists = (if length sub_data > 8 then parse_segment_lists (drop 8 sub_data) else []),
            is_best_path = False\<rparr>]
     else [])"

text \<open>\<open>max_by_key\<close>: the position of the last maximum.\<close>

fun max_index :: "nat \<Rightarrow> (nat \<times> u32) option \<Rightarrow> u32 list \<Rightarrow> nat option" where
  "max_index i best [] = map_option fst best"
| "max_index i best (p # ps) = max_index (Suc i)
     (case best of None \<Rightarrow> Some (i, p) | Some (j, q) \<Rightarrow> if q \<le> p then Some (i, p) else Some (j, q)) ps"

definition parse_srpolicy_candidate_paths :: "bytes \<Rightarrow> candidate_path list" where
  "parse_srpolicy_candidate_paths buf =
     (let paths = concat (map candidate_of (sub_tlvs buf)) in
      case max_index 0 None (map preference paths) of
        None \<Rightarrow> paths
      | Some i \<Rightarrow> paths[i := (paths ! i)\<lparr>is_best_path := True\<rparr>])"

section \<open>Route target constraints\<close>

text \<open>\<open>buf_len\<close> is the length of the whole buffer, which the error reports.\<close>

fun rtc_loop :: "nat \<Rightarrow> bytes \<Rightarrow> rtc_nlri list result" where
  "rtc_loop buf_len [] = Ok []"
| "rtc_loop buf_len (len # rest) =
     (let prefix_len = unat len; octets = div_ceil8 prefix_len; pos = buf_len - length rest in
      if prefix_len = 0 then and_then (rtc_loop buf_len rest) (\<lambda>rs. Ok (Wildcard # rs))
      else if octets > length rest then Err (UnexpectedEof (pos + octets) buf_len)
      else
        let bytes = take octets rest;
            origin_as = (if octets \<ge> 4 then Some (from_be_bytes (take 4 bytes)) else None) in
        and_then (rtc_loop buf_len (drop octets rest)) (\<lambda>rs. Ok (Specific origin_as len bytes # rs)))"

definition decode_rtc_nlri :: "bytes \<Rightarrow> rtc_nlri list result" where
  "decode_rtc_nlri buf = rtc_loop (length buf) buf"

section \<open>Wire formats\<close>

fun policy_wire :: "sr_policy_nlri \<Rightarrow> bytes" where
  "policy_wire p = to_be_bytes 4 (distinguisher p) @ to_be_bytes 4 (color p) @ ip_wire (endpoint p)"

fun rtc_wire :: "rtc_nlri \<Rightarrow> bytes" where
  "rtc_wire Wildcard = [0]"
| "rtc_wire (Specific a len d) = len # d"

fun rtc_ok :: "rtc_nlri \<Rightarrow> bool" where
  "rtc_ok Wildcard \<longleftrightarrow> True"
| "rtc_ok (Specific a len d) \<longleftrightarrow> len \<noteq> 0 \<and> length d = div_ceil8 (unat len)
     \<and> a = (if length d \<ge> 4 then Some (from_be_bytes (take 4 d)) else None)"

text \<open>An MPLS label stack entry (RFC 3032): label (20), traffic class (3), bottom of stack (1), TTL (8).\<close>

definition label_stack_entry :: "nat \<Rightarrow> nat \<Rightarrow> bytes" where
  "label_stack_entry label low = nat_to_be 4 (label * 4096 + low)"

section \<open>Lemmas\<close>

lemma srpolicy_entry_wire:
  "(\<exists>a. endpoint p = (if v then IpV6 a else IpV4 (ucast a))) \<Longrightarrow> srpolicy_entry v (policy_wire p @ r) = Ok ([p], r)"
  by (cases v) (auto simp: srpolicy_entry_def reads Let_def)

lemma srpolicy_entry_total: "srpolicy_more v buf \<Longrightarrow> \<exists>ps r. srpolicy_entry v buf = Ok (ps, r)"
  by (auto simp: srpolicy_entry_def srpolicy_more_def Let_def reads)

lemma max_index_inv:
  assumes "j < length pre" "\<forall>k < length pre. pre ! k \<le> pre ! j" "\<forall>k < length pre. j < k \<longrightarrow> pre ! k < pre ! j"
  shows "\<exists>r. max_index (length pre) (Some (j, pre ! j)) ps = Some r \<and> r < length (pre @ ps)
    \<and> (\<forall>k < length (pre @ ps). (pre @ ps) ! k \<le> (pre @ ps) ! r)
    \<and> (\<forall>k < length (pre @ ps). r < k \<longrightarrow> (pre @ ps) ! k < (pre @ ps) ! r)"
  using assms
proof (induction ps arbitrary: pre j)
  case (Cons p ps)
  show ?case
  proof (cases "pre ! j \<le> p")
    case True
    then have "\<exists>r. max_index (length (pre @ [p])) (Some (length pre, (pre @ [p]) ! length pre)) ps = Some r \<and> r < length ((pre @ [p]) @ ps)
      \<and> (\<forall>k < length ((pre @ [p]) @ ps). ((pre @ [p]) @ ps) ! k \<le> ((pre @ [p]) @ ps) ! r)
      \<and> (\<forall>k < length ((pre @ [p]) @ ps). r < k \<longrightarrow> ((pre @ [p]) @ ps) ! k < ((pre @ [p]) @ ps) ! r)"
      using Cons.prems by (intro Cons.IH) (auto simp: nth_append less_Suc_eq intro: order_trans)
    with True show ?thesis by simp
  next
    case False
    then have "\<exists>r. max_index (length (pre @ [p])) (Some (j, (pre @ [p]) ! j)) ps = Some r \<and> r < length ((pre @ [p]) @ ps)
      \<and> (\<forall>k < length ((pre @ [p]) @ ps). ((pre @ [p]) @ ps) ! k \<le> ((pre @ [p]) @ ps) ! r)
      \<and> (\<forall>k < length ((pre @ [p]) @ ps). r < k \<longrightarrow> ((pre @ [p]) @ ps) ! k < ((pre @ [p]) @ ps) ! r)"
      using Cons.prems by (intro Cons.IH) (auto simp: nth_append less_Suc_eq)
    with False Cons.prems(1) show ?thesis by (simp add: nth_append)
  qed
qed (auto simp: nth_append)

lemma max_index_last_max:
  "ps \<noteq> [] \<Longrightarrow> \<exists>r. max_index 0 None ps = Some r \<and> r < length ps \<and> (\<forall>k < length ps. ps ! k \<le> ps ! r)
    \<and> (\<forall>k < length ps. r < k \<longrightarrow> ps ! k < ps ! r)"
proof (cases ps)
  case (Cons p qs)
  with max_index_inv [of 0 "[p]" qs] show ?thesis by simp
qed simp

lemma candidates_not_best: "c \<in> set (concat (map candidate_of ts)) \<Longrightarrow> \<not> is_best_path c"
  by (auto simp: candidate_of_def split: if_splits prod.splits)

lemma drop_bit_unat: "drop_bit 12 (w :: u32) = word_of_nat (unat w div 4096)"
proof -
  have "unat (drop_bit 12 w) = unat w div 4096"
    by (simp add: drop_bit_eq_div unat_div)
  then have "(word_of_nat (unat (drop_bit 12 w)) :: u32) = word_of_nat (unat w div 4096)"
    by (rule arg_cong)
  then show ?thesis by simp
qed

lemma rtc_loop_no_panic [panics]: "rtc_loop n buf \<noteq> Panic"
  by (induction n buf rule: rtc_loop.induct) (auto simp: Let_def and_then_Panic_iff)

lemma rtc_loop_wire:
  "\<forall>r \<in> set rs. rtc_ok r \<Longrightarrow> rtc_loop n (concat (map rtc_wire rs)) = Ok rs"
proof (induction rs)
  case (Cons r rs)
  then show ?case by (cases r) (auto simp: Let_def unat_eq_zero)
qed simp

section \<open>Properties\<close>

text \<open>SR Policy and route-target-constraint NLRI round-trip through their wire formats.\<close>

theorem srpolicy_rtc_roundtrip:
  assumes "\<forall>p \<in> set ps. \<exists>a. endpoint p = (if ipv6 then IpV6 a else IpV4 (ucast a))"
    and "\<forall>r \<in> set rs. rtc_ok r"
  shows "decode_srpolicy_nlri ipv6 (concat (map policy_wire ps)) = Ok ps
    \<and> decode_rtc_nlri (concat (map rtc_wire rs)) = Ok rs"
proof
  show "decode_srpolicy_nlri ipv6 (concat (map policy_wire ps)) = Ok ps"
  proof (rule srpolicy_loop.loop_encoded)
    fix p r assume "p \<in> set ps"
    with assms(1) have ep: "\<exists>a. endpoint p = (if ipv6 then IpV6 a else IpV4 (ucast a))" by blast
    then have "srpolicy_more ipv6 (policy_wire p @ r)"
      by (auto simp: srpolicy_more_def)
    with srpolicy_entry_wire [OF ep]
    show "srpolicy_more ipv6 (policy_wire p @ r) \<and> srpolicy_entry ipv6 (policy_wire p @ r) = Ok ([p], r)" by blast
  qed
  show "decode_rtc_nlri (concat (map rtc_wire rs)) = Ok rs"
    using rtc_loop_wire [OF assms(2)] by (simp add: decode_rtc_nlri_def)
qed

theorem srpolicy_rtc_roundtrip_witness:
  "decode_srpolicy_nlri False (concat (map policy_wire [\<lparr>distinguisher = 1, color = 100, endpoint = IpV4 0x0A000001\<rparr>]))
     = Ok [\<lparr>distinguisher = 1, color = 100, endpoint = IpV4 0x0A000001\<rparr>]
   \<and> decode_rtc_nlri (concat (map rtc_wire [Wildcard, Specific (Some 65000) 32 [0, 0, 0xFD, 0xE8]]))
     = Ok [Wildcard, Specific (Some 65000) 32 [0, 0, 0xFD, 0xE8]]"
  by (rule srpolicy_rtc_roundtrip)
    (simp_all add: div_ceil8_def from_be_bytes_def be_nat_Cons exI [of _ "0x0A000001 :: ipv6"])

text \<open>C33: Candidate path selection: among the candidate paths of a tunnel attribute exactly one is marked best,
  it has the highest preference, and of several with that preference it is the last.\<close>

theorem candidate_best_path:
  assumes "paths = parse_srpolicy_candidate_paths buf" and "paths \<noteq> []"
  shows "\<exists>i < length paths. (\<forall>j < length paths. is_best_path (paths ! j) \<longleftrightarrow> j = i)
    \<and> (\<forall>j < length paths. preference (paths ! j) \<le> preference (paths ! i))
    \<and> (\<forall>j < length paths. i < j \<longrightarrow> preference (paths ! j) < preference (paths ! i))"
proof -
  define qs where "qs = concat (map candidate_of (sub_tlvs buf))"
  have "paths = []" if "qs = []"
    using assms(1) that unfolding parse_srpolicy_candidate_paths_def Let_def qs_def [symmetric] by simp
  with assms(2) have "qs \<noteq> []" by blast
  then obtain i where i: "max_index 0 None (map preference qs) = Some i" "i < length qs"
    and mx: "\<forall>k < length qs. preference (qs ! k) \<le> preference (qs ! i)"
    and lst: "\<forall>k < length qs. i < k \<longrightarrow> preference (qs ! k) < preference (qs ! i)"
    using max_index_last_max [of "map preference qs"] by auto
  have p: "paths = qs[i := (qs ! i)\<lparr>is_best_path := True\<rparr>]"
    using assms(1) i(1) by (simp add: parse_srpolicy_candidate_paths_def qs_def Let_def)
  have "\<not> is_best_path (qs ! j)" if "j < length qs" for j
    using candidates_not_best [of "qs ! j" "sub_tlvs buf"] nth_mem [OF that] by (simp add: qs_def)
  then show ?thesis
    using i mx lst by (intro exI [of _ i]) (auto simp: p nth_list_update)
qed

theorem candidate_best_path_witness:
  "\<exists>i < length (parse_srpolicy_candidate_paths [128, 0, 8, 0, 0, 0, 0, 0, 0, 0, 100]).
     (\<forall>j < length (parse_srpolicy_candidate_paths [128, 0, 8, 0, 0, 0, 0, 0, 0, 0, 100]).
        is_best_path (parse_srpolicy_candidate_paths [128, 0, 8, 0, 0, 0, 0, 0, 0, 0, 100] ! j) \<longleftrightarrow> j = i)"
proof -
  have "parse_srpolicy_candidate_paths [128, 0, 8, 0, 0, 0, 0, 0, 0, 0, 100] \<noteq> []"
    by (simp add: parse_srpolicy_candidate_paths_def candidate_of_def extract_path_name_def from_be_bytes_def
        be_nat_Cons)
  from candidate_best_path [OF refl this] show ?thesis by blast
qed

text \<open>The label of an MPLS segment is read from the wrong bits: for a label stack entry carrying label
  \<open>L\<close> (20 bits, then traffic class, bottom-of-stack bit and TTL) the decoder returns \<open>L div 256\<close>.\<close>

theorem mpls_segment_label:
  assumes "label < 2 ^ 20" and "low < 4096"
  shows "seg_label (plain_segment 1 (label_stack_entry label low)) = word_of_nat (label div 256)"
proof -
  have n: "label * 4096 + low < 256 ^ 4" using assms by simp
  then have raw: "be_nat (take 3 (label_stack_entry label low)) = (label * 4096 + low) div 256"
    by (simp add: label_stack_entry_def take_nat_to_be be_nat_nat_to_be less_mult_imp_div_less)
  have "(label * 4096 + low) div 256 < 2 ^ 32" using n by (simp add: less_mult_imp_div_less)
  then have "unat (from_be_bytes (take 3 (label_stack_entry label low)) :: u32) = (label * 4096 + low) div 256"
    by (simp add: from_be_bytes_def raw unat_of_nat)
  then have "drop_bit 12 (from_be_bytes (take 3 (label_stack_entry label low)) :: u32)
    = word_of_nat ((label * 4096 + low) div 256 div 4096)"
    using drop_bit_unat [of "from_be_bytes (take 3 (label_stack_entry label low)) :: u32"] by simp
  also have "(label * 4096 + low) div 256 div 4096 = label div 256"
    using assms(2) by (simp add: div_mult2_eq [symmetric])
  finally show ?thesis
    by (simp add: plain_segment_def label_stack_entry_def Let_def)
qed

theorem mpls_segment_label_witness:
  "seg_label (plain_segment 1 (label_stack_entry 16000 0x1FF)) = word_of_nat (16000 div 256)"
  by (rule mpls_segment_label) simp_all

end
