(* ===== verification/Bgp_Ls.thy ===== *)
theory Bgp_Ls
  imports Sr_Policy
begin

text \<open>
  \<open>crates/rbmp-core/src/bgp/bgpls.rs\<close> and the BGP-LS types of \<open>bgp/types.rs\<close>: link-state NLRI (RFC 7752,
  9514) and the BGP-LS path attribute. A 32-bit float of the attribute is its bit pattern.
\<close>

section \<open>Types\<close>

datatype bgp_ls_nlri_type = NodeType | LinkType | Ipv4PrefixType | Ipv6PrefixType | Srv6SidType
  | UnknownNlriType u16

definition bgp_ls_nlri_type_from :: "u16 \<Rightarrow> bgp_ls_nlri_type" where
  "bgp_ls_nlri_type_from v = (if v = 1 then NodeType else if v = 2 then LinkType
     else if v = 3 then Ipv4PrefixType else if v = 4 then Ipv6PrefixType
     else if v = 6 then Srv6SidType else UnknownNlriType v)"

datatype bgp_ls_protocol = IsIsLevel1 | IsIsLevel2 | Ospfv2 | Direct | StaticConfig | Ospfv3
  | UnknownProtocol u8

definition bgp_ls_protocol_from :: "u8 \<Rightarrow> bgp_ls_protocol" where
  "bgp_ls_protocol_from v = (if v = 1 then IsIsLevel1 else if v = 2 then IsIsLevel2
     else if v = 3 then Ospfv2 else if v = 4 then Direct else if v = 5 then StaticConfig
     else if v = 6 then Ospfv3 else UnknownProtocol v)"

datatype router_id = RouterId (router_bytes: bytes)

definition router_id_string :: "router_id \<Rightarrow> string" where
  "router_id_string r = (let b = router_bytes r in
     if length b = 4 then join_with ''.'' (map (\<lambda>x. dec (unat x)) b) else join_with '':'' (map hex2 b))"

record node_descriptor =
  nd_asn :: "u32 option"
  bgp_ls_id :: "u32 option"
  ospf_area :: "u32 option"
  igp_router :: "router_id option"

definition default_node :: node_descriptor where
  "default_node = \<lparr>nd_asn = None, bgp_ls_id = None, ospf_area = None, igp_router = None\<rparr>"

record link_descriptor =
  local_addr :: "ip_addr option"
  remote_addr :: "ip_addr option"
  local_id :: "u32 option"
  remote_id :: "u32 option"

definition default_link :: link_descriptor where
  "default_link = \<lparr>local_addr = None, remote_addr = None, local_id = None, remote_id = None\<rparr>"

record srv6_sid_nlri =
  srv6_protocol_id :: u8
  srv6_identifier :: u64
  srv6_local_node :: node_descriptor
  srv6_sid :: bytes
  endpoint_behavior :: "u16 option"
  sid_structure :: "(u8 \<times> u8 \<times> u8 \<times> u8) option"

datatype bgp_ls_nlri =
    LsNode bgp_ls_protocol u64 node_descriptor
  | LsLink bgp_ls_protocol u64 node_descriptor node_descriptor link_descriptor
  | LsPrefix bgp_ls_protocol u64 node_descriptor prefix
  | LsSrv6Sid srv6_sid_nlri
  | LsUnknown u16 bytes

definition behavior_name :: "u16 \<Rightarrow> string" where
  "behavior_name b = (if b = 1 then ''End'' else if b = 2 then ''End.X'' else if b = 3 then ''End.T''
     else if b = 4 then ''End.DX6'' else if b = 5 then ''End.DX4'' else if b = 6 then ''End.DT6''
     else if b = 7 then ''End.DT46'' else if b = 8 then ''End.DT4'' else if b = 9 then ''End.B6.Encaps''
     else if b = 10 then ''End.BM'' else if b = 0x41 then ''End.X (PSP)'' else if b = 0x48 then ''End.OP''
     else if b = 0x49 then ''End.Otp'' else ''Unknown'')"

section \<open>Descriptors\<close>

text \<open>The TLV walk of all the decoders: type (2), length (2), value, up to the first truncated one.\<close>

fun ls_tlvs :: "bytes \<Rightarrow> (u16 \<times> bytes) list" where
  "ls_tlvs (t0 # t1 # l0 # l1 # rest) =
     (let n = unat (from_be_bytes [l0, l1] :: u16) in
      if n > length rest then [] else (from_be_bytes [t0, t1], take n rest) # ls_tlvs (drop n rest))"
| "ls_tlvs _ = []"

definition node_sub_tlv :: "u16 \<times> bytes \<Rightarrow> node_descriptor \<Rightarrow> node_descriptor" where
  "node_sub_tlv tlv nd = (let (sub_type, val) = tlv in
     if sub_type = 512 \<and> length val \<ge> 4 then nd\<lparr>nd_asn := Some (from_be_bytes (take 4 val))\<rparr>
     else if sub_type = 513 \<and> length val \<ge> 4 then nd\<lparr>bgp_ls_id := Some (from_be_bytes (take 4 val))\<rparr>
     else if sub_type = 514 \<and> length val \<ge> 4 then nd\<lparr>ospf_area := Some (from_be_bytes (take 4 val))\<rparr>
     else if sub_type = 515 then nd\<lparr>igp_router := Some (RouterId val)\<rparr>
     else nd)"

definition decode_node_sub_tlvs :: "bytes \<Rightarrow> node_descriptor \<Rightarrow> node_descriptor" where
  "decode_node_sub_tlvs buf nd = fold node_sub_tlv (ls_tlvs buf) nd"

fun decode_node_descriptor :: "bytes \<Rightarrow> node_descriptor" where
  "decode_node_descriptor (t0 # t1 # l0 # l1 # rest) =
     (let outer_len = unat (from_be_bytes [l0, l1] :: u16) in
      if length rest < outer_len then default_node
      else decode_node_sub_tlvs (take outer_len rest) default_node)"
| "decode_node_descriptor _ = default_node"

section \<open>NLRI\<close>

definition link_tlv ::
  "u16 \<times> bytes \<Rightarrow> node_descriptor \<times> node_descriptor \<times> link_descriptor
    \<Rightarrow> node_descriptor \<times> node_descriptor \<times> link_descriptor" where
  "link_tlv tlv st = (let (tlv_type, val) = tlv; (l, r, link) = st in
     if tlv_type = 256 then (decode_node_sub_tlvs val l, r, link)
     else if tlv_type = 257 then (l, decode_node_sub_tlvs val r, link)
     else if tlv_type = 258 \<and> length val \<ge> 8 then
       (l, r, link\<lparr>local_id := Some (from_be_bytes (take 4 val)),
                   remote_id := Some (from_be_bytes (take 4 (drop 4 val)))\<rparr>)
     else if tlv_type = 259 \<and> length val \<ge> 4 then
       (l, r, link\<lparr>local_addr := Some (IpV4 (from_be_bytes (take 4 val)))\<rparr>)
     else if tlv_type = 260 \<and> length val \<ge> 4 then
       (l, r, link\<lparr>remote_addr := Some (IpV4 (from_be_bytes (take 4 val)))\<rparr>)
     else if tlv_type = 261 \<and> length val \<ge> 16 then
       (l, r, link\<lparr>local_addr := Some (IpV6 (from_be_bytes (take 16 val)))\<rparr>)
     else if tlv_type = 262 \<and> length val \<ge> 16 then
       (l, r, link\<lparr>remote_addr := Some (IpV6 (from_be_bytes (take 16 val)))\<rparr>)
     else st)"

definition decode_link_nlri :: "bgp_ls_protocol \<Rightarrow> u64 \<Rightarrow> bytes \<Rightarrow> bgp_ls_nlri" where
  "decode_link_nlri protocol identifier buf =
     (let (l, r, link) = fold link_tlv (ls_tlvs buf) (default_node, default_node, default_link) in
      LsLink protocol identifier l r link)"

text \<open>The IP reachability TLV: the address array panics on an over-long prefix, the network constructor
  only returns an error, which \<open>ok()\<close> drops.\<close>

definition reach_prefix :: "externals \<Rightarrow> bool \<Rightarrow> bytes \<Rightarrow> prefix option \<Rightarrow> prefix option result" where
  "reach_prefix X is_v6 val prefix_opt =
     and_then (at val 0) (\<lambda>plen.
     let octets = div_ceil8 (unat plen) in
     if length val > octets then
       and_then (slice val 1 (1 + octets)) (\<lambda>b.
       if is_v6 then
         and_then (fill_array 16 b) (\<lambda>a.
         Ok (map_option (\<lambda>n. PrefixV6 (ipv6net_trunc X n)) (ipv6net_new X (from_be_bytes a) plen)))
       else
         and_then (fill_array 4 b) (\<lambda>a.
         Ok (map_option (\<lambda>n. PrefixV4 (ipv4net_trunc X n)) (ipv4net_new X (from_be_bytes a) plen))))
     else Ok prefix_opt)"

definition prefix_tlv ::
  "externals \<Rightarrow> bool \<Rightarrow> u16 \<times> bytes \<Rightarrow> node_descriptor \<times> prefix option
    \<Rightarrow> (node_descriptor \<times> prefix option) result" where
  "prefix_tlv X is_v6 tlv st = (let (tlv_type, val) = tlv; (l, p) = st in
     if tlv_type = 256 then Ok (decode_node_sub_tlvs val l, p)
     else if tlv_type = 265 \<and> val \<noteq> [] then
       and_then (reach_prefix X is_v6 val p) (\<lambda>p'. Ok (l, p'))
     else Ok st)"

fun fold_tlvs :: "('t \<Rightarrow> 's \<Rightarrow> 's result) \<Rightarrow> 't list \<Rightarrow> 's \<Rightarrow> 's result" where
  "fold_tlvs f [] st = Ok st"
| "fold_tlvs f (t # ts) st = and_then (f t st) (fold_tlvs f ts)"

text \<open>Without a reachability TLV the prefix is the default route; \<open>unwrap\<close> panics if the network
  constructor refuses length 0.\<close>

definition default_prefix :: "externals \<Rightarrow> bool \<Rightarrow> prefix result" where
  "default_prefix X is_v6 =
     (if is_v6 then (case ipv6net_new X ipv6_unspecified 0 of Some n \<Rightarrow> Ok (PrefixV6 n) | None \<Rightarrow> Panic)
      else (case ipv4net_new X ipv4_unspecified 0 of Some n \<Rightarrow> Ok (PrefixV4 n) | None \<Rightarrow> Panic))"

definition decode_prefix_nlri ::
  "externals \<Rightarrow> bgp_ls_protocol \<Rightarrow> u64 \<Rightarrow> bytes \<Rightarrow> bool \<Rightarrow> bgp_ls_nlri result" where
  "decode_prefix_nlri X protocol identifier buf is_v6 =
     and_then (fold_tlvs (prefix_tlv X is_v6) (ls_tlvs buf) (default_node, None)) (\<lambda>(l, prefix_opt).
     and_then (default_prefix X is_v6) (\<lambda>d.
     Ok (LsPrefix protocol identifier l (case prefix_opt of Some p \<Rightarrow> p | None \<Rightarrow> d))))"

definition sid_sub_tlv ::
  "u16 \<times> bytes \<Rightarrow> u16 option \<times> (u8 \<times> u8 \<times> u8 \<times> u8) option \<Rightarrow> u16 option \<times> (u8 \<times> u8 \<times> u8 \<times> u8) option" where
  "sid_sub_tlv tlv st = (let (sub_type, sub_data) = tlv; (b, s) = st in
     if sub_type = 1 \<and> length sub_data \<ge> 2 then (Some (from_be_bytes (take 2 sub_data)), s)
     else if sub_type = 2 \<and> length sub_data \<ge> 4
     then (b, Some (sub_data ! 0, sub_data ! 1, sub_data ! 2, sub_data ! 3))
     else st)"

definition sid_tlv ::
  "u16 \<times> bytes \<Rightarrow> bytes \<times> u16 option \<times> (u8 \<times> u8 \<times> u8 \<times> u8) option
    \<Rightarrow> bytes \<times> u16 option \<times> (u8 \<times> u8 \<times> u8 \<times> u8) option" where
  "sid_tlv tlv st = (let (tlv_type, tlv_data) = tlv; (sid, bs) = st in
     if tlv_type = 1 \<and> length tlv_data \<ge> 16
     then (take 16 tlv_data, fold sid_sub_tlv (ls_tlvs (drop 16 tlv_data)) bs)
     else st)"

definition decode_srv6_sid_nlri :: "u8 \<Rightarrow> u64 \<Rightarrow> bytes \<Rightarrow> bgp_ls_nlri" where
  "decode_srv6_sid_nlri protocol_id identifier buf =
     (let nd_consumed = (if length buf \<ge> 4
            then min (unat (from_be_bytes (take 2 (drop 2 buf)) :: u16) + 4) (length buf)
            else length buf);
          (sid, behavior, structure) = fold sid_tlv (ls_tlvs (drop nd_consumed buf)) (replicate 16 0, None, None) in
      LsSrv6Sid \<lparr>srv6_protocol_id = protocol_id, srv6_identifier = identifier,
        srv6_local_node = decode_node_descriptor buf, srv6_sid = sid,
        endpoint_behavior = behavior, sid_structure = structure\<rparr>)"

definition decode_one :: "externals \<Rightarrow> u16 \<Rightarrow> bytes \<Rightarrow> bgp_ls_nlri result" where
  "decode_one X nlri_type buf =
     (if length buf < 9 then Ok (LsUnknown nlri_type buf) else
      and_then (at buf 0) (\<lambda>proto.
      and_then (be64_at buf 1) (\<lambda>identifier.
      and_then (slice_from buf 9) (\<lambda>rest.
      let protocol = bgp_ls_protocol_from proto in
      case bgp_ls_nlri_type_from nlri_type of
        NodeType \<Rightarrow> Ok (LsNode protocol identifier (decode_node_descriptor rest))
      | LinkType \<Rightarrow> Ok (decode_link_nlri protocol identifier rest)
      | Ipv4PrefixType \<Rightarrow> decode_prefix_nlri X protocol identifier rest (nlri_type = 4)
      | Ipv6PrefixType \<Rightarrow> decode_prefix_nlri X protocol identifier rest (nlri_type = 4)
      | Srv6SidType \<Rightarrow> Ok (decode_srv6_sid_nlri proto identifier rest)
      | UnknownNlriType _ \<Rightarrow> Ok (LsUnknown nlri_type buf)))))"

definition bgpls_entry :: "externals \<Rightarrow> bytes \<Rightarrow> (bgp_ls_nlri list \<times> bytes) result" where
  "bgpls_entry X buf =
     and_then (get_u16 buf) (\<lambda>(nlri_type, buf).
     and_then (get_u16 buf) (\<lambda>(len, buf).
     if length buf < unat len then Err (UnexpectedEof (unat len) (length buf)) else
     and_then (copy_to_bytes (unat len) buf) (\<lambda>(nlri_bytes, buf).
     and_then (decode_one X nlri_type nlri_bytes) (\<lambda>nlri. Ok ([nlri], buf)))))"

lemma bgpls_entry_rest: "bgpls_entry X buf = Ok (ns, r) \<Longrightarrow> length r < length buf"
  by (auto simp: bgpls_entry_def and_then_Ok_iff split: if_splits dest!: reader_lengths)

function decode_bgpls_nlri :: "externals \<Rightarrow> bytes \<Rightarrow> bgp_ls_nlri list result" where
  "decode_bgpls_nlri X [] = Ok []"
| "decode_bgpls_nlri X (b # bs) =
     (if 4 \<le> length (b # bs) then
        and_then (bgpls_entry X (b # bs)) (\<lambda>(ns, buf).
        and_then (decode_bgpls_nlri X buf) (\<lambda>ms. Ok (ns @ ms)))
      else Ok [])"
  by pat_completeness auto
termination
  by (relation "measure (\<lambda>(X, buf). length buf)") (use bgpls_entry_rest in fastforce)+

interpretation bgpls_loop: byte_loop "\<lambda>buf. 4 \<le> length buf" "bgpls_entry X" "decode_bgpls_nlri X" for X
  by (rule byte_loopI) (auto dest: bgpls_entry_rest)

section \<open>The BGP-LS attribute\<close>

record sr_capabilities =
  srcap_flags :: u8
  srgb_ranges :: "(u32 \<times> u32) list"

record sr_local_block =
  srlb_flags :: u8
  srlb_ranges :: "(u32 \<times> u32) list"

record adj_sid_entry =
  adj_flags :: u8
  adj_weight :: u8
  adj_label :: u32

record lan_adj_sid_entry =
  lan_flags :: u8
  lan_weight :: u8
  lan_neighbor_id :: bytes
  lan_label :: u32

record ls_prefix_sid =
  psid_flags :: u8
  psid_algorithm :: u8
  psid_label :: u32

record flex_algo_def =
  algo_id :: u8
  metric_type :: u8
  calc_type :: u8
  priority :: u8
  exclude_any :: "u32 option"
  include_any :: "u32 option"
  include_all :: "u32 option"

record bgp_ls_attribute =
  node_flags :: "u8 option"
  node_name :: "string option"
  isis_area_id :: "bytes option"
  ipv4_router_id :: "ipv4 option"
  ipv6_router_id :: "ipv6 option"
  sr_capabilities :: "sr_capabilities option"
  sr_algorithm :: bytes
  sr_local_block :: "sr_local_block option"
  link_metric_igp :: "u32 option"
  link_metric_te :: "u32 option"
  admin_group :: "u32 option"
  max_bandwidth :: "u32 option"
  max_reservable_bw :: "u32 option"
  unreserved_bw :: "u32 list"
  srlg :: "u32 list"
  adj_sid :: "adj_sid_entry list"
  lan_adj_sid :: "lan_adj_sid_entry list"
  peer_node_sid :: "u32 option"
  peer_adj_sid :: "u32 option"
  peer_set_sid :: "u32 option"
  prefix_metric :: "u32 option"
  ospf_fwd_addr :: "ip_addr option"
  ls_prefix_sids :: "ls_prefix_sid list"
  flex_algo_defs :: "flex_algo_def list"
  flex_algo_prefix_metrics :: "(u8 \<times> u32) list"
  unknown_tlvs :: "(u16 \<times> bytes) list"

definition default_ls_attribute :: bgp_ls_attribute where
  "default_ls_attribute = \<lparr>node_flags = None, node_name = None, isis_area_id = None,
     ipv4_router_id = None, ipv6_router_id = None, sr_capabilities = None, sr_algorithm = [],
     sr_local_block = None, link_metric_igp = None, link_metric_te = None, admin_group = None,
     max_bandwidth = None, max_reservable_bw = None, unreserved_bw = [], srlg = [], adj_sid = [],
     lan_adj_sid = [], peer_node_sid = None, peer_adj_sid = None, peer_set_sid = None,
     prefix_metric = None, ospf_fwd_addr = None, ls_prefix_sids = [], flex_algo_defs = [],
     flex_algo_prefix_metrics = [], unknown_tlvs = []\<rparr>"

text \<open>The inner loops. SRGB blocks: range (3), sub-TLV type and length, base (3); SRLB blocks: range (3),
  base (3); arrays of 32-bit values.\<close>

fun srgb_blocks :: "bytes \<Rightarrow> (u32 \<times> u32) list" where
  "srgb_blocks (r0 # r1 # r2 # t # l # b0 # b1 # b2 # rest) =
     (from_be_bytes [b0, b1, b2], from_be_bytes [r0, r1, r2]) # srgb_blocks rest"
| "srgb_blocks _ = []"

fun srlb_blocks :: "bytes \<Rightarrow> (u32 \<times> u32) list" where
  "srlb_blocks (r0 # r1 # r2 # b0 # b1 # b2 # rest) =
     (from_be_bytes [b0, b1, b2], from_be_bytes [r0, r1, r2]) # srlb_blocks rest"
| "srlb_blocks _ = []"

fun u32_array :: "bytes \<Rightarrow> u32 list" where
  "u32_array (a # b # c # d # rest) = from_be_bytes [a, b, c, d] # u32_array rest"
| "u32_array _ = []"

definition flex_sub_tlv :: "u16 \<times> bytes \<Rightarrow> flex_algo_def \<Rightarrow> flex_algo_def" where
  "flex_sub_tlv tlv d = (let (st, sv) = tlv in
     if length sv \<ge> 4 then
       let v = from_be_bytes (take 4 sv) in
       if st = 1 then d\<lparr>exclude_any := Some v\<rparr>
       else if st = 2 then d\<lparr>include_any := Some v\<rparr>
       else if st = 3 then d\<lparr>include_all := Some v\<rparr>
       else d
     else d)"

definition flex_algo_of :: "bytes \<Rightarrow> flex_algo_def" where
  "flex_algo_of data = fold flex_sub_tlv (ls_tlvs (drop 4 data))
     \<lparr>algo_id = data ! 0, metric_type = data ! 1, calc_type = data ! 2, priority = data ! 3,
      exclude_any = None, include_any = None, include_all = None\<rparr>"

text \<open>The three groups of the \<open>match tlv_type\<close>: node, link and prefix attributes. \<open>None\<close> stands for a
  type or a length the arms of the group do not take.\<close>

definition node_attribute :: "u16 \<Rightarrow> bytes \<Rightarrow> bgp_ls_attribute \<Rightarrow> bgp_ls_attribute option" where
  "node_attribute t data attr = (let n = length data in
     if t = 1024 \<and> n \<ge> 1 then Some (attr\<lparr>node_flags := Some (data ! 0)\<rparr>)
     else if t = 1026 then Some (attr\<lparr>node_name := Some (from_utf8_lossy data)\<rparr>)
     else if t = 1027 then Some (attr\<lparr>isis_area_id := Some data\<rparr>)
     else if t = 1028 \<and> n = 4 then Some (attr\<lparr>ipv4_router_id := Some (from_be_bytes data)\<rparr>)
     else if t = 1029 \<and> n = 16 then Some (attr\<lparr>ipv6_router_id := Some (from_be_bytes data)\<rparr>)
     else if t = 1034 \<and> n \<ge> 2 then
       Some (attr\<lparr>sr_capabilities := Some \<lparr>srcap_flags = data ! 0, srgb_ranges = srgb_blocks (drop 2 data)\<rparr>\<rparr>)
     else if t = 1035 then Some (attr\<lparr>sr_algorithm := data\<rparr>)
     else if t = 1036 \<and> n \<ge> 2 then
       Some (attr\<lparr>sr_local_block := Some \<lparr>srlb_flags = data ! 0, srlb_ranges = srlb_blocks (drop 2 data)\<rparr>\<rparr>)
     else if t = 1039 \<and> n \<ge> 4 then Some (attr\<lparr>flex_algo_defs := flex_algo_defs attr @ [flex_algo_of data]\<rparr>)
     else if t = 1044 \<and> n \<ge> 5 then
       Some (attr\<lparr>flex_algo_prefix_metrics := flex_algo_prefix_metrics attr
         @ [(data ! 0, from_be_bytes (take 4 (drop 1 data)))]\<rparr>)
     else None)"

definition link_attribute :: "u16 \<Rightarrow> bytes \<Rightarrow> bgp_ls_attribute \<Rightarrow> bgp_ls_attribute option" where
  "link_attribute t data attr = (let n = length data; label = from_be_bytes (take 3 (drop 4 data)) in
     if t = 1081 \<and> n = 4 then Some (attr\<lparr>max_bandwidth := Some (from_be_bytes data)\<rparr>)
     else if t = 1082 \<and> n = 4 then Some (attr\<lparr>max_reservable_bw := Some (from_be_bytes data)\<rparr>)
     else if t = 1083 \<and> n = 32 then Some (attr\<lparr>unreserved_bw := unreserved_bw attr @ u32_array data\<rparr>)
     else if t = 1088 \<and> n = 4 then Some (attr\<lparr>admin_group := Some (from_be_bytes data)\<rparr>)
     else if t = 1092 \<and> n = 4 then Some (attr\<lparr>link_metric_te := Some (from_be_bytes data)\<rparr>)
     else if t = 1094 then Some (attr\<lparr>srlg := srlg attr @ u32_array data\<rparr>)
     else if t = 1095 \<and> 1 \<le> n \<and> n \<le> 4 then Some (attr\<lparr>link_metric_igp := Some (from_be_bytes data)\<rparr>)
     else if t = 1099 \<and> n \<ge> 7 then
       Some (attr\<lparr>adj_sid := adj_sid attr
         @ [\<lparr>adj_flags = data ! 0, adj_weight = data ! 1, adj_label = label\<rparr>]\<rparr>)
     else if t = 1100 \<and> n \<ge> 14 then
       Some (attr\<lparr>lan_adj_sid := lan_adj_sid attr
         @ [\<lparr>lan_flags = data ! 0, lan_weight = data ! 1, lan_neighbor_id = take 7 (drop 2 data),
             lan_label = from_be_bytes (take 3 (drop 11 data))\<rparr>]\<rparr>)
     else if t = 1101 \<and> n \<ge> 7 then Some (attr\<lparr>peer_node_sid := Some label\<rparr>)
     else if t = 1102 \<and> n \<ge> 7 then Some (attr\<lparr>peer_adj_sid := Some label\<rparr>)
     else if t = 1103 \<and> n \<ge> 7 then Some (attr\<lparr>peer_set_sid := Some label\<rparr>)
     else None)"

definition prefix_attribute :: "u16 \<Rightarrow> bytes \<Rightarrow> bgp_ls_attribute \<Rightarrow> bgp_ls_attribute option" where
  "prefix_attribute t data attr = (let n = length data in
     if t = 1155 \<and> n = 4 then Some (attr\<lparr>prefix_metric := Some (from_be_bytes data)\<rparr>)
     else if t = 1156 \<and> n = 4 then Some (attr\<lparr>ospf_fwd_addr := Some (IpV4 (from_be_bytes data))\<rparr>)
     else if t = 1156 \<and> n = 16 then Some (attr\<lparr>ospf_fwd_addr := Some (IpV6 (from_be_bytes data))\<rparr>)
     else if t = 1158 \<and> n \<ge> 7 then
       Some (attr\<lparr>ls_prefix_sids := ls_prefix_sids attr
         @ [\<lparr>psid_flags = data ! 0, psid_algorithm = data ! 1,
             psid_label = from_be_bytes (take (if n \<ge> 8 then 4 else 3) (drop 4 data))\<rparr>]\<rparr>)
     else None)"

definition ls_attribute_tlv :: "u16 \<times> bytes \<Rightarrow> bgp_ls_attribute \<Rightarrow> bgp_ls_attribute" where
  "ls_attribute_tlv tlv attr = (let (t, data) = tlv in
     case node_attribute t data attr of Some a \<Rightarrow> a | None \<Rightarrow>
     (case link_attribute t data attr of Some a \<Rightarrow> a | None \<Rightarrow>
     (case prefix_attribute t data attr of Some a \<Rightarrow> a | None \<Rightarrow>
       attr\<lparr>unknown_tlvs := unknown_tlvs attr @ [(t, data)]\<rparr>)))"

definition parse_bgpls_attribute :: "bytes \<Rightarrow> bgp_ls_attribute" where
  "parse_bgpls_attribute buf = fold ls_attribute_tlv (ls_tlvs buf) default_ls_attribute"

section \<open>Lemmas\<close>

text \<open>TLV encoding, and that the walk reads it back.\<close>

definition ls_tlv_wire :: "u16 \<times> bytes \<Rightarrow> bytes" where
  "ls_tlv_wire t = to_be_bytes 2 (fst t) @ to_be_bytes 2 (word_of_nat (length (snd t)) :: u16) @ snd t"

lemma ls_tlvs_wire:
  "\<forall>t \<in> set ts. length (snd t) < 65536 \<Longrightarrow> ls_tlvs (concat (map ls_tlv_wire ts)) = ts"
proof (induction ts)
  case (Cons t ts)
  then have u: "unat (word_of_nat (length (snd t)) :: u16) = length (snd t)"
    by (intro unat_word_of_nat) simp
  obtain l0 l1 where l: "to_be_bytes 2 (word_of_nat (length (snd t)) :: u16) = [l0, l1]"
    "from_be_bytes [l0, l1] = (word_of_nat (length (snd t)) :: u16)"
    by (rule to_be_bytes_2E)
  obtain t0 t1 where t: "to_be_bytes 2 (fst t) = [t0, t1]" "from_be_bytes [t0, t1] = fst t"
    by (rule to_be_bytes_2E)
  from Cons u l t show ?case by (simp add: ls_tlv_wire_def)
qed simp

text \<open>The types and lengths RFC 7752, 9085 and 9350 define and the parser reads.\<close>

definition ls_recognised :: "u16 \<times> bytes \<Rightarrow> bool" where
  "ls_recognised tlv \<longleftrightarrow> (let t = fst tlv; n = length (snd tlv) in
     t \<in> {1026, 1027, 1035, 1094} \<or> t = 1024 \<and> n \<ge> 1 \<or> t \<in> {1034, 1036} \<and> n \<ge> 2
     \<or> t = 1039 \<and> n \<ge> 4 \<or> t = 1044 \<and> n \<ge> 5 \<or> t \<in> {1099, 1101, 1102, 1103, 1158} \<and> n \<ge> 7
     \<or> t = 1100 \<and> n \<ge> 14 \<or> t \<in> {1028, 1081, 1082, 1088, 1092, 1155, 1156} \<and> n = 4
     \<or> t \<in> {1029, 1156} \<and> n = 16 \<or> t = 1083 \<and> n = 32 \<or> t = 1095 \<and> 1 \<le> n \<and> n \<le> 4)"

lemma ls_attribute_tlv_unknown:
  "unknown_tlvs (ls_attribute_tlv t attr) = unknown_tlvs attr @ (if ls_recognised t then [] else [t])"
  by (cases t)
    (simp add: ls_attribute_tlv_def ls_recognised_def node_attribute_def link_attribute_def
      prefix_attribute_def Let_def)

lemma fold_ls_attribute_unknown:
  "unknown_tlvs (fold ls_attribute_tlv ts attr) = unknown_tlvs attr @ filter (\<lambda>t. \<not> ls_recognised t) ts"
  by (induction ts arbitrary: attr) (simp_all add: ls_attribute_tlv_unknown)

lemma reach_prefix_Panic_iff:
  "val \<noteq> [] \<Longrightarrow> reach_prefix X is_v6 val p = Panic \<longleftrightarrow>
    (if is_v6 then 128 else 32) < unat (val ! 0) \<and> div_ceil8 (unat (val ! 0)) < length val"
  by (auto simp: reach_prefix_def and_then_Panic_iff at_def slice_def Let_def div_ceil8_def split: if_splits)

context ipnet
begin

lemma default_prefix_Ok: "\<exists>p. default_prefix X v = Ok p"
  by (simp add: default_prefix_def v4_new v6_new)

end

section \<open>Wire formats\<close>

definition opt_tlv :: "u16 \<Rightarrow> ('a \<Rightarrow> bytes) \<Rightarrow> 'a option \<Rightarrow> (u16 \<times> bytes) list" where
  "opt_tlv t enc v = (case v of None \<Rightarrow> [] | Some x \<Rightarrow> [(t, enc x)])"

definition node_tlvs :: "node_descriptor \<Rightarrow> (u16 \<times> bytes) list" where
  "node_tlvs nd = opt_tlv 512 (to_be_bytes 4) (nd_asn nd) @ opt_tlv 513 (to_be_bytes 4) (bgp_ls_id nd)
     @ opt_tlv 514 (to_be_bytes 4) (ospf_area nd) @ opt_tlv 515 router_bytes (igp_router nd)"

definition node_wire :: "node_descriptor \<Rightarrow> bytes" where
  "node_wire nd = concat (map ls_tlv_wire (node_tlvs nd))"

definition node_ok :: "node_descriptor \<Rightarrow> bool" where
  "node_ok nd \<longleftrightarrow> (\<forall>r. igp_router nd = Some r \<longrightarrow> length (router_bytes r) \<le> 8)"

fun addr_tlv :: "u16 \<Rightarrow> u16 \<Rightarrow> ip_addr option \<Rightarrow> (u16 \<times> bytes) list" where
  "addr_tlv t4 t6 None = []"
| "addr_tlv t4 t6 (Some (IpV4 a)) = [(t4, to_be_bytes 4 a)]"
| "addr_tlv t4 t6 (Some (IpV6 a)) = [(t6, to_be_bytes 16 a)]"

definition id_tlv :: "link_descriptor \<Rightarrow> (u16 \<times> bytes) list" where
  "id_tlv link = (case (local_id link, remote_id link) of
     (Some l, Some r) \<Rightarrow> [(258, to_be_bytes 4 l @ to_be_bytes 4 r)] | _ \<Rightarrow> [])"

definition link_tlvs :: "node_descriptor \<Rightarrow> node_descriptor \<Rightarrow> link_descriptor \<Rightarrow> (u16 \<times> bytes) list" where
  "link_tlvs l r link = (256, node_wire l) # (257, node_wire r) # id_tlv link
     @ addr_tlv 259 261 (local_addr link) @ addr_tlv 260 262 (remote_addr link)"

fun protocol_code :: "bgp_ls_protocol \<Rightarrow> u8" where
  "protocol_code IsIsLevel1 = 1"
| "protocol_code IsIsLevel2 = 2"
| "protocol_code Ospfv2 = 3"
| "protocol_code Direct = 4"
| "protocol_code StaticConfig = 5"
| "protocol_code Ospfv3 = 6"
| "protocol_code (UnknownProtocol v) = v"

text \<open>Node and link NLRI: value, type, and what makes them well formed.\<close>

fun ls_value :: "bgp_ls_nlri \<Rightarrow> bytes" where
  "ls_value (LsNode p i nd) = protocol_code p # to_be_bytes 8 i @ ls_tlv_wire (256, node_wire nd)"
| "ls_value (LsLink p i l r link) =
     protocol_code p # to_be_bytes 8 i @ concat (map ls_tlv_wire (link_tlvs l r link))"
| "ls_value _ = []"

fun ls_type :: "bgp_ls_nlri \<Rightarrow> u16" where
  "ls_type (LsNode p i nd) = 1"
| "ls_type _ = 2"

fun ls_ok :: "bgp_ls_nlri \<Rightarrow> bool" where
  "ls_ok (LsNode p i nd) \<longleftrightarrow> bgp_ls_protocol_from (protocol_code p) = p \<and> node_ok nd"
| "ls_ok (LsLink p i l r link) \<longleftrightarrow> bgp_ls_protocol_from (protocol_code p) = p \<and> node_ok l \<and> node_ok r
     \<and> (local_id link = None \<longleftrightarrow> remote_id link = None)"
| "ls_ok _ \<longleftrightarrow> False"

definition ls_wire :: "bgp_ls_nlri \<Rightarrow> bytes" where
  "ls_wire n = ls_tlv_wire (ls_type n, ls_value n)"

lemma opt_tlv_simps [simp]: "opt_tlv t enc None = []" "opt_tlv t enc (Some x) = [(t, enc x)]"
  by (simp_all add: opt_tlv_def)

lemma length_ls_tlv_wire [simp]: "length (ls_tlv_wire t) = 4 + length (snd t)"
  by (simp add: ls_tlv_wire_def)

lemma node_wire_length: "node_ok nd \<Longrightarrow> length (node_wire nd) \<le> 36"
  by (cases "nd_asn nd"; cases "bgp_ls_id nd"; cases "ospf_area nd"; cases "igp_router nd")
    (auto simp: node_wire_def node_tlvs_def node_ok_def)

lemma node_tlvs_short: "node_ok nd \<Longrightarrow> \<forall>t \<in> set (node_tlvs nd). length (snd t) < 65536"
  by (cases "nd_asn nd"; cases "bgp_ls_id nd"; cases "ospf_area nd"; cases "igp_router nd")
    (auto simp: node_tlvs_def node_ok_def)

lemma decode_node_wire:
  assumes "node_ok nd"
  shows "decode_node_sub_tlvs (node_wire nd) default_node = nd"
proof -
  have "ls_tlvs (node_wire nd) = node_tlvs nd"
    unfolding node_wire_def by (rule ls_tlvs_wire) (rule node_tlvs_short [OF assms])
  then show ?thesis
    by (cases nd; cases "nd_asn nd"; cases "bgp_ls_id nd"; cases "ospf_area nd"; cases "igp_router nd")
      (auto simp: decode_node_sub_tlvs_def node_tlvs_def node_sub_tlv_def default_node_def)
qed

lemma decode_node_descriptor_wire:
  assumes "node_ok nd"
  shows "decode_node_descriptor (ls_tlv_wire (256, node_wire nd)) = nd"
proof -
  have u: "unat (word_of_nat (length (node_wire nd)) :: u16) = length (node_wire nd)"
    by (rule unat_word_of_nat) (use node_wire_length [OF assms] in simp)
  obtain l0 l1 where l: "to_be_bytes 2 (word_of_nat (length (node_wire nd)) :: u16) = [l0, l1]"
    "from_be_bytes [l0, l1] = (word_of_nat (length (node_wire nd)) :: u16)"
    by (rule to_be_bytes_2E)
  obtain t0 t1 where t: "to_be_bytes 2 (256 :: u16) = [t0, t1]"
    by (rule to_be_bytes_2E)
  from u l t decode_node_wire [OF assms] show ?thesis by (simp add: ls_tlv_wire_def)
qed

lemma addr_tlv_short: "t \<in> set (addr_tlv t4 t6 a) \<Longrightarrow> length (snd t) \<le> 16" "length (addr_tlv t4 t6 a) \<le> 1"
  by (induction t4 t6 a rule: addr_tlv.induct) auto

lemma id_tlv_short: "t \<in> set (id_tlv link) \<Longrightarrow> length (snd t) \<le> 8" "length (id_tlv link) \<le> 1"
  by (auto simp: id_tlv_def split: option.splits)

lemma link_tlvs_short:
  assumes "node_ok l" "node_ok r" "t \<in> set (link_tlvs l r link)"
  shows "length (snd t) \<le> 36"
  using assms node_wire_length [of l] node_wire_length [of r]
  by (auto simp: link_tlvs_def dest!: addr_tlv_short(1) id_tlv_short(1))

lemma tlvs_wire_length:
  "\<forall>t \<in> set ts. length (snd t) \<le> n \<Longrightarrow> length (concat (map ls_tlv_wire ts)) \<le> length ts * (4 + n)"
  by (induction ts) auto

lemma decode_link_wire:
  assumes "node_ok l" "node_ok r" "local_id link = None \<longleftrightarrow> remote_id link = None"
  shows "decode_link_nlri p i (concat (map ls_tlv_wire (link_tlvs l r link))) = LsLink p i l r link"
proof -
  have "ls_tlvs (concat (map ls_tlv_wire (link_tlvs l r link))) = link_tlvs l r link"
    using link_tlvs_short [OF assms(1, 2)] by (intro ls_tlvs_wire) fastforce
  moreover have "fold link_tlv (link_tlvs l r link) (default_node, default_node, default_link) = (l, r, link)"
    using assms decode_node_wire [OF assms(1)] decode_node_wire [OF assms(2)]
    by (cases link; cases "local_id link"; cases "remote_id link";
        cases "(260 :: u16, 262 :: u16, remote_addr link)" rule: addr_tlv.cases;
        cases "(259 :: u16, 261 :: u16, local_addr link)" rule: addr_tlv.cases)
      (simp_all add: link_tlvs_def link_tlv_def id_tlv_def default_link_def)
  ultimately show ?thesis by (simp add: decode_link_nlri_def)
qed

lemma ls_value_length: "ls_ok n \<Longrightarrow> length (ls_value n) < 65536"
proof (induction n rule: ls_value.induct)
  case (1 p i nd)
  then show ?case using node_wire_length [of nd] by simp
next
  case (2 p i l r link)
  then have "length (concat (map ls_tlv_wire (link_tlvs l r link))) \<le> length (link_tlvs l r link) * (4 + 36)"
    by (intro tlvs_wire_length ballI link_tlvs_short) auto
  moreover have "length (link_tlvs l r link) \<le> 5"
    using id_tlv_short(2) [of link] addr_tlv_short(2) [of 259 261 "local_addr link"]
      addr_tlv_short(2) [of 260 262 "remote_addr link"] by (simp add: link_tlvs_def)
  ultimately show ?case by simp
qed auto

lemma decode_one_wire:
  assumes "ls_ok n"
  shows "decode_one X (ls_type n) (ls_value n) = Ok n"
proof (cases n)
  case (LsNode p i nd)
  with assms decode_node_descriptor_wire [of nd] show ?thesis
    by (simp add: decode_one_def reads bgp_ls_nlri_type_from_def)
next
  case (LsLink p i l r link)
  with assms decode_link_wire [of l r link p i] show ?thesis
    by (simp add: decode_one_def reads bgp_ls_nlri_type_from_def link_tlvs_def)
qed (use assms in auto)

lemma bgpls_entry_wire:
  assumes "ls_ok n"
  shows "bgpls_entry X (ls_wire n @ buf) = Ok ([n], buf)"
proof -
  have "unat (word_of_nat (length (ls_value n)) :: u16) = length (ls_value n)"
    by (rule unat_word_of_nat) (use ls_value_length [OF assms] in simp)
  then show ?thesis
    using decode_one_wire [OF assms, of X]
    by (simp add: bgpls_entry_def ls_wire_def ls_tlv_wire_def get_u16_def copy_to_bytes_def)
qed

section \<open>Properties\<close>

text \<open>C32: Link-state node and link NLRI round-trip: decoding the wire form of any list of well-formed node
  and link NLRI gives back protocol, identifier, node descriptors and link descriptor.\<close>

theorem bgpls_roundtrip:
  assumes "\<forall>n \<in> set ns. ls_ok n"
  shows "decode_bgpls_nlri X (concat (map ls_wire ns)) = Ok ns"
proof (rule bgpls_loop.loop_encoded)
  fix n r assume "n \<in> set ns"
  with assms have "ls_ok n" by blast
  then show "4 \<le> length (ls_wire n @ r) \<and> bgpls_entry X (ls_wire n @ r) = Ok ([n], r)"
    using bgpls_entry_wire by (simp add: ls_wire_def)
qed

theorem bgpls_roundtrip_witness:
  "decode_bgpls_nlri documented_externals (concat (map ls_wire
     [LsLink IsIsLevel2 7 (default_node\<lparr>nd_asn := Some 65000\<rparr>) (default_node\<lparr>igp_router := Some (RouterId [1, 2, 3, 4, 5, 6])\<rparr>)
        (default_link\<lparr>local_addr := Some (IpV4 0x0A000001)\<rparr>)]))
   = Ok [LsLink IsIsLevel2 7 (default_node\<lparr>nd_asn := Some 65000\<rparr>) (default_node\<lparr>igp_router := Some (RouterId [1, 2, 3, 4, 5, 6])\<rparr>)
        (default_link\<lparr>local_addr := Some (IpV4 0x0A000001)\<rparr>)]"
  by (rule bgpls_roundtrip) (simp add: bgp_ls_protocol_from_def node_ok_def default_node_def default_link_def)

text \<open>The BGP-LS attribute parser keeps what it does not read: of any encoded list of TLVs it preserves,
  in order, exactly those whose type is unknown or whose length is wrong for their type.\<close>

theorem bgpls_attribute_preserves:
  assumes "\<forall>t \<in> set ts. length (snd t) < 65536"
  shows "unknown_tlvs (parse_bgpls_attribute (concat (map ls_tlv_wire ts))) = filter (\<lambda>t. \<not> ls_recognised t) ts"
  by (simp add: parse_bgpls_attribute_def ls_tlvs_wire [OF assms] fold_ls_attribute_unknown default_ls_attribute_def)

theorem bgpls_attribute_preserves_witness:
  "unknown_tlvs (parse_bgpls_attribute (concat (map ls_tlv_wire [(1026, [65]), (1028, [1]), (9999, [])])))
    = filter (\<lambda>t. \<not> ls_recognised t) [(1026, [65]), (1028, [1]), (9999, [])]"
  by (rule bgpls_attribute_preserves) simp

text \<open>A link-state prefix NLRI whose only TLV is a reachability TLV panics exactly when the announced prefix length
  exceeds the family and all its octets are present; otherwise it is decoded (an unusable length falls
  back to the default route).\<close>

theorem bgpls_prefix_panics:
  assumes "ipnet X" and "val \<noteq> []" and "length val < 65536"
  shows "(decode_prefix_nlri X p i (ls_tlv_wire (265, val)) is_v6 = Panic \<longleftrightarrow>
      (if is_v6 then 128 else 32) < unat (val ! 0) \<and> div_ceil8 (unat (val ! 0)) < length val)
    \<and> decode_prefix_nlri X p i (ls_tlv_wire (265, val)) is_v6 \<noteq> Err e"
proof -
  have t: "ls_tlvs (ls_tlv_wire (265, val)) = [(265, val)]"
    using ls_tlvs_wire [of "[(265, val)]"] assms(3) by simp
  obtain d where d: "default_prefix X is_v6 = Ok d"
    using ipnet.default_prefix_Ok [OF assms(1)] by blast
  have "reach_prefix X is_v6 val None \<noteq> Err e"
    using assms(2) by (auto simp: reach_prefix_def at_def slice_def fill_array_def Let_def)
  with t d reach_prefix_Panic_iff [OF assms(2), of X is_v6 None] assms(2) show ?thesis
    by (cases "reach_prefix X is_v6 val None") (auto simp: decode_prefix_nlri_def prefix_tlv_def)
qed

theorem bgpls_prefix_panics_witness:
  "(decode_prefix_nlri documented_externals Direct 0 (ls_tlv_wire (265, [40, 1, 2, 3, 4, 5])) False = Panic \<longleftrightarrow>
      (if False then 128 else 32) < unat ([40, 1, 2, 3, 4, 5 :: u8] ! 0)
      \<and> div_ceil8 (unat ([40, 1, 2, 3, 4, 5 :: u8] ! 0)) < length [40, 1, 2, 3, 4, 5 :: u8])
    \<and> decode_prefix_nlri documented_externals Direct 0 (ls_tlv_wire (265, [40, 1, 2, 3, 4, 5])) False \<noteq> Err InvalidBgpMarker"
  by (rule bgpls_prefix_panics [OF doc_ipnet.ipnet_axioms]) simp_all

end
