(* ===== verification/Path_Status.thy ===== *)
theory Path_Status
  imports Prelude
begin

unbundle bit_operations_syntax

text \<open>
  \<open>crates/rbmp-core/src/bmp/path_status_tlv.rs\<close>: the Path Status TLV of
  draft-ietf-grow-bmp-path-marking-tlv: a status bitmap and a reason code.
\<close>

section \<open>Definitions\<close>

definition path_status_tlv_type :: u16 where
  "path_status_tlv_type = 6"

record path_status_tlv =
  status :: u32
  reason :: u16

definition status_bit :: "u32 \<Rightarrow> path_status_tlv \<Rightarrow> bool" where
  "status_bit b t \<longleftrightarrow> status t AND b \<noteq> 0"

definition is_invalid :: "path_status_tlv \<Rightarrow> bool" where
  "is_invalid t = status_bit 0x0001 t"

definition is_best :: "path_status_tlv \<Rightarrow> bool" where
  "is_best t = status_bit 0x0002 t"

definition is_nonselected :: "path_status_tlv \<Rightarrow> bool" where
  "is_nonselected t = status_bit 0x0004 t"

definition is_primary :: "path_status_tlv \<Rightarrow> bool" where
  "is_primary t = status_bit 0x0008 t"

definition is_backup :: "path_status_tlv \<Rightarrow> bool" where
  "is_backup t = status_bit 0x0010 t"

definition is_non_installed :: "path_status_tlv \<Rightarrow> bool" where
  "is_non_installed t = status_bit 0x0020 t"

definition is_best_external :: "path_status_tlv \<Rightarrow> bool" where
  "is_best_external t = status_bit 0x0040 t"

definition is_add_path :: "path_status_tlv \<Rightarrow> bool" where
  "is_add_path t = status_bit 0x0080 t"

definition is_filtered_inbound :: "path_status_tlv \<Rightarrow> bool" where
  "is_filtered_inbound t = status_bit 0x0100 t"

definition is_filtered_outbound :: "path_status_tlv \<Rightarrow> bool" where
  "is_filtered_outbound t = status_bit 0x0200 t"

definition is_stale :: "path_status_tlv \<Rightarrow> bool" where
  "is_stale t = status_bit 0x0400 t"

definition is_suppressed :: "path_status_tlv \<Rightarrow> bool" where
  "is_suppressed t = status_bit 0x0800 t"

definition label :: "path_status_tlv \<Rightarrow> string" where
  "label t =
     (if is_best t then ''best'' else if is_primary t then ''primary''
      else if is_backup t then ''backup'' else if is_best_external t then ''best-external''
      else if is_add_path t then ''add-path'' else if is_nonselected t then ''nonselected''
      else if is_filtered_inbound t then ''filtered-inbound''
      else if is_filtered_outbound t then ''filtered-outbound''
      else if is_stale t then ''stale'' else if is_suppressed t then ''suppressed''
      else if is_non_installed t then ''non-installed'' else if is_invalid t then ''invalid''
      else ''unknown'')"

definition reason_label :: "path_status_tlv \<Rightarrow> string" where
  "reason_label t = (let r = reason t in
     if r = 1 then ''AS loop'' else if r = 2 then ''unresolvable nexthop''
     else if r = 3 then ''not preferred: LOCAL_PREF'' else if r = 4 then ''not preferred: AS_PATH length''
     else if r = 5 then ''not preferred: ORIGIN type'' else if r = 6 then ''not preferred: MED''
     else if r = 7 then ''not preferred: peer type'' else if r = 8 then ''not preferred: IGP cost''
     else if r = 9 then ''not preferred: router-ID'' else if r = 10 then ''not preferred: peer address''
     else if r = 11 then ''not preferred: AIGP'' else '''')"

definition is_active :: "path_status_tlv \<Rightarrow> bool" where
  "is_active t \<longleftrightarrow> is_best t \<or> is_primary t"

definition parse_path_status_tlv :: "bytes \<Rightarrow> path_status_tlv option" where
  "parse_path_status_tlv data =
     (if length data < 4 then None
      else Some \<lparr>status = from_be_bytes (take 4 data),
        reason = (if length data \<ge> 6 then from_be_bytes (take 2 (drop 4 data)) else 0)\<rparr>)"

text \<open>The loop of \<open>find_path_status_tlv\<close>, on the bytes from \<open>pos\<close> on.\<close>

fun scan_path_status :: "u16 \<Rightarrow> bytes \<Rightarrow> path_status_tlv option" where
  "scan_path_status tlv_type (t0 # t1 # l0 # l1 # rest) =
     (let n = unat (from_be_bytes [l0, l1] :: u16) in
      if n > length rest then None
      else if from_be_bytes [t0, t1] = tlv_type then parse_path_status_tlv (take n rest)
      else scan_path_status tlv_type (drop n rest))"
| "scan_path_status tlv_type _ = None"

definition find_path_status_tlv :: "bytes \<Rightarrow> u16 \<Rightarrow> path_status_tlv option" where
  "find_path_status_tlv data tlv_type =
     (if length data \<ge> 16 \<and> list_all (\<lambda>b. b = 0xFF) (take 16 data) then None
      else scan_path_status tlv_type data)"

datatype path_marking_profile = Disabled | ExperimentalDraft05 u16

fun find_path_status_tlv_with_profile :: "bytes \<Rightarrow> path_marking_profile \<Rightarrow> path_status_tlv option" where
  "find_path_status_tlv_with_profile data Disabled = None"
| "find_path_status_tlv_with_profile data (ExperimentalDraft05 tlv_type) = find_path_status_tlv data tlv_type"

section \<open>Properties\<close>

text \<open>An active path is labelled best or primary, and nothing else is.\<close>

lemma active_label: "is_active t \<longleftrightarrow> label t \<in> {''best'', ''primary''}"
  by (simp add: is_active_def label_def)

lemma marker_never_scanned: "find_path_status_tlv (replicate 16 0xFF @ r) t = None"
  by (simp add: find_path_status_tlv_def list_all_iff)

end
