(* ===== verification/Attributes.thy ===== *)
theory Attributes
  imports Capabilities Flowspec Srv6 Bgp_Ls Path_Status
begin

unbundle bit_operations_syntax

text \<open>
  \<open>crates/rbmp-core/src/bgp/attributes.rs\<close> and the attribute types of \<open>bgp/types.rs\<close>: the path attributes
  of an UPDATE. \<open>parse_attribute\<close> is the \<open>match type_code\<close> of the loop, \<open>attribute_loop\<close> the loop, and
  \<open>finish_attributes\<close> what the function does after it (next hop from MP_REACH, RFC 6793 reconstruction).
\<close>

section \<open>Data\<close>

record tunnel_encap_entry =
  tunnel_type :: u16
  te_type_name :: string
  te_endpoint :: "ip_addr option"
  te_color :: "u32 option"

record bgpsec_path =
  signing_asns :: "u32 list"
  sig_block_count :: u8
  bgpsec_raw :: bytes

record mp_reach_nlri =
  mp_afi_safi :: afi_safi
  mp_next_hops :: "ip_addr list"
  mp_prefixes :: "prefix list"
  mp_path_ids :: "u32 option list"

record mp_unreach_nlri =
  mu_afi_safi :: afi_safi
  mu_prefixes :: "prefix list"
  mu_path_ids :: "u32 option list"

record evpn_reach_nlri =
  er_next_hops :: "ip_addr list"
  er_routes :: "evpn_route list"

record bgp_ls_reach_nlri =
  ls_next_hop :: "ip_addr option"
  ls_nlris :: "bgp_ls_nlri list"

record raw_attribute =
  raw_flags :: u8
  raw_type_code :: u8
  raw_value :: bytes

record path_attributes =
  pa_origin :: "origin option"
  pa_as_path :: "as_path option"
  next_hop :: "ip_addr option"
  multi_exit_disc :: "u32 option"
  local_pref :: "u32 option"
  atomic_aggregate :: bool
  aggregator :: "(u32 \<times> ipv4) option"
  communities :: "standard_community list"
  extended_communities :: "extended_community list"
  large_communities :: "large_community list"
  originator_id :: "ipv4 option"
  cluster_list :: "ipv4 list"
  mp_reach :: "mp_reach_nlri option"
  mp_unreach :: "mp_unreach_nlri option"
  as4_path :: "as_path option"
  as4_aggregator :: "(u32 \<times> ipv4) option"
  evpn_reach :: "evpn_reach_nlri option"
  evpn_unreach :: "evpn_route list option"
  flowspec_reach :: "flowspec_nlri list option"
  flowspec_unreach :: "flowspec_nlri list option"
  pa_prefix_sid :: "prefix_sid option"
  tunnel_encap :: "tunnel_encap_entry list option"
  only_to_customer :: "u32 option"
  bgpls_reach :: "bgp_ls_reach_nlri option"
  bgpls_unreach :: "bgp_ls_nlri list option"
  bgpls_attr :: "bgp_ls_attribute option"
  sr_policy_nlris :: "sr_policy_nlri list"
  sr_policy_paths :: "candidate_path list"
  rtc_nlris :: "rtc_nlri list"
  pa_bgpsec_path :: "bgpsec_path option"
  path_status :: "path_status_tlv option"
  unknown :: "raw_attribute list"

definition default_attributes :: path_attributes where
  "default_attributes = \<lparr>pa_origin = None, pa_as_path = None, next_hop = None, multi_exit_disc = None,
     local_pref = None, atomic_aggregate = False, aggregator = None, communities = [],
     extended_communities = [], large_communities = [], originator_id = None, cluster_list = [],
     mp_reach = None, mp_unreach = None, as4_path = None, as4_aggregator = None, evpn_reach = None,
     evpn_unreach = None, flowspec_reach = None, flowspec_unreach = None, pa_prefix_sid = None,
     tunnel_encap = None, only_to_customer = None, bgpls_reach = None, bgpls_unreach = None,
     bgpls_attr = None, sr_policy_nlris = [], sr_policy_paths = [], rtc_nlris = [],
     pa_bgpsec_path = None, path_status = None, unknown = []\<rparr>"

section \<open>AS paths\<close>

text \<open>The inner \<open>for\<close> loop: \<open>n\<close> AS numbers of \<open>asn_size\<close> bytes from the front of the slice.\<close>

fun read_asns :: "nat \<Rightarrow> nat \<Rightarrow> bytes \<Rightarrow> u32 list" where
  "read_asns asn_size 0 buf = []"
| "read_asns asn_size (Suc n) buf = from_be_bytes (take asn_size buf) # read_asns asn_size n (drop asn_size buf)"

definition as_segment :: "u8 \<Rightarrow> u32 list \<Rightarrow> as_path_segment result" where
  "as_segment seg_type v =
     (if seg_type = 1 then Ok (AsSet v) else if seg_type = 2 then Ok (AsSequence v)
      else if seg_type = 3 then Ok (ConfedSequence v) else if seg_type = 4 then Ok (ConfedSet v)
      else Err (BgpParse (''unknown AS_PATH segment type '' @ dec (unat seg_type))))"

function parse_segments_of_size :: "nat \<Rightarrow> bytes \<Rightarrow> as_path_segment list result" where
  "parse_segments_of_size asn_size [] = Ok []"
| "parse_segments_of_size asn_size [b] = Err (UnexpectedEof 2 1)"
| "parse_segments_of_size asn_size (seg_type # len # buf) =
     (let seg_len = unat len; needed = seg_len * asn_size in
      if length buf < needed then Err (UnexpectedEof needed (length buf))
      else
        and_then (as_segment seg_type (read_asns asn_size seg_len buf)) (\<lambda>seg.
        and_then (parse_segments_of_size asn_size (drop needed buf)) (\<lambda>segs. Ok (seg # segs))))"
  by pat_completeness auto
termination
  by (relation "measure (\<lambda>(n, buf). length buf)") auto

definition parse_as_path_with_asn_size :: "bytes \<Rightarrow> nat \<Rightarrow> as_path result" where
  "parse_as_path_with_asn_size buf asn_size =
     and_then (parse_segments_of_size asn_size buf) (\<lambda>segs. Ok (AsPath segs))"

text \<open>\<open>match a { Ok(p) => Ok(p), Err(e) => b.or(Err(e)) }\<close>\<close>

fun or_else_keep :: "('e, 'a) outcome \<Rightarrow> ('e, 'a) outcome \<Rightarrow> ('e, 'a) outcome" where
  "or_else_keep (Ok x) b = Ok x"
| "or_else_keep (Err e) (Ok y) = Ok y"
| "or_else_keep (Err e) (Err f) = Err e"
| "or_else_keep (Err e) Panic = Panic"
| "or_else_keep Panic b = Panic"

definition parse_as_path :: "bytes \<Rightarrow> bool \<Rightarrow> as_path result" where
  "parse_as_path buf four_byte =
     (if four_byte
      then or_else_keep (parse_as_path_with_asn_size buf 4) (parse_as_path_with_asn_size buf 2)
      else or_else_keep (parse_as_path_with_asn_size buf 2) (parse_as_path_with_asn_size buf 4))"

fun is_confed :: "as_path_segment \<Rightarrow> bool" where
  "is_confed (ConfedSequence v) = True"
| "is_confed (ConfedSet v) = True"
| "is_confed _ = False"

fun with_asns :: "as_path_segment \<Rightarrow> u32 list \<Rightarrow> as_path_segment" where
  "with_asns (AsSet _) v = AsSet v"
| "with_asns (AsSequence _) v = AsSequence v"
| "with_asns (ConfedSequence _) v = ConfedSequence v"
| "with_asns (ConfedSet _) v = ConfedSet v"

text \<open>The two loops of \<open>reconstruct_as_path\<close>: the leading \<open>keep\<close> AS numbers of AS_PATH, then the AS4_PATH
  segments, a sequence being appended to a preceding sequence.\<close>

fun keep_leading :: "nat \<Rightarrow> as_path_segment list \<Rightarrow> as_path_segment list" where
  "keep_leading k [] = []"
| "keep_leading k (seg # segs) =
     (if k = 0 then []
      else
        let n = min k (length (asns seg)); slice = take n (asns seg) in
        (if slice \<noteq> [] then [with_asns seg slice] else []) @ keep_leading (k - n) segs)"

fun push_segment :: "as_path_segment \<Rightarrow> as_path_segment list \<Rightarrow> as_path_segment list" where
  "push_segment (AsSequence v) out =
     (case (if out = [] then None else Some (last out)) of
        Some (AsSequence p) \<Rightarrow> butlast out @ [AsSequence (p @ v)]
      | _ \<Rightarrow> out @ [AsSequence v])"
| "push_segment seg out = out @ [seg]"

definition reconstruct_as_path :: "as_path \<Rightarrow> as_path \<Rightarrow> as_path" where
  "reconstruct_as_path path path4 =
     (let as4_segments = filter (\<lambda>seg. \<not> is_confed seg) (segments path4);
          n_as = sum_list (map (\<lambda>s. length (asns s)) (segments path));
          n_as4 = sum_list (map (\<lambda>s. length (asns s)) as4_segments) in
      if n_as4 = 0 \<or> n_as < n_as4 then path
      else AsPath (fold push_segment as4_segments (keep_leading (n_as - n_as4) (segments path))))"

section \<open>Tunnel encapsulation\<close>

definition tunnel_type_name :: "u16 \<Rightarrow> string" where
  "tunnel_type_name t =
     (if t = 1 then ''l2tpv3-over-ip'' else if t = 2 then ''gre''
      else if t = 3 then ''transmit-tunnel-endpoint'' else if t = 4 then ''ipsec-in-tunnel-mode''
      else if t = 5 then ''ip-in-ip-with-ipsec'' else if t = 6 then ''mpls-in-ip-with-ipsec''
      else if t = 7 then ''ip-in-ip'' else if t = 8 then ''vxlan'' else if t = 9 then ''nvgre''
      else if t = 10 then ''mpls'' else if t = 11 then ''mpls-in-gre'' else if t = 12 then ''vxlan-gpe''
      else if t = 13 then ''mpls-in-udp'' else if t = 14 then ''ipv6-tunnel''
      else if t = 15 then ''sr-mpls'' else if t = 16 then ''geneve'' else if t = 17 then ''endpoint''
      else if t = 23 then ''srv6'' else ''unknown'')"

fun tunnel_sub_tlvs :: "bytes \<Rightarrow> (u8 \<times> bytes) list" where
  "tunnel_sub_tlvs (t # l # rest) =
     (if unat l > length rest then [] else (t, take (unat l) rest) # tunnel_sub_tlvs (drop (unat l) rest))"
| "tunnel_sub_tlvs _ = []"

definition tunnel_sub_tlv ::
  "u8 \<times> bytes \<Rightarrow> ip_addr option \<times> u32 option \<Rightarrow> ip_addr option \<times> u32 option" where
  "tunnel_sub_tlv tlv st = (let (sub_type, data) = tlv; (e, c) = st in
     if sub_type = 1 \<and> length data = 4 then (Some (IpV4 (from_be_bytes data)), c)
     else if sub_type = 1 \<and> length data = 16 then (Some (IpV6 (from_be_bytes data)), c)
     else if sub_type = 9 \<and> length data \<ge> 4 \<and> length data \<ge> 6
     then (e, Some (from_be_bytes (take 4 (drop 2 data))))
     else st)"

definition parse_tunnel_subtlvs :: "bytes \<Rightarrow> ip_addr option \<times> u32 option" where
  "parse_tunnel_subtlvs buf = fold tunnel_sub_tlv (tunnel_sub_tlvs buf) (None, None)"

definition parse_tunnel_encap :: "bytes \<Rightarrow> tunnel_encap_entry list" where
  "parse_tunnel_encap buf =
     map (\<lambda>(t, sub_buf). let (e, c) = parse_tunnel_subtlvs sub_buf in
       \<lparr>tunnel_type = t, te_type_name = tunnel_type_name t, te_endpoint = e, te_color = c\<rparr>)
       (ls_tlvs buf)"

section \<open>BGPsec\<close>

fun secure_segments :: "bytes \<Rightarrow> u32 list" where
  "secure_segments (pcount # flags # a # b # c # d # rest) = from_be_bytes [a, b, c, d] # secure_segments rest"
| "secure_segments _ = []"

text \<open>Counting the signature blocks in a \<open>u8\<close>: the increment is checked or wraps with the build.\<close>

function (sequential) count_sig_blocks :: "externals \<Rightarrow> u8 \<Rightarrow> bytes \<Rightarrow> u8 result" where
  "count_sig_blocks X count (l0 # l1 # a # rest) =
     and_then (add_u8 X count 1) (\<lambda>count'.
     count_sig_blocks X count' (drop (unat (from_be_bytes [l0, l1] :: u16)) (a # rest)))"
| "count_sig_blocks X count _ = Ok count"
  by pat_completeness auto
termination
  by (relation "measure (\<lambda>(X, c, buf). length buf)") auto

definition parse_bgpsec_path :: "externals \<Rightarrow> bytes \<Rightarrow> bgpsec_path result" where
  "parse_bgpsec_path X buf =
     (let empty = \<lparr>signing_asns = [], sig_block_count = 0, bgpsec_raw = buf\<rparr> in
      if length buf < 2 then Ok empty else
      and_then (be16_at buf 0) (\<lambda>len.
      let secure_path_len = unat len in
      if length buf < 2 + secure_path_len then Ok empty else
      and_then (slice buf 2 (2 + secure_path_len)) (\<lambda>secure.
      and_then (slice_from buf (2 + secure_path_len)) (\<lambda>blocks.
      and_then (count_sig_blocks X 0 blocks) (\<lambda>count.
      Ok \<lparr>signing_asns = secure_segments secure, sig_block_count = count, bgpsec_raw = buf\<rparr>)))))"

section \<open>MP_REACH_NLRI and MP_UNREACH_NLRI\<close>

definition decode_bgpls_reach :: "externals \<Rightarrow> ip_addr option \<Rightarrow> bytes \<Rightarrow> bgp_ls_reach_nlri result" where
  "decode_bgpls_reach X hop nlri_buf =
     and_then (decode_bgpls_nlri X nlri_buf) (\<lambda>ns. Ok \<lparr>ls_next_hop = hop, ls_nlris = ns\<rparr>)"

definition decode_bgpls_unreach :: "externals \<Rightarrow> bytes \<Rightarrow> bgp_ls_nlri list result" where
  "decode_bgpls_unreach X buf = decode_bgpls_nlri X buf"

type_synonym parsed_mp_reach =
  "mp_reach_nlri \<times> evpn_reach_nlri option \<times> flowspec_nlri list option \<times> bgp_ls_reach_nlri option
    \<times> sr_policy_nlri list \<times> rtc_nlri list"

type_synonym parsed_mp_unreach =
  "mp_unreach_nlri \<times> evpn_route list option \<times> flowspec_nlri list option \<times> bgp_ls_nlri list option
    \<times> sr_policy_nlri list option \<times> rtc_nlri list"

definition first_hop :: "ip_addr list \<Rightarrow> ip_addr option" where
  "first_hop hops = (case hops of [] \<Rightarrow> None | h # _ \<Rightarrow> Some h)"

text \<open>The \<open>match afi_safi.safi\<close> of \<open>parse_mp_reach\<close>: what the NLRI bytes of each family become.\<close>

definition reach_nlri ::
  "externals \<Rightarrow> afi_safi \<Rightarrow> bool \<Rightarrow> ip_addr list \<Rightarrow> bytes \<Rightarrow> parsed_mp_reach result" where
  "reach_nlri X f add_path hops remaining =
     (let mp = (\<lambda>ps ids. \<lparr>mp_afi_safi = f, mp_next_hops = hops, mp_prefixes = ps, mp_path_ids = ids\<rparr>);
          ipv6 = (afi f = AfiIpv6) in
      case safi f of
        SafiEvpn \<Rightarrow> and_then (decode_evpn_nlri remaining) (\<lambda>rs.
          Ok (mp [] [], Some \<lparr>er_next_hops = hops, er_routes = rs\<rparr>, None, None, [], []))
      | SafiFlowspec \<Rightarrow> and_then (decode_flowspec_nlri ipv6 remaining) (\<lambda>fs.
          Ok (mp [] [], None, Some fs, None, [], []))
      | FlowspecVpn \<Rightarrow> and_then (decode_flowspec_nlri ipv6 remaining) (\<lambda>fs.
          Ok (mp [] [], None, Some fs, None, [], []))
      | SafiBgpLs \<Rightarrow> and_then (decode_bgpls_reach X (first_hop hops) remaining) (\<lambda>ls.
          Ok (mp [] [], None, None, Some ls, [], []))
      | BgpLsSrv6 \<Rightarrow> and_then (decode_bgpls_reach X (first_hop hops) remaining) (\<lambda>ls.
          Ok (mp [] [], None, None, Some ls, [], []))
      | Vpls \<Rightarrow> and_then (decode_vpls_nlri remaining) (\<lambda>_. Ok (mp [] [], None, None, None, [], []))
      | SafiSrPolicy \<Rightarrow> and_then (decode_srpolicy_nlri ipv6 remaining) (\<lambda>ns.
          Ok (mp [] [], None, None, None, ns, []))
      | RouteTargetConstraint \<Rightarrow> and_then (decode_rtc_nlri remaining) (\<lambda>rs.
          Ok (mp [] [], None, None, None, [], rs))
      | Unicast \<Rightarrow> and_then (decode_nlri_with_path_id X remaining (afi f) add_path) (\<lambda>ps.
          Ok (mp (map fst ps) (map snd ps), None, None, None, [], []))
      | Multicast \<Rightarrow> and_then (decode_nlri_with_path_id X remaining (afi f) add_path) (\<lambda>ps.
          Ok (mp (map fst ps) (map snd ps), None, None, None, [], []))
      | LabeledUnicast \<Rightarrow> and_then (decode_labeled_nlri X remaining (afi f)) (\<lambda>ps.
          Ok (mp ps (replicate (length ps) None), None, None, None, [], []))
      | MplsVpn \<Rightarrow> and_then (decode_vpn_nlri X remaining (afi f)) (\<lambda>ps.
          Ok (mp ps (replicate (length ps) None), None, None, None, [], []))
      | _ \<Rightarrow> Ok (mp [] [], None, None, None, [], []))"

definition parse_mp_reach :: "externals \<Rightarrow> bytes \<Rightarrow> bgp_decode_context \<Rightarrow> parsed_mp_reach result" where
  "parse_mp_reach X buf ctx =
     (if length buf < 4 then Err (UnexpectedEof 4 (length buf)) else
      and_then (be16_at buf 0) (\<lambda>a.
      and_then (at buf 2) (\<lambda>s.
      let f = afi_safi_new a s in
      and_then (slice_from buf 3) (\<lambda>cur.
      and_then (decode_next_hops (afi f) cur) (\<lambda>(hops, cur).
      if length cur < 1 then Err (UnexpectedEof 1 (length cur)) else
      and_then (get_u8 cur) (\<lambda>(snpa, remaining).
      reach_nlri X f (has_add_path ctx f) hops remaining))))))"

definition unreach_nlri ::
  "externals \<Rightarrow> afi_safi \<Rightarrow> bool \<Rightarrow> bytes \<Rightarrow> parsed_mp_unreach result" where
  "unreach_nlri X f add_path remaining =
     (let mp = (\<lambda>ps ids. \<lparr>mu_afi_safi = f, mu_prefixes = ps, mu_path_ids = ids\<rparr>);
          ipv6 = (afi f = AfiIpv6) in
      case safi f of
        SafiEvpn \<Rightarrow> and_then (decode_evpn_nlri remaining) (\<lambda>rs.
          Ok (mp [] [], Some rs, None, None, None, []))
      | SafiFlowspec \<Rightarrow> and_then (decode_flowspec_nlri ipv6 remaining) (\<lambda>fs.
          Ok (mp [] [], None, Some fs, None, None, []))
      | FlowspecVpn \<Rightarrow> and_then (decode_flowspec_nlri ipv6 remaining) (\<lambda>fs.
          Ok (mp [] [], None, Some fs, None, None, []))
      | SafiBgpLs \<Rightarrow> and_then (decode_bgpls_unreach X remaining) (\<lambda>ls.
          Ok (mp [] [], None, None, Some ls, None, []))
      | SafiSrPolicy \<Rightarrow> and_then (decode_srpolicy_nlri ipv6 remaining) (\<lambda>ns.
          Ok (mp [] [], None, None, None, Some ns, []))
      | RouteTargetConstraint \<Rightarrow> and_then (decode_rtc_nlri remaining) (\<lambda>rs.
          Ok (mp [] [], None, None, None, None, rs))
      | Unicast \<Rightarrow> and_then (decode_nlri_with_path_id X remaining (afi f) add_path) (\<lambda>ps.
          Ok (mp (map fst ps) (map snd ps), None, None, None, None, []))
      | Multicast \<Rightarrow> and_then (decode_nlri_with_path_id X remaining (afi f) add_path) (\<lambda>ps.
          Ok (mp (map fst ps) (map snd ps), None, None, None, None, []))
      | LabeledUnicast \<Rightarrow> and_then (decode_labeled_nlri X remaining (afi f)) (\<lambda>ps.
          Ok (mp ps (replicate (length ps) None), None, None, None, None, []))
      | MplsVpn \<Rightarrow> and_then (decode_vpn_nlri X remaining (afi f)) (\<lambda>ps.
          Ok (mp ps (replicate (length ps) None), None, None, None, None, []))
      | _ \<Rightarrow> Ok (mp [] [], None, None, None, None, []))"

definition parse_mp_unreach :: "externals \<Rightarrow> bytes \<Rightarrow> bgp_decode_context \<Rightarrow> parsed_mp_unreach result" where
  "parse_mp_unreach X buf ctx =
     (if length buf < 3 then Err (UnexpectedEof 3 (length buf)) else
      and_then (be16_at buf 0) (\<lambda>a.
      and_then (at buf 2) (\<lambda>s.
      let f = afi_safi_new a s in
      and_then (slice_from buf 3) (\<lambda>remaining.
      if remaining = [] then
        Ok (\<lparr>mu_afi_safi = f, mu_prefixes = [], mu_path_ids = []\<rparr>, None, None, None, None, [])
      else unreach_nlri X f (has_add_path ctx f) remaining))))"

section \<open>The attributes\<close>

fun extended_list :: "bytes \<Rightarrow> extended_community list" where
  "extended_list (a # b # c # d # e # f # g # h # rest) = ec_from_bytes [a, b, c, d, e, f, g, h] # extended_list rest"
| "extended_list _ = []"

fun large_list :: "bytes \<Rightarrow> large_community list" where
  "large_list (a # b # c # d # e # f # g # h # i # j # k # l # rest) =
     LargeCommunity (from_be_bytes [a, b, c, d]) (from_be_bytes [e, f, g, h]) (from_be_bytes [i, j, k, l])
       # large_list rest"
| "large_list _ = []"

definition bad_length :: "string \<Rightarrow> nat \<Rightarrow> nat \<Rightarrow> error" where
  "bad_length name n expected =
     BgpParse (''invalid '' @ name @ '' attribute length '' @ dec n @ '', expected '' @ dec expected)"

text \<open>The \<open>match type_code\<close>; a guarded arm whose length test fails falls through to the raw attributes.\<close>

definition base_attribute ::
  "bgp_decode_context \<Rightarrow> u8 \<Rightarrow> bytes \<Rightarrow> path_attributes \<Rightarrow> path_attributes result option" where
  "base_attribute ctx type_code d attrs = (let n = length d in
     if type_code = 1 then Some (if n \<noteq> 1 then Err (bad_length ''ORIGIN'' n 1)
       else and_then (at d 0) (\<lambda>v. and_then (origin_try_from v) (\<lambda>x. Ok (attrs\<lparr>pa_origin := Some x\<rparr>))))
     else if type_code = 2 then Some (and_then (parse_as_path d (four_byte_asn ctx)) (\<lambda>p.
       Ok (attrs\<lparr>pa_as_path := Some p\<rparr>)))
     else if type_code = 3 then Some (if n \<noteq> 4 then Err (bad_length ''NEXT_HOP'' n 4)
       else Ok (attrs\<lparr>next_hop := Some (IpV4 (from_be_bytes d))\<rparr>))
     else if type_code = 4 then Some (if n \<noteq> 4 then Err (bad_length ''MULTI_EXIT_DISC'' n 4)
       else Ok (attrs\<lparr>multi_exit_disc := Some (from_be_bytes d)\<rparr>))
     else if type_code = 5 then Some (if n \<noteq> 4 then Err (bad_length ''LOCAL_PREF'' n 4)
       else Ok (attrs\<lparr>local_pref := Some (from_be_bytes d)\<rparr>))
     else if type_code = 6 then Some (Ok (attrs\<lparr>atomic_aggregate := True\<rparr>))
     else if type_code = 7 \<and> n = 6 then
       Some (Ok (attrs\<lparr>aggregator := Some (from_be_bytes (take 2 d), from_be_bytes (drop 2 d))\<rparr>))
     else if type_code = 7 \<and> n = 8 then
       Some (Ok (attrs\<lparr>aggregator := Some (from_be_bytes (take 4 d), from_be_bytes (drop 4 d))\<rparr>))
     else if type_code = 8 then Some (if n mod 4 \<noteq> 0
       then Err (BgpParse (''invalid COMMUNITY attribute length '' @ dec n @ '' (must be multiple of 4)''))
       else Ok (attrs\<lparr>communities := communities attrs @ map StandardCommunity (u32_array d)\<rparr>))
     else if type_code = 9 \<and> n = 4 then Some (Ok (attrs\<lparr>originator_id := Some (from_be_bytes d)\<rparr>))
     else if type_code = 10 then Some (Ok (attrs\<lparr>cluster_list := cluster_list attrs @ u32_array d\<rparr>))
     else None)"

definition mp_attribute ::
  "externals \<Rightarrow> bgp_decode_context \<Rightarrow> u8 \<Rightarrow> bytes \<Rightarrow> path_attributes \<Rightarrow> path_attributes result option" where
  "mp_attribute X ctx type_code d attrs =
     (if type_code = 14 then Some (and_then (parse_mp_reach X d ctx) (\<lambda>(mp, evpn, fs, ls, sr, rtc).
        Ok (attrs\<lparr>mp_reach := Some mp, evpn_reach := evpn, flowspec_reach := fs, bgpls_reach := ls,
          sr_policy_nlris := sr, rtc_nlris := rtc\<rparr>)))
      else if type_code = 15 then Some (and_then (parse_mp_unreach X d ctx) (\<lambda>(mp, evpn, fs, ls, sr_wd, rtc_wd).
        let attrs = attrs\<lparr>mp_unreach := Some mp, evpn_unreach := evpn, flowspec_unreach := fs,
          bgpls_unreach := ls\<rparr> in
        Ok (case sr_wd of Some nlris \<Rightarrow> attrs\<lparr>sr_policy_nlris := nlris\<rparr> | None \<Rightarrow> attrs)))
      else None)"

definition optional_attribute ::
  "externals \<Rightarrow> u8 \<Rightarrow> bytes \<Rightarrow> path_attributes \<Rightarrow> path_attributes result option" where
  "optional_attribute X type_code d attrs = (let n = length d in
     if type_code = 16 then
       Some (Ok (attrs\<lparr>extended_communities := extended_communities attrs @ extended_list d\<rparr>))
     else if type_code = 17 then Some (and_then (parse_as_path_with_asn_size d 4) (\<lambda>p.
       Ok (attrs\<lparr>as4_path := Some p\<rparr>)))
     else if type_code = 18 \<and> n = 8 then
       Some (Ok (attrs\<lparr>as4_aggregator := Some (from_be_bytes (take 4 d), from_be_bytes (drop 4 d))\<rparr>))
     else if type_code = 23 then Some (Ok (attrs\<lparr>tunnel_encap := Some (parse_tunnel_encap d)\<rparr>))
     else if type_code = 32 then
       Some (Ok (attrs\<lparr>large_communities := large_communities attrs @ large_list d\<rparr>))
     else if type_code = 35 \<and> n = 4 then Some (Ok (attrs\<lparr>only_to_customer := Some (from_be_bytes d)\<rparr>))
     else if type_code = 29 then Some (Ok (attrs\<lparr>bgpls_attr := Some (parse_bgpls_attribute d)\<rparr>))
     else if type_code = 40 then
       Some (case parse_prefix_sid d of
          Ok s \<Rightarrow> Ok (attrs\<lparr>pa_prefix_sid := Some s\<rparr>)
        | Err _ \<Rightarrow> Ok (attrs\<lparr>pa_prefix_sid := None\<rparr>)
        | Panic \<Rightarrow> Panic)
     else if type_code = 30 then Some (and_then (parse_bgpsec_path X d) (\<lambda>p.
       Ok (attrs\<lparr>pa_bgpsec_path := Some p\<rparr>)))
     else None)"

definition parse_attribute ::
  "externals \<Rightarrow> bgp_decode_context \<Rightarrow> u8 \<Rightarrow> u8 \<Rightarrow> bytes \<Rightarrow> path_attributes \<Rightarrow> path_attributes result" where
  "parse_attribute X ctx flags type_code d attrs =
     (case base_attribute ctx type_code d attrs of Some r \<Rightarrow> r | None \<Rightarrow>
     (case mp_attribute X ctx type_code d attrs of Some r \<Rightarrow> r | None \<Rightarrow>
     (case optional_attribute X type_code d attrs of Some r \<Rightarrow> r | None \<Rightarrow>
      Ok (attrs\<lparr>unknown := unknown attrs @
        [\<lparr>raw_flags = flags, raw_type_code = type_code, raw_value = d\<rparr>]\<rparr>))))"

text \<open>The head of the loop: flags, type, a length of one or two bytes and the value.\<close>

definition attribute_header :: "bytes \<Rightarrow> (u8 \<times> u8 \<times> bytes \<times> bytes) result" where
  "attribute_header buf =
     (if length buf < 3 then Err (UnexpectedEof 3 (length buf)) else
      and_then (get_u8 buf) (\<lambda>(flags, buf).
      and_then (get_u8 buf) (\<lambda>(type_code, buf).
      and_then
        (if flags AND 0x10 \<noteq> 0 then
           if length buf < 2 then Err (UnexpectedEof 2 (length buf))
           else and_then (get_u16 buf) (\<lambda>(n, buf). Ok (unat n, buf))
         else and_then (get_u8 buf) (\<lambda>(n, buf). Ok (unat n, buf))) (\<lambda>(attr_len, buf).
      if length buf < attr_len then Err (TruncatedAttribute type_code attr_len (length buf)) else
      and_then (copy_to_bytes attr_len buf) (\<lambda>(attr_data, buf).
      Ok (flags, type_code, attr_data, buf))))))"

lemma attribute_header_rest: "attribute_header buf = Ok (f, t, d, r) \<Longrightarrow> length r < length buf"
  by (auto simp: attribute_header_def and_then_Ok_iff split: if_splits dest!: reader_lengths)

function attribute_loop ::
  "externals \<Rightarrow> bgp_decode_context \<Rightarrow> path_attributes \<Rightarrow> bytes \<Rightarrow> path_attributes result" where
  "attribute_loop X ctx attrs [] = Ok attrs"
| "attribute_loop X ctx attrs (b # bs) =
     and_then (attribute_header (b # bs)) (\<lambda>(flags, type_code, attr_data, buf).
     and_then (parse_attribute X ctx flags type_code attr_data attrs) (\<lambda>attrs'.
     attribute_loop X ctx attrs' buf))"
  by pat_completeness auto
termination
  by (relation "measure (\<lambda>(X, ctx, attrs, buf). length buf)") (use attribute_header_rest in fastforce)+

definition AS_TRANS :: u32 where
  "AS_TRANS = 23456"

definition fill_next_hop :: "path_attributes \<Rightarrow> path_attributes" where
  "fill_next_hop attrs = (case (next_hop attrs, mp_reach attrs) of
     (None, Some mp) \<Rightarrow> attrs\<lparr>next_hop := first_hop (mp_next_hops mp)\<rparr>
   | _ \<Rightarrow> attrs)"

definition merge_as4_path :: "bgp_decode_context \<Rightarrow> path_attributes \<Rightarrow> path_attributes" where
  "merge_as4_path ctx attrs = (case (pa_as_path attrs, as4_path attrs) of
     (Some p, Some p4) \<Rightarrow>
       if \<not> four_byte_asn ctx \<or> list_ex (\<lambda>seg. AS_TRANS \<in> set (asns seg)) (segments p)
       then attrs\<lparr>pa_as_path := Some (reconstruct_as_path p p4)\<rparr> else attrs
   | _ \<Rightarrow> attrs)"

definition merge_as4_aggregator :: "path_attributes \<Rightarrow> path_attributes" where
  "merge_as4_aggregator attrs = (case (aggregator attrs, as4_aggregator attrs) of
     (Some (a, _), Some agg4) \<Rightarrow> if a = AS_TRANS then attrs\<lparr>aggregator := Some agg4\<rparr> else attrs
   | _ \<Rightarrow> attrs)"

definition finish_attributes :: "bgp_decode_context \<Rightarrow> path_attributes \<Rightarrow> path_attributes" where
  "finish_attributes ctx attrs = merge_as4_aggregator (merge_as4_path ctx (fill_next_hop attrs))"

definition parse_path_attributes_with_context ::
  "externals \<Rightarrow> bytes \<Rightarrow> bgp_decode_context \<Rightarrow> path_attributes result" where
  "parse_path_attributes_with_context X buf ctx =
     and_then (attribute_loop X ctx default_attributes buf) (\<lambda>attrs. Ok (finish_attributes ctx attrs))"

definition parse_path_attributes :: "externals \<Rightarrow> bytes \<Rightarrow> path_attributes result" where
  "parse_path_attributes X buf = parse_path_attributes_with_context X buf default_context"

end
