(* ===== verification/Attribute_Laws.thy ===== *)
theory Attribute_Laws
  imports Attributes
begin

unbundle bit_operations_syntax

text \<open>
  What the attribute parser guarantees: AS paths round-trip at both AS number widths, the RFC 6793 merge of
  AS_PATH and AS4_PATH, the framing of the attribute list, the preservation of unrecognised attributes, and the
  attributes that can make it panic.
\<close>

section \<open>AS paths on the wire\<close>

fun seg_code :: "as_path_segment \<Rightarrow> u8" where
  "seg_code (AsSet _) = 1"
| "seg_code (AsSequence _) = 2"
| "seg_code (ConfedSequence _) = 3"
| "seg_code (ConfedSet _) = 4"

definition seg_wire :: "nat \<Rightarrow> as_path_segment \<Rightarrow> bytes" where
  "seg_wire k seg = seg_code seg # word_of_nat (length (asns seg)) # concat (map (to_be_bytes k) (asns seg))"

definition path_wire :: "nat \<Rightarrow> as_path \<Rightarrow> bytes" where
  "path_wire k p = concat (map (seg_wire k) (segments p))"

definition asns_fit :: "nat \<Rightarrow> as_path \<Rightarrow> bool" where
  "asns_fit k p \<longleftrightarrow>
     list_all (\<lambda>seg. length (asns seg) < 256 \<and> list_all (\<lambda>a. unat a < 256 ^ k) (asns seg)) (segments p)"

lemma from_be_bytes_fit: "unat (a :: u32) < 256 ^ k \<Longrightarrow> from_be_bytes (to_be_bytes k a) = a"
  by (simp add: from_be_bytes_def to_be_bytes_def be_nat_nat_to_be)

lemma length_concat_be [simp]: "length (concat (map (to_be_bytes k) v)) = length v * k"
  by (induction v) auto

lemma read_asns_wire:
  "list_all (\<lambda>a. unat a < 256 ^ k) v \<Longrightarrow> read_asns k (length v) (concat (map (to_be_bytes k) v) @ r) = v"
  by (induction v) (simp_all add: from_be_bytes_fit)

lemma as_segment_code: "as_segment (seg_code seg) (asns seg) = Ok seg"
  by (cases seg) (simp_all add: as_segment_def)

lemma parse_segments_wire:
  "asns_fit k (AsPath segs) \<Longrightarrow> parse_segments_of_size k (concat (map (seg_wire k) segs)) = Ok segs"
  by (induction segs)
    (simp_all add: asns_fit_def seg_wire_def Let_def unat_word_of_nat read_asns_wire as_segment_code)

lemma parse_path_wire: "asns_fit k p \<Longrightarrow> parse_as_path_with_asn_size (path_wire k p) k = Ok p"
  by (cases p) (simp add: parse_as_path_with_asn_size_def path_wire_def parse_segments_wire)

lemma parse_segments_no_panic [panics]: "parse_segments_of_size k buf \<noteq> Panic"
  by (induction k buf rule: parse_segments_of_size.induct)
    (auto simp: Let_def and_then_Panic_iff as_segment_def)

lemma parse_as_path_with_asn_size_no_panic [panics]: "parse_as_path_with_asn_size buf k \<noteq> Panic"
  by (simp add: parse_as_path_with_asn_size_def and_then_Panic_iff parse_segments_no_panic)

lemma or_else_keep_no_panic: "a \<noteq> Panic \<Longrightarrow> b \<noteq> Panic \<Longrightarrow> or_else_keep a b \<noteq> Panic"
  by (cases a; cases b) auto

lemma parse_as_path_no_panic [panics]: "parse_as_path buf four \<noteq> Panic"
  by (simp add: parse_as_path_def or_else_keep_no_panic parse_as_path_with_asn_size_no_panic)

text \<open>C35: AS paths round-trip: a path written with four-octet AS numbers is read back from a four-octet session
  and as AS4_PATH, and a path whose AS numbers fit two octets is read back from a two-octet session.\<close>

theorem as_path_roundtrip:
  assumes "asns_fit k p" and "k = 2 \<or> k = 4"
  shows "parse_as_path (path_wire k p) (k = 4) = Ok p \<and> parse_as_path_with_asn_size (path_wire k p) k = Ok p"
  using assms by (auto simp: parse_as_path_def parse_path_wire)

theorem as_path_roundtrip_witness:
  "parse_as_path (path_wire 2 (AsPath [AsSequence [64512, 3356], AsSet [174]])) False
     = Ok (AsPath [AsSequence [64512, 3356], AsSet [174]])"
  using as_path_roundtrip [of 2 "AsPath [AsSequence [64512, 3356], AsSet [174]]"]
  by (simp add: asns_fit_def)

section \<open>Merging AS4_PATH\<close>

definition flat_asns :: "as_path_segment list \<Rightarrow> u32 list" where
  "flat_asns segs = concat (map asns segs)"

lemma flat_asns_simps [simp]:
  "flat_asns [] = []" "flat_asns (s # ss) = asns s @ flat_asns ss" "flat_asns (xs @ ys) = flat_asns xs @ flat_asns ys"
  by (simp_all add: flat_asns_def)

lemma length_flat_asns: "length (flat_asns segs) = sum_list (map (\<lambda>s. length (asns s)) segs)"
  by (induction segs) auto

lemma asns_with_asns [simp]: "asns (with_asns seg v) = v"
  by (cases seg) auto

lemma keep_leading_flat: "flat_asns (keep_leading k segs) = take k (flat_asns segs)"
proof (induction k segs rule: keep_leading.induct)
  case (2 k seg segs)
  have *: "k - min k n = k - n" for n by simp
  from 2 show ?case by (cases "k = 0") (auto simp: Let_def * min_def)
qed simp

lemma push_segment_flat: "flat_asns (push_segment seg out) = flat_asns out @ asns seg"
proof (cases seg)
  case (AsSequence v)
  show ?thesis
  proof (cases out rule: rev_cases)
    case (snoc ys y)
    with AsSequence show ?thesis by (cases y) auto
  qed (use AsSequence in simp)
qed auto

lemma fold_push_segment_flat: "flat_asns (fold push_segment segs out) = flat_asns out @ flat_asns segs"
  by (induction segs arbitrary: out) (simp_all add: push_segment_flat)

text \<open>C36: The RFC 6793 merge: AS4_PATH without its confederation segments replaces the tail of AS_PATH of the
  same number of AS numbers, the leading AS numbers stay, and an AS4_PATH that is empty or longer than AS_PATH
  changes nothing. So the merge never changes how many AS numbers the path has.\<close>

theorem reconstruct_replaces_tail:
  "(let tail = flat_asns (filter (\<lambda>seg. \<not> is_confed seg) (segments p4)); old = flat_asns (segments p);
        new = flat_asns (segments (reconstruct_as_path p p4)) in
    new = (if length old < length tail then old else take (length old - length tail) old @ tail)
    \<and> length new = length old)"
  by (auto simp: reconstruct_as_path_def Let_def length_flat_asns [symmetric]
      fold_push_segment_flat keep_leading_flat)

section \<open>The attribute list on the wire\<close>

type_synonym attribute = "u8 \<times> u8 \<times> bytes"

definition attr_wire :: "attribute \<Rightarrow> bytes" where
  "attr_wire x = (case x of (f, t, d) \<Rightarrow>
     f # t # (if f AND 0x10 \<noteq> 0 then to_be_bytes 2 (word_of_nat (length d) :: u16)
       else [word_of_nat (length d)]) @ d)"

definition attr_ok :: "attribute \<Rightarrow> bool" where
  "attr_ok x \<longleftrightarrow> (case x of (f, t, d) \<Rightarrow> length d < (if f AND 0x10 \<noteq> 0 then 65536 else 256))"

lemma to_be_bytes_not_Nil [simp]: "to_be_bytes 2 w \<noteq> []"
  by (metis length_to_be_bytes list.size(3) zero_neq_numeral)

lemma attribute_header_wire:
  "attr_ok (f, t, d) \<Longrightarrow> attribute_header (attr_wire (f, t, d) @ r) = Ok (f, t, d, r)"
  by (auto simp: attr_ok_def attr_wire_def attribute_header_def reads unat_word_of_nat
      split: if_splits)

lemma attribute_loop_wire:
  "attr_ok (f, t, d) \<Longrightarrow> attribute_loop X ctx a (attr_wire (f, t, d) @ r) =
     and_then (parse_attribute X ctx f t d a) (\<lambda>a'. attribute_loop X ctx a' r)"
  using attribute_header_wire [of f t d r]
  by (cases "attr_wire (f, t, d) @ r") (simp_all add: attr_wire_def)

fun apply_attributes ::
  "externals \<Rightarrow> bgp_decode_context \<Rightarrow> attribute list \<Rightarrow> path_attributes \<Rightarrow> path_attributes result" where
  "apply_attributes X ctx [] a = Ok a"
| "apply_attributes X ctx ((f, t, d) # as) a = and_then (parse_attribute X ctx f t d a) (apply_attributes X ctx as)"

lemma attribute_loop_apply:
  "list_all attr_ok as \<Longrightarrow> attribute_loop X ctx a (concat (map attr_wire as)) = apply_attributes X ctx as a"
proof (induction as arbitrary: a)
  case (Cons x as)
  obtain f t d where x: "x = (f, t, d)" by (cases x) auto
  with Cons show ?case
    by (cases "parse_attribute X ctx f t d a") (simp_all add: attribute_loop_wire)
qed simp

section \<open>Unrecognised attributes\<close>

definition recognised :: "attribute \<Rightarrow> bool" where
  "recognised x \<longleftrightarrow> (case x of (f, t, d) \<Rightarrow>
     t \<in> {1, 2, 3, 4, 5, 6, 8, 10, 14, 15, 16, 17, 23, 29, 30, 32, 40}
     \<or> t = 7 \<and> (length d = 6 \<or> length d = 8) \<or> t = 9 \<and> length d = 4
     \<or> t = 18 \<and> length d = 8 \<or> t = 35 \<and> length d = 4)"

definition raw_of :: "attribute \<Rightarrow> raw_attribute" where
  "raw_of x = (case x of (f, t, d) \<Rightarrow> \<lparr>raw_flags = f, raw_type_code = t, raw_value = d\<rparr>)"

lemma base_attribute_unknown: "base_attribute ctx t d a = Some (Ok a') \<Longrightarrow> unknown a' = unknown a"
  by (auto simp: base_attribute_def Let_def and_then_Ok_iff split: if_splits)

lemma mp_attribute_unknown: "mp_attribute X ctx t d a = Some (Ok a') \<Longrightarrow> unknown a' = unknown a"
  by (auto simp: mp_attribute_def Let_def and_then_Ok_iff split: if_splits option.splits)

lemma optional_attribute_unknown: "optional_attribute X t d a = Some (Ok a') \<Longrightarrow> unknown a' = unknown a"
  by (auto simp: optional_attribute_def Let_def and_then_Ok_iff split: if_splits outcome.splits)

lemma recognised_iff:
  "recognised (f, t, d) \<longleftrightarrow> \<not> (base_attribute ctx t d a = None \<and> mp_attribute X ctx t d a = None
     \<and> optional_attribute X t d a = None)"
  by (auto simp: recognised_def base_attribute_def mp_attribute_def optional_attribute_def Let_def)

lemma parse_attribute_unknown:
  assumes "parse_attribute X ctx f t d a = Ok a'"
  shows "unknown a' = unknown a @ (if recognised (f, t, d) then [] else [raw_of (f, t, d)])"
  using assms
  by (auto simp: parse_attribute_def recognised_iff [of f t d ctx a X] raw_of_def split: option.splits
      dest!: base_attribute_unknown mp_attribute_unknown optional_attribute_unknown)

lemma apply_attributes_unknown:
  "apply_attributes X ctx as a = Ok a' \<Longrightarrow>
     unknown a' = unknown a @ map raw_of (filter (\<lambda>x. \<not> recognised x) as)"
proof (induction as arbitrary: a)
  case (Cons x as)
  obtain f t d where x: "x = (f, t, d)" by (cases x) auto
  with Cons.prems obtain b where b: "parse_attribute X ctx f t d a = Ok b" "apply_attributes X ctx as b = Ok a'"
    by (auto simp: and_then_Ok_iff)
  show ?case
    using Cons.IH [OF b(2)] parse_attribute_unknown [OF b(1)] by (simp add: x)
qed simp

lemma finish_attributes_unknown [simp]: "unknown (finish_attributes ctx a) = unknown a"
  by (simp add: finish_attributes_def merge_as4_aggregator_def merge_as4_path_def fill_next_hop_def
      split: option.splits prod.splits)

text \<open>C37: No attribute is lost: whatever attributes an UPDATE carries, a successful parse keeps those it does not
  recognise, with their flags, types and values, in the order they came.\<close>

theorem attributes_preserve_unknown:
  assumes "list_all attr_ok as"
    and "parse_path_attributes_with_context X (concat (map attr_wire as)) ctx = Ok r"
  shows "unknown r = map raw_of (filter (\<lambda>x. \<not> recognised x) as)"
  using assms
  by (auto simp: parse_path_attributes_with_context_def attribute_loop_apply and_then_Ok_iff
      default_attributes_def dest!: apply_attributes_unknown)

theorem attributes_preserve_unknown_witness:
  "\<exists>r. parse_path_attributes_with_context documented_externals (concat (map attr_wire [(0xC0, 99, [7]), (0x40, 6, [])]))
       default_context = Ok r
     \<and> unknown r = [\<lparr>raw_flags = 0xC0, raw_type_code = 99, raw_value = [7]\<rparr>]"
proof -
  let ?as = "[(0xC0, 99, [7]), (0x40, 6, [])] :: attribute list"
  have ok: "list_all attr_ok ?as" by (simp add: attr_ok_def)
  then obtain r where r: "parse_path_attributes_with_context documented_externals (concat (map attr_wire ?as)) default_context
      = Ok r"
    by (simp only: parse_path_attributes_with_context_def attribute_loop_apply [OF ok])
      (simp add: parse_attribute_def base_attribute_def mp_attribute_def optional_attribute_def Let_def)
  from attributes_preserve_unknown [OF ok r] r show ?thesis
    by (simp add: recognised_def raw_of_def)
qed

section \<open>The basic attributes\<close>

lemma u32_array_wire [simp]: "u32_array (concat (map (to_be_bytes 4) (ws :: u32 list))) = ws"
proof (induction ws)
  case (Cons w ws)
  have "to_be_bytes 4 w = [to_be_bytes 4 w ! 0, to_be_bytes 4 w ! 1, to_be_bytes 4 w ! 2, to_be_bytes 4 w ! 3]"
    by (rule nth_equalityI) (auto simp: less_Suc_eq numeral_eq_Suc)
  then obtain a b c d where w: "to_be_bytes 4 w = [a, b, c, d]" by blast
  then have "from_be_bytes [a, b, c, d] = w" using from_be_bytes_32 [of w] by simp
  with Cons w show ?case by simp
qed simp

fun origin_code :: "origin \<Rightarrow> u8" where
  "origin_code Igp = 0"
| "origin_code Egp = 1"
| "origin_code Incomplete = 2"

lemma origin_try_from_code [simp]: "origin_try_from (origin_code o') = Ok o'"
  by (cases o') (simp_all add: origin_try_from_def)

definition base_attrs ::
  "origin \<Rightarrow> as_path \<Rightarrow> ipv4 \<Rightarrow> u32 \<Rightarrow> u32 \<Rightarrow> standard_community list \<Rightarrow> attribute list" where
  "base_attrs o' p nh med lp cs =
     [(0x40, 1, [origin_code o']), (0x50, 2, path_wire 4 p), (0x40, 3, to_be_bytes 4 nh),
      (0x80, 4, to_be_bytes 4 med), (0x40, 5, to_be_bytes 4 lp),
      (0xD0, 8, concat (map (\<lambda>c. to_be_bytes 4 (sc_raw c)) cs))]"

lemma base_attrs_parse:
  assumes "asns_fit 4 p" and "length (path_wire 4 p) < 65536" and "length cs < 16384" and "four_byte_asn ctx"
  shows "parse_path_attributes_with_context X (concat (map attr_wire (base_attrs o' p nh med lp cs))) ctx =
    Ok (default_attributes\<lparr>pa_origin := Some o', pa_as_path := Some p, next_hop := Some (IpV4 nh),
      multi_exit_disc := Some med, local_pref := Some lp, communities := cs\<rparr>)"
proof -
  have cs: "concat (map (\<lambda>c. to_be_bytes 4 (sc_raw c)) cs) = concat (map (to_be_bytes 4) (map sc_raw cs))"
    by (simp add: comp_def)
  have ok: "list_all attr_ok (base_attrs o' p nh med lp cs)"
    using assms unfolding base_attrs_def cs list.pred_inject attr_ok_def prod.case length_concat_be by simp
  have path: "parse_as_path (path_wire 4 p) True = Ok p"
    using assms(1) by (simp add: parse_as_path_def parse_path_wire)
  have comms: "map StandardCommunity (map sc_raw cs) = cs"
    by (induction cs) auto
  show ?thesis
    unfolding parse_path_attributes_with_context_def attribute_loop_apply [OF ok]
    by (simp add: base_attrs_def cs comms parse_attribute_def base_attribute_def path reads assms(4)
        finish_attributes_def fill_next_hop_def merge_as4_path_def merge_as4_aggregator_def
        default_attributes_def Let_def del: map_map)
qed

section \<open>Which attributes can panic\<close>

lemma read_hops_no_panic [panics]: "read_hops a buf \<noteq> Panic"
  by (induction a buf rule: read_hops.induct) (auto simp: and_then_Panic_iff)

lemma decode_next_hops_no_panic [panics]: "decode_next_hops a buf \<noteq> Panic"
  by (auto simp: decode_next_hops_def Let_def and_then_Panic_iff read_hops_no_panic)

lemma decode_evpn_no_panic [panics]: "decode_evpn_nlri buf \<noteq> Panic"
  by (rule evpn_loop.loop_no_panic) (rule evpn_entry_no_panic)

lemma decode_unicast_no_panic [panics]: "decode_nlri_with_path_id X buf a ap \<noteq> Panic"
  by (rule path_id_loop.loop_no_panic) (rule nlri_with_path_id_entry_no_panic)

lemma decode_vpls_no_panic [panics]: "decode_vpls_nlri buf \<noteq> Panic"
  by (rule vpls_loop.loop_no_panic)
    (auto simp: vpls_entry_def vpls_more_def reads and_then_Panic_iff unat_from_be_bytes)

lemma decode_srpolicy_no_panic [panics]: "decode_srpolicy_nlri v buf \<noteq> Panic"
  by (rule srpolicy_loop.loop_no_panic)
    (auto simp: srpolicy_entry_def srpolicy_more_def Let_def and_then_Panic_iff split: if_splits)

lemma decode_rtc_no_panic [panics]: "decode_rtc_nlri buf \<noteq> Panic"
  by (simp add: decode_rtc_nlri_def rtc_loop_no_panic)

lemma decode_flowspec_v4_no_panic [panics]: "decode_flowspec_nlri False buf \<noteq> Panic"
  by (rule flowspec_loop.loop_no_panic)
    (auto simp: flowspec_entry_def flowspec_more_def reads and_then_Panic_iff parse_flowspec_nlri_def
      flowspec_components_no_panic split: option.splits)

text \<open>The signature block counter overflows only behind 255 blocks, so only in an attribute of more than
  510 bytes.\<close>

lemma count_sig_blocks_Panic:
  "count_sig_blocks X c buf = Panic \<Longrightarrow> overflow_checks X \<and> 2 * (256 - unat c) \<le> length buf"
proof (induction X c buf rule: count_sig_blocks.induct)
  case (1 X c l0 l1 a rest)
  show ?case
  proof (cases "add_u8 X c 1 :: u8 result")
    case (Ok c')
    with 1 have "overflow_checks X \<and> 2 * (256 - unat c')
        \<le> length (drop (unat (from_be_bytes [l0, l1] :: u16)) (a # rest))"
      by simp
    moreover from Ok have "overflow_checks X \<longrightarrow> unat c' = unat c + 1"
      by (auto simp: add_u8_def unat_word_ariths split: if_splits)
    ultimately show ?thesis by auto
  next
    case (Err e)
    then show ?thesis by (simp add: add_u8_def split: if_splits)
  next
    case Panic
    then show ?thesis by (auto simp: add_u8_def split: if_splits)
  qed
qed auto

lemma parse_bgpsec_path_Panic:
  "parse_bgpsec_path X buf = Panic \<Longrightarrow> overflow_checks X \<and> 514 \<le> length buf"
  by (auto simp: parse_bgpsec_path_def Let_def and_then_Panic_iff reads split: if_splits
      dest!: count_sig_blocks_Panic)

definition may_panic :: "externals \<Rightarrow> attribute \<Rightarrow> bool" where
  "may_panic X x \<longleftrightarrow> (case x of (f, t, d) \<Rightarrow>
     (t = 14 \<or> t = 15) \<and> 3 < length d \<and>
       (let fam = afi_safi_new (from_be_bytes (take 2 d)) (d ! 2) in
        safi fam \<in> {LabeledUnicast, MplsVpn, SafiBgpLs, BgpLsSrv6}
        \<or> safi fam \<in> {SafiFlowspec, FlowspecVpn} \<and> afi fam = AfiIpv6)
     \<or> t = 30 \<and> overflow_checks X \<and> 514 \<le> length d)"

lemma reach_nlri_Panic:
  "reach_nlri X f ap hops buf = Panic \<Longrightarrow> safi f \<in> {LabeledUnicast, MplsVpn, SafiBgpLs, BgpLsSrv6}
     \<or> safi f \<in> {SafiFlowspec, FlowspecVpn} \<and> afi f = AfiIpv6"
  by (cases "safi f"; cases "afi f = AfiIpv6")
    (simp_all add: reach_nlri_def and_then_Panic_iff panics)

lemma unreach_nlri_Panic:
  "unreach_nlri X f ap buf = Panic \<Longrightarrow> safi f \<in> {LabeledUnicast, MplsVpn, SafiBgpLs, BgpLsSrv6}
     \<or> safi f \<in> {SafiFlowspec, FlowspecVpn} \<and> afi f = AfiIpv6"
  by (cases "safi f"; cases "afi f = AfiIpv6")
    (simp_all add: unreach_nlri_def and_then_Panic_iff panics)

lemma parse_mp_reach_Panic: "parse_mp_reach X d ctx = Panic \<Longrightarrow> may_panic X (f, 14, d)"
  by (auto simp: parse_mp_reach_def may_panic_def Let_def and_then_Panic_iff reads panics split: if_splits
      dest!: reach_nlri_Panic)

lemma parse_mp_unreach_Panic: "parse_mp_unreach X d ctx = Panic \<Longrightarrow> may_panic X (f, 15, d)"
  by (auto simp: parse_mp_unreach_def may_panic_def Let_def and_then_Panic_iff reads split: if_splits
      dest!: unreach_nlri_Panic)

lemma base_attribute_no_panic: "base_attribute ctx t d a \<noteq> Some Panic"
  by (auto simp: base_attribute_def Let_def and_then_Panic_iff panics origin_try_from_def)

lemma mp_attribute_Panic: "mp_attribute X ctx t d a = Some Panic \<Longrightarrow> may_panic X (f, t, d)"
  by (auto simp: mp_attribute_def Let_def and_then_Panic_iff split: if_splits
      dest!: parse_mp_reach_Panic parse_mp_unreach_Panic)

lemma optional_attribute_Panic: "optional_attribute X t d a = Some Panic \<Longrightarrow> may_panic X (f, t, d)"
  using parse_prefix_sid_Ok [of d]
  by (auto simp: optional_attribute_def Let_def and_then_Panic_iff panics may_panic_def
      split: if_splits outcome.splits dest!: parse_bgpsec_path_Panic)

lemma parse_attribute_Panic: "parse_attribute X ctx f t d a = Panic \<Longrightarrow> may_panic X (f, t, d)"
  by (auto simp: parse_attribute_def base_attribute_no_panic mp_attribute_Panic optional_attribute_Panic
      split: option.splits)

lemma attribute_header_no_panic [panics]: "attribute_header buf \<noteq> Panic"
  by (auto simp: attribute_header_def and_then_Panic_iff reads split: if_splits)

text \<open>The attributes a buffer contains, as far as their framing holds.\<close>

function attribute_walk :: "bytes \<Rightarrow> attribute list" where
  "attribute_walk [] = []"
| "attribute_walk (b # bs) = (case attribute_header (b # bs) of
     Ok (f, t, d, r) \<Rightarrow> (f, t, d) # attribute_walk r | _ \<Rightarrow> [])"
  by pat_completeness auto
termination
  by (relation "measure length") (use attribute_header_rest in fastforce)+

lemma attribute_loop_Panic:
  "attribute_loop X ctx a buf = Panic \<Longrightarrow> \<exists>x \<in> set (attribute_walk buf). may_panic X x"
proof (induction X ctx a buf rule: attribute_loop.induct)
  case (2 X ctx a b bs)
  obtain f t d r where h: "attribute_header (b # bs) = Ok (f, t, d, r)"
    using "2.prems" attribute_header_no_panic [of "b # bs"]
    by (cases "attribute_header (b # bs)") auto
  show ?case
  proof (cases "parse_attribute X ctx f t d a")
    case (Ok a')
    with "2.prems" h have "attribute_loop X ctx a' r = Panic" by simp
    from "2.IH" [OF h refl refl refl Ok this] h show ?thesis by simp
  next
    case (Err e)
    with "2.prems" h show ?thesis by simp
  next
    case Panic
    with h show ?thesis by (simp add: parse_attribute_Panic)
  qed
qed simp

lemma parse_path_attributes_Panic:
  "parse_path_attributes_with_context X buf ctx = Panic \<Longrightarrow> \<exists>x \<in> set (attribute_walk buf). may_panic X x"
  by (auto simp: parse_path_attributes_with_context_def and_then_Panic_iff dest!: attribute_loop_Panic)

section \<open>Path identifiers run parallel to the prefixes\<close>

definition parallel_ids :: "path_attributes \<Rightarrow> bool" where
  "parallel_ids a \<longleftrightarrow>
     (case mp_reach a of None \<Rightarrow> True | Some mp \<Rightarrow> length (mp_path_ids mp) = length (mp_prefixes mp))
     \<and> (case mp_unreach a of None \<Rightarrow> True | Some mp \<Rightarrow> length (mu_path_ids mp) = length (mu_prefixes mp))"

lemma reach_nlri_parallel:
  "reach_nlri X f ap hops buf = Ok (mp, rest) \<Longrightarrow> length (mp_path_ids mp) = length (mp_prefixes mp)"
  by (cases "safi f") (auto simp: reach_nlri_def Let_def and_then_Ok_iff)

lemma unreach_nlri_parallel:
  "unreach_nlri X f ap buf = Ok (mp, rest) \<Longrightarrow> length (mu_path_ids mp) = length (mu_prefixes mp)"
  by (cases "safi f") (auto simp: unreach_nlri_def Let_def and_then_Ok_iff)

lemma mp_attribute_parallel:
  "mp_attribute X ctx t d a = Some (Ok a') \<Longrightarrow> parallel_ids a \<Longrightarrow> parallel_ids a'"
  by (auto simp: mp_attribute_def parse_mp_reach_def parse_mp_unreach_def parallel_ids_def Let_def
      and_then_Ok_iff split: if_splits option.splits dest!: reach_nlri_parallel unreach_nlri_parallel)

lemma other_attributes_keep_mp:
  "base_attribute ctx t d a = Some (Ok a') \<Longrightarrow> mp_reach a' = mp_reach a \<and> mp_unreach a' = mp_unreach a"
  "optional_attribute X t d a = Some (Ok a') \<Longrightarrow> mp_reach a' = mp_reach a \<and> mp_unreach a' = mp_unreach a"
  by (auto simp: base_attribute_def optional_attribute_def Let_def and_then_Ok_iff
      split: if_splits outcome.splits)

lemma parse_attribute_parallel:
  "parse_attribute X ctx f t d a = Ok a' \<Longrightarrow> parallel_ids a \<Longrightarrow> parallel_ids a'"
  by (auto simp: parse_attribute_def split: option.splits
      dest: mp_attribute_parallel dest!: other_attributes_keep_mp) (auto simp: parallel_ids_def)

text \<open>What every attribute keeps, the whole list keeps.\<close>

lemma attribute_loop_inv:
  assumes step: "\<And>f t d a a'. parse_attribute X ctx f t d a = Ok a' \<Longrightarrow> I a \<Longrightarrow> I a'"
    and "attribute_loop X ctx a buf = Ok a'" and "I a"
  shows "I a'"
  using assms(2, 3)
proof (induction buf arbitrary: a rule: measure_induct_rule [where f = length])
  case (less buf)
  show ?case
  proof (cases buf)
    case (Cons b bs)
    with less.prems obtain f t d r a1 where h: "attribute_header (b # bs) = Ok (f, t, d, r)"
        and p: "parse_attribute X ctx f t d a = Ok a1" and l: "attribute_loop X ctx a1 r = Ok a'"
      by (auto simp: and_then_Ok_iff)
    have "length r < length buf" using attribute_header_rest [OF h] by (simp add: Cons)
    from less.IH [OF this l step [OF p less.prems(2)]] show ?thesis .
  qed (use less.prems in simp)
qed

lemma parse_path_attributes_parallel:
  assumes "parse_path_attributes_with_context X buf ctx = Ok a"
  shows "parallel_ids a"
proof -
  from assms obtain b where b: "attribute_loop X ctx default_attributes buf = Ok b" "a = finish_attributes ctx b"
    by (auto simp: parse_path_attributes_with_context_def and_then_Ok_iff)
  have init: "parallel_ids default_attributes" by (simp add: parallel_ids_def default_attributes_def)
  have "parallel_ids b"
    by (rule attribute_loop_inv [where I = parallel_ids, OF _ b(1) init]) (erule (1) parse_attribute_parallel)
  then show ?thesis
    by (simp add: b(2) finish_attributes_def merge_as4_aggregator_def merge_as4_path_def fill_next_hop_def
        parallel_ids_def split: option.splits prod.splits)
qed

section \<open>No attribute sets the path status\<close>

lemma attributes_keep_status:
  "base_attribute ctx t d a = Some (Ok a') \<Longrightarrow> path_status a' = path_status a"
  "mp_attribute X ctx t d a = Some (Ok a') \<Longrightarrow> path_status a' = path_status a"
  "optional_attribute X t d a = Some (Ok a') \<Longrightarrow> path_status a' = path_status a"
  by (auto simp: base_attribute_def mp_attribute_def optional_attribute_def Let_def and_then_Ok_iff
      split: if_splits outcome.splits option.splits)

lemma parse_attribute_status: "parse_attribute X ctx f t d a = Ok a' \<Longrightarrow> path_status a = None \<Longrightarrow> path_status a' = None"
  by (auto simp: parse_attribute_def split: option.splits dest!: attributes_keep_status)

lemma parse_path_attributes_status:
  assumes "parse_path_attributes_with_context X buf ctx = Ok a"
  shows "path_status a = None"
proof -
  from assms obtain b where b: "attribute_loop X ctx default_attributes buf = Ok b" "a = finish_attributes ctx b"
    by (auto simp: parse_path_attributes_with_context_def and_then_Ok_iff)
  have init: "path_status default_attributes = None" by (simp add: default_attributes_def)
  have "path_status b = None"
    by (rule attribute_loop_inv [where I = "\<lambda>a. path_status a = None", OF _ b(1) init])
      (erule (1) parse_attribute_status)
  then show ?thesis
    by (simp add: b(2) finish_attributes_def merge_as4_aggregator_def merge_as4_path_def fill_next_hop_def
        split: option.splits prod.splits)
qed

end
