(* ===== verification/Update.thy ===== *)
theory Update
  imports Attribute_Laws
begin

text \<open>
  \<open>crates/rbmp-core/src/bgp/update.rs\<close> and \<open>BgpUpdate\<close> of \<open>bgp/types.rs\<close>: UPDATE messages, the
  End-of-RIB test and the views of the announced and withdrawn prefixes.
\<close>

section \<open>Definitions\<close>

record bgp_update =
  withdrawn :: "prefix list"
  withdrawn_path_ids :: "u32 option list"
  attributes :: path_attributes
  announced :: "prefix list"
  announced_path_ids :: "u32 option list"

definition eor_afi_safi :: "bgp_update \<Rightarrow> afi_safi option" where
  "eor_afi_safi u = (let a = attributes u in
     if withdrawn u \<noteq> [] \<or> announced u \<noteq> [] \<or> mp_reach a \<noteq> None \<or> pa_origin a \<noteq> None \<or> pa_as_path a \<noteq> None
       \<or> next_hop a \<noteq> None \<or> evpn_reach a \<noteq> None \<or> evpn_unreach a \<noteq> None \<or> flowspec_reach a \<noteq> None
       \<or> flowspec_unreach a \<noteq> None \<or> bgpls_reach a \<noteq> None \<or> bgpls_unreach a \<noteq> None
       \<or> sr_policy_nlris a \<noteq> [] \<or> rtc_nlris a \<noteq> [] \<or> unknown a \<noteq> []
     then None
     else case mp_unreach a of
         None \<Rightarrow> Some ipv4_unicast
       | Some mp \<Rightarrow> if mu_prefixes mp = [] then Some (mu_afi_safi mp) else None)"

definition is_eor :: "bgp_update \<Rightarrow> bool" where
  "is_eor u \<longleftrightarrow> eor_afi_safi u \<noteq> None"

text \<open>\<open>prefixes.iter().zip(ids.iter().chain(repeat(&None)))\<close>\<close>

definition zip_ids :: "prefix list \<Rightarrow> u32 option list \<Rightarrow> (prefix \<times> u32 option) list" where
  "zip_ids ps ids = zip ps (ids @ replicate (length ps) None)"

definition all_announced_with_path_id :: "bgp_update \<Rightarrow> (prefix \<times> u32 option) list" where
  "all_announced_with_path_id u = zip_ids (announced u) (announced_path_ids u) @
     (case mp_reach (attributes u) of None \<Rightarrow> [] | Some mp \<Rightarrow> zip_ids (mp_prefixes mp) (mp_path_ids mp))"

definition all_withdrawn_with_path_id :: "bgp_update \<Rightarrow> (prefix \<times> u32 option) list" where
  "all_withdrawn_with_path_id u = zip_ids (withdrawn u) (withdrawn_path_ids u) @
     (case mp_unreach (attributes u) of None \<Rightarrow> [] | Some mp \<Rightarrow> zip_ids (mu_prefixes mp) (mu_path_ids mp))"

definition all_announced :: "bgp_update \<Rightarrow> prefix list" where
  "all_announced u = announced u @ (case mp_reach (attributes u) of None \<Rightarrow> [] | Some mp \<Rightarrow> mp_prefixes mp)"

definition all_withdrawn :: "bgp_update \<Rightarrow> prefix list" where
  "all_withdrawn u = withdrawn u @ (case mp_unreach (attributes u) of None \<Rightarrow> [] | Some mp \<Rightarrow> mu_prefixes mp)"

text \<open>A two-byte length and as many bytes: the withdrawn routes and the attribute section.\<close>

definition length_prefixed :: "bytes \<Rightarrow> (bytes \<times> bytes) result" where
  "length_prefixed body =
     (if length body < 2 then Err (UnexpectedEof 2 (length body)) else
      and_then (get_u16 body) (\<lambda>(n, body).
      if length body < unat n then Err (UnexpectedEof (unat n) (length body)) else
      copy_to_bytes (unat n) body))"

definition parse_update_body :: "externals \<Rightarrow> bytes \<Rightarrow> bgp_decode_context \<Rightarrow> bgp_update result" where
  "parse_update_body X body ctx =
     (let add_path_ipv4 = has_add_path ctx ipv4_unicast in
      and_then (length_prefixed body) (\<lambda>(withdrawn_bytes, body).
      and_then (decode_nlri_with_path_id X withdrawn_bytes AfiIpv4 add_path_ipv4) (\<lambda>wd.
      and_then (length_prefixed body) (\<lambda>(attr_bytes, body).
      and_then (parse_path_attributes_with_context X attr_bytes ctx) (\<lambda>attrs.
      and_then (decode_nlri_with_path_id X body AfiIpv4 add_path_ipv4) (\<lambda>ann.
      Ok \<lparr>withdrawn = map fst wd, withdrawn_path_ids = map snd wd, attributes = attrs,
          announced = map fst ann, announced_path_ids = map snd ann\<rparr>))))))"

definition parse_bgp_update_with_context :: "externals \<Rightarrow> bytes \<Rightarrow> bgp_decode_context \<Rightarrow> bgp_update result" where
  "parse_bgp_update_with_context X buf ctx =
     (if length buf < 19 then Err (UnexpectedEof 19 (length buf)) else
      and_then (copy_to_bytes 16 buf) (\<lambda>(marker, buf).
      if marker \<noteq> replicate 16 0xFF then Err InvalidBgpMarker else
      and_then (get_u16 buf) (\<lambda>(len, buf).
      and_then (get_u8 buf) (\<lambda>(msg_type, buf).
      let msg_len = unat len; body_len = msg_len - 19 in
      if msg_type \<noteq> 2 then Err (InvalidBgpMessageType msg_type)
      else if \<not> (23 \<le> msg_len \<and> msg_len \<le> 4096) then
        Err (BgpParse (''invalid BGP UPDATE declared length '' @ dec msg_len @ '' (must be 23..=4096)''))
      else if length buf < body_len then Err (UnexpectedEof msg_len (19 + length buf))
      else if length buf > body_len then
        Err (BgpParse (''BGP UPDATE buffer length '' @ dec (19 + length buf) @ '' exceeds declared length ''
          @ dec msg_len))
      else and_then (copy_to_bytes body_len buf) (\<lambda>(body, rest). parse_update_body X body ctx)))))"

definition parse_bgp_update :: "externals \<Rightarrow> bytes \<Rightarrow> bool \<Rightarrow> bgp_update result" where
  "parse_bgp_update X buf add_path_ipv4 =
     parse_bgp_update_with_context X buf (with_add_path_ipv4 add_path_ipv4)"

section \<open>Wire format\<close>

definition update_message :: "bytes \<Rightarrow> bytes" where
  "update_message body = replicate 16 0xFF @ to_be_bytes 2 (word_of_nat (19 + length body) :: u16) @ [2] @ body"

definition prefixed :: "bytes \<Rightarrow> bytes" where
  "prefixed bs = to_be_bytes 2 (word_of_nat (length bs) :: u16) @ bs"

definition update_wire ::
  "(prefix \<times> u32 option) list \<Rightarrow> attribute list \<Rightarrow> (prefix \<times> u32 option) list \<Rightarrow> bytes" where
  "update_wire wd as ann = update_message
     (prefixed (concat (map nlri_wire wd)) @ prefixed (concat (map attr_wire as)) @ concat (map nlri_wire ann))"

section \<open>Lemmas\<close>

lemma length_prefixed_no_panic [panics]: "length_prefixed b \<noteq> Panic"
  by (auto simp: length_prefixed_def and_then_Panic_iff reads)

lemma length_prefixed_wire: "length bs < 65536 \<Longrightarrow> length_prefixed (prefixed bs @ r) = Ok (bs, r)"
  by (simp add: length_prefixed_def prefixed_def reads unat_word_of_nat)

lemma update_message_parse:
  assumes "4 \<le> length body" "length body \<le> 4077"
  shows "parse_bgp_update_with_context X (update_message body) ctx = parse_update_body X body ctx"
proof -
  have "unat (word_of_nat (19 + length body) :: u16) = 19 + length body"
    by (rule unat_word_of_nat) (use assms in simp)
  with assms show ?thesis
    by (simp add: parse_bgp_update_with_context_def update_message_def reads Let_def)
qed

lemma length_prefixed_Ok: "length_prefixed b = Ok (x, y) \<Longrightarrow>
  2 \<le> length b \<and> x = take (be_nat (take 2 b)) (drop 2 b) \<and> y = drop (be_nat (take 2 b)) (drop 2 b)"
  by (auto simp: length_prefixed_def and_then_Ok_iff get_u16_def copy_to_bytes_def unat_from_be_bytes
      split: if_splits)

lemma parse_update_accepts:
  "parse_bgp_update_with_context X buf ctx = Ok u \<Longrightarrow>
    length buf = be_nat (take 2 (drop 16 buf)) \<and> 23 \<le> length buf \<and> length buf \<le> 4096
    \<and> take 16 buf = replicate 16 0xFF \<and> buf ! 18 = 2 \<and> parse_update_body X (drop 19 buf) ctx = Ok u"
  by (auto simp: parse_bgp_update_with_context_def Let_def and_then_Ok_iff get_u8_def get_u16_def
      copy_to_bytes_def unat_from_be_bytes split: if_splits)

lemma parse_update_Panic:
  "parse_bgp_update_with_context X buf ctx = Panic \<Longrightarrow> parse_update_body X (drop 19 buf) ctx = Panic"
  by (auto simp: parse_bgp_update_with_context_def Let_def and_then_Panic_iff get_u8_def get_u16_def
      copy_to_bytes_def unat_from_be_bytes split: if_splits)

lemma parse_update_body_Panic:
  "parse_update_body X body ctx = Panic \<Longrightarrow> \<exists>wd rest attr_bytes rest'. length_prefixed body = Ok (wd, rest)
    \<and> length_prefixed rest = Ok (attr_bytes, rest') \<and> (\<exists>x \<in> set (attribute_walk attr_bytes). may_panic X x)"
  by (auto simp: parse_update_body_def Let_def and_then_Panic_iff panics dest!: parse_path_attributes_Panic)

lemma parse_update_body_OkE:
  assumes "parse_update_body X body ctx = Ok u"
  obtains w a n wd ann where "decode_nlri_with_path_id X w AfiIpv4 (has_add_path ctx ipv4_unicast) = Ok wd"
    "parse_path_attributes_with_context X a ctx = Ok (attributes u)"
    "decode_nlri_with_path_id X n AfiIpv4 (has_add_path ctx ipv4_unicast) = Ok ann"
    "withdrawn u = map fst wd" "withdrawn_path_ids u = map snd wd"
    "announced u = map fst ann" "announced_path_ids u = map snd ann"
proof -
  from assms show ?thesis
    apply (clarsimp simp: parse_update_body_def and_then_Ok_iff Let_def)
    subgoal for w r wd a n attrs ann by (rule that [of w wd a n ann]) simp_all
    done
qed

lemma zip_ids_parallel: "length ids = length ps \<Longrightarrow> zip_ids ps ids = zip ps ids"
  by (simp add: zip_ids_def zip_append2)

lemma map_fst_zip_ids: "map fst (zip_ids ps ids) = ps"
  by (simp add: zip_ids_def map_fst_zip_take)

lemma decode_nlri_wire:
  assumes "ipnet X" and "\<forall>(p, path_id) \<in> set ps. canonical_net a p \<and> (path_id \<noteq> None \<longleftrightarrow> ap)"
  shows "decode_nlri_with_path_id X (concat (map nlri_wire ps)) a ap = Ok ps"
proof (rule path_id_loop.loop_encoded)
  fix e r assume "e \<in> set ps"
  with assms show "nlri_wire e @ r \<noteq> [] \<and> nlri_with_path_id_entry X a ap (nlri_wire e @ r) = Ok ([e], r)"
    by (cases e) (auto simp del: nlri_wire.simps simp: ipnet.entry_wire; simp)
qed

lemma decode_nlri_ids:
  assumes "decode_nlri_with_path_id X buf a ap = Ok ps" and "e \<in> set ps"
  shows "snd e \<noteq> None \<longleftrightarrow> ap"
proof -
  have entry: "snd e \<noteq> None \<longleftrightarrow> ap" if "nlri_with_path_id_entry X a ap s = Ok (xs, s')" "e \<in> set xs" for s xs s' e
    using that by (auto simp: nlri_with_path_id_entry_def read_path_id_def Let_def and_then_Ok_iff split: if_splits)
  show ?thesis
    by (rule path_id_loop.loop_all [OF _ assms]) (rule entry)
qed

lemma length_prefixed_bytes [simp]: "length (prefixed bs) = 2 + length bs"
  by (simp add: prefixed_def)

lemma update_message_Ok:
  assumes "23 + length w + length a + length n \<le> 4096"
    and "decode_nlri_with_path_id X w AfiIpv4 (has_add_path ctx ipv4_unicast) = Ok wd"
    and "parse_path_attributes_with_context X a ctx = Ok attrs"
    and "decode_nlri_with_path_id X n AfiIpv4 (has_add_path ctx ipv4_unicast) = Ok ann"
  shows "parse_bgp_update_with_context X (update_message (prefixed w @ prefixed a @ n)) ctx =
    Ok \<lparr>withdrawn = map fst wd, withdrawn_path_ids = map snd wd, attributes = attrs,
        announced = map fst ann, announced_path_ids = map snd ann\<rparr>"
proof -
  have "parse_bgp_update_with_context X (update_message (prefixed w @ prefixed a @ n)) ctx =
      parse_update_body X (prefixed w @ prefixed a @ n) ctx"
    by (rule update_message_parse) (use assms(1) in simp_all)
  moreover have "length w < 65536" "length a < 65536" using assms(1) by simp_all
  ultimately show ?thesis
    using assms(2-4) by (simp add: parse_update_body_def length_prefixed_wire)
qed

section \<open>Properties\<close>

lemma attributes_none: "parse_path_attributes_with_context X [] ctx = Ok default_attributes"
  by (simp add: parse_path_attributes_with_context_def finish_attributes_def fill_next_hop_def merge_as4_path_def
      merge_as4_aggregator_def default_attributes_def)

text \<open>An attribute section with MP_UNREACH_NLRI alone.\<close>

lemma unreach_only:
  "and_then (apply_attributes X ctx [(f, 15, d)] default_attributes) (\<lambda>a. Ok (finish_attributes ctx a)) =
    and_then (parse_mp_unreach X d ctx) (\<lambda>(mp, evpn, fs, ls, sr, rtc).
      Ok (default_attributes\<lparr>mp_unreach := Some mp, evpn_unreach := evpn, flowspec_unreach := fs,
        bgpls_unreach := ls, sr_policy_nlris := (case sr of Some ns \<Rightarrow> ns | None \<Rightarrow> [])\<rparr>))"
  by (cases "parse_mp_unreach X d ctx")
    (auto simp: parse_attribute_def base_attribute_def mp_attribute_def finish_attributes_def fill_next_hop_def
      merge_as4_path_def merge_as4_aggregator_def default_attributes_def Let_def split: option.splits)

text \<open>C14: UPDATE messages compose: a message that carries withdrawn routes, the basic path attributes and announced
  routes, all well formed and within the 4096 bytes of a message, parses to exactly these, on a four-octet
  session with or without Add-Path.\<close>

theorem update_roundtrip:
  assumes "ipnet X" and "asns_fit 4 p" and "length (update_wire wd (base_attrs o' p nh med lp cs) ann) \<le> 4096"
    and "four_byte_asn ctx"
    and "\<forall>(q, path_id) \<in> set wd \<union> set ann. canonical_net AfiIpv4 q \<and> (path_id \<noteq> None \<longleftrightarrow> has_add_path ctx ipv4_unicast)"
  shows "parse_bgp_update_with_context X (update_wire wd (base_attrs o' p nh med lp cs) ann) ctx =
    Ok \<lparr>withdrawn = map fst wd, withdrawn_path_ids = map snd wd,
        attributes = default_attributes\<lparr>pa_origin := Some o', pa_as_path := Some p, next_hop := Some (IpV4 nh),
          multi_exit_disc := Some med, local_pref := Some lp, communities := cs\<rparr>,
        announced = map fst ann, announced_path_ids = map snd ann\<rparr>"
proof -
  let ?w = "concat (map nlri_wire wd)" and ?n = "concat (map nlri_wire ann)"
  let ?a = "concat (map attr_wire (base_attrs o' p nh med lp cs))"
  have len: "23 + length ?w + length ?a + length ?n \<le> 4096"
    using assms(3) unfolding update_wire_def update_message_def by simp
  have parts: "length (path_wire 4 p) + 4 * length cs \<le> length ?a"
    by (induction cs) (simp_all add: base_attrs_def attr_wire_def)
  have attrs: "parse_path_attributes_with_context X ?a ctx = Ok (default_attributes\<lparr>pa_origin := Some o',
      pa_as_path := Some p, next_hop := Some (IpV4 nh), multi_exit_disc := Some med, local_pref := Some lp,
      communities := cs\<rparr>)"
    by (rule base_attrs_parse [OF assms(2) _ _ assms(4)]) (use len parts in linarith)+
  have wd: "decode_nlri_with_path_id X ?w AfiIpv4 (has_add_path ctx ipv4_unicast) = Ok wd"
    by (rule decode_nlri_wire [OF assms(1)]) (use assms(5) in simp)
  have ann: "decode_nlri_with_path_id X ?n AfiIpv4 (has_add_path ctx ipv4_unicast) = Ok ann"
    by (rule decode_nlri_wire [OF assms(1)]) (use assms(5) in simp)
  show ?thesis
    unfolding update_wire_def by (rule update_message_Ok [OF len wd attrs ann])
qed

theorem update_roundtrip_witness:
  "parse_bgp_update_with_context documented_externals
      (update_wire [(PrefixV4 (Ipv4Net 0x0A000000 8), None)]
        (base_attrs Egp (AsPath [AsSequence [64512]]) 0xC0000201 5 100 []) [(PrefixV4 (Ipv4Net 0xC0000200 24), None)])
      default_context =
    Ok \<lparr>withdrawn = map fst [(PrefixV4 (Ipv4Net 0x0A000000 8), None :: u32 option)], withdrawn_path_ids = [None],
        attributes = default_attributes\<lparr>pa_origin := Some Egp, pa_as_path := Some (AsPath [AsSequence [64512]]),
          next_hop := Some (IpV4 0xC0000201), multi_exit_disc := Some 5, local_pref := Some 100, communities := []\<rparr>,
        announced = [PrefixV4 (Ipv4Net 0xC0000200 24)], announced_path_ids = [None]\<rparr>"
  using update_roundtrip [OF doc_ipnet.ipnet_axioms, where p = "AsPath [AsSequence [64512]]"
      and wd = "[(PrefixV4 (Ipv4Net 0x0A000000 8), None)]" and o' = Egp and nh = "0xC0000201" and med = 5 and lp = 100
      and cs = "[]" and ann = "[(PrefixV4 (Ipv4Net 0xC0000200 24), None)]" and ctx = default_context]
  by (simp add: doc_ipnet.ipnet_axioms asns_fit_def default_context_def has_add_path_def clear_host_bits_def
      mask_eq_exp_minus_1 update_wire_def update_message_def prefixed_def base_attrs_def attr_wire_def
      path_wire_def seg_wire_def div_ceil8_def)

text \<open>C20: An UPDATE is accepted only when framed exactly: all-ones marker, type 2, a buffer of the declared length
  between 23 and 4096. The parser panics on no message except one whose attribute section carries an MP
  attribute of a labeled, VPN, IPv6 flow specification or link-state family, or, with overflow checks, a
  BGPsec attribute of more than 513 bytes.\<close>

theorem update_framing_and_panics:
  "(\<forall>u. parse_bgp_update_with_context X buf ctx = Ok u \<longrightarrow>
      length buf = be_nat (take 2 (drop 16 buf)) \<and> 23 \<le> length buf \<and> length buf \<le> 4096
      \<and> take 16 buf = replicate 16 0xFF \<and> buf ! 18 = 2)
   \<and> (parse_bgp_update_with_context X buf ctx = Panic \<longrightarrow>
      (\<exists>wd rest attr_bytes nlri. length_prefixed (drop 19 buf) = Ok (wd, rest)
        \<and> length_prefixed rest = Ok (attr_bytes, nlri) \<and> (\<exists>x \<in> set (attribute_walk attr_bytes). may_panic X x)))"
  using parse_update_accepts [of X buf ctx] parse_update_body_Panic [OF parse_update_Panic [of X buf ctx]] by blast

theorem update_framing_and_panics_witness:
  "\<exists>u. parse_bgp_update_with_context documented_externals (update_message (prefixed [] @ prefixed [] @ [])) default_context = Ok u
    \<and> length (update_message (prefixed [] @ prefixed [] @ [])) = be_nat (take 2 (drop 16 (update_message (prefixed [] @ prefixed [] @ []))))"
proof -
  obtain u where "parse_bgp_update_with_context documented_externals (update_message (prefixed [] @ prefixed [] @ []))
      default_context = Ok u"
    using update_message_Ok [of "[]" "[]" "[]" documented_externals default_context "[]" default_attributes "[]"]
    by (simp add: attributes_none)
  with update_framing_and_panics [of documented_externals "update_message (prefixed [] @ prefixed [] @ [])" default_context]
  show ?thesis by blast
qed

text \<open>C34: The End-of-RIB marker of every family is recognised: the empty UPDATE marks IPv4 unicast, an UPDATE with
  nothing but an empty MP_UNREACH_NLRI marks the family it names. A recognised marker carries no IPv4 prefix
  and withdraws none through MP_UNREACH.\<close>

theorem eor_recognised:
  "(\<exists>u. parse_bgp_update_with_context X (update_wire [] [] []) ctx = Ok u \<and> eor_afi_safi u = Some ipv4_unicast)
   \<and> (\<exists>u. parse_bgp_update_with_context X (update_wire [] [(0x80, 15, to_be_bytes 2 a @ [s])] []) ctx = Ok u
        \<and> eor_afi_safi u = Some (afi_safi_new a s))
   \<and> (eor_afi_safi v = Some f \<longrightarrow> all_announced v = [] \<and> all_withdrawn v = [])"
proof (intro conjI)
  have "parse_bgp_update_with_context X (update_wire [] [] []) ctx =
      Ok \<lparr>withdrawn = [], withdrawn_path_ids = [], attributes = default_attributes,
        announced = [], announced_path_ids = []\<rparr>"
    unfolding update_wire_def list.map concat.simps
    by (rule update_message_Ok [where wd = "[]" and ann = "[]", unfolded list.map]) (simp_all add: attributes_none)
  then show "\<exists>u. parse_bgp_update_with_context X (update_wire [] [] []) ctx = Ok u \<and> eor_afi_safi u = Some ipv4_unicast"
    by (simp add: eor_afi_safi_def default_attributes_def)
  have "parse_bgp_update_with_context X (update_wire [] [(0x80, 15, to_be_bytes 2 a @ [s])] []) ctx =
      Ok \<lparr>withdrawn = [], withdrawn_path_ids = [], attributes = default_attributes
        \<lparr>mp_unreach := Some \<lparr>mu_afi_safi = afi_safi_new a s, mu_prefixes = [], mu_path_ids = []\<rparr>\<rparr>,
        announced = [], announced_path_ids = []\<rparr>"
    unfolding update_wire_def list.map(1) concat.simps(1)
  proof (rule update_message_Ok [where wd = "[]" and ann = "[]", unfolded list.map])
    have ok: "list_all attr_ok [(0x80, 15, to_be_bytes 2 a @ [s])]" by (simp add: attr_ok_def)
    show "parse_path_attributes_with_context X (concat (map attr_wire [(0x80, 15, to_be_bytes 2 a @ [s])])) ctx =
        Ok (default_attributes\<lparr>mp_unreach := Some \<lparr>mu_afi_safi = afi_safi_new a s, mu_prefixes = [], mu_path_ids = []\<rparr>\<rparr>)"
      unfolding parse_path_attributes_with_context_def attribute_loop_apply [OF ok] unreach_only
      by (simp add: parse_mp_unreach_def reads nth_append default_attributes_def)
  qed (simp_all add: attr_wire_def)
  then show "\<exists>u. parse_bgp_update_with_context X (update_wire [] [(0x80, 15, to_be_bytes 2 a @ [s])] []) ctx = Ok u
      \<and> eor_afi_safi u = Some (afi_safi_new a s)"
    by (simp add: eor_afi_safi_def default_attributes_def)
  show "eor_afi_safi v = Some f \<longrightarrow> all_announced v = [] \<and> all_withdrawn v = []"
    by (auto simp: eor_afi_safi_def all_announced_def all_withdrawn_def Let_def split: if_splits option.splits)
qed

theorem eor_recognised_witness:
  "all_announced \<lparr>withdrawn = [], withdrawn_path_ids = [], attributes = default_attributes, announced = [],
     announced_path_ids = []\<rparr> = []"
  using eor_recognised [where v = "\<lparr>withdrawn = [], withdrawn_path_ids = [], attributes = default_attributes,
      announced = [], announced_path_ids = []\<rparr>" and f = ipv4_unicast]
  by (simp add: eor_afi_safi_def default_attributes_def)

text \<open>An UPDATE whose only content is one MP_UNREACH attribute that withdraws route target constraints is mistaken
  for an End-of-RIB marker: the withdrawn NLRI are decoded and dropped, and the End-of-RIB test of the family passes.\<close>

theorem rtc_withdrawal_reads_as_eor:
  assumes "\<forall>r \<in> set rs. rtc_ok r" and "rs \<noteq> []" and "length (concat (map rtc_wire rs)) \<le> 4000"
  shows "\<exists>u. parse_bgp_update_with_context X
      (update_wire [] [(0x90, 15, [0, 1, 132] @ concat (map rtc_wire rs))] []) ctx = Ok u
    \<and> eor_afi_safi u = Some (AfiSafi AfiIpv4 RouteTargetConstraint)"
proof -
  let ?d = "[0, 1, 132] @ concat (map rtc_wire rs)"
  let ?mp = "\<lparr>mu_afi_safi = AfiSafi AfiIpv4 RouteTargetConstraint, mu_prefixes = [], mu_path_ids = []\<rparr>"
  have f: "afi_safi_new (from_be_bytes [0, 1]) 132 = AfiSafi AfiIpv4 RouteTargetConstraint"
    by (simp add: afi_safi_new_def afi_from_def safi_from_def from_be_bytes_def be_nat_def)
  have ok: "list_all attr_ok [(0x90, 15, ?d)]" using assms(3) by (simp add: attr_ok_def)
  have unreach: "parse_mp_unreach X ([0, 1, 132] @ bs) ctx = Ok (?mp, None, None, None, None, rs)"
    if "bs \<noteq> []" "rtc_loop (length bs) bs = Ok rs" for bs
    using that f by (simp add: parse_mp_unreach_def unreach_nlri_def reads decode_rtc_nlri_def Let_def)
  have "concat (map rtc_wire rs) \<noteq> []"
    using assms(2) by (cases rs; cases "hd rs") auto
  then have mp: "parse_mp_unreach X ?d ctx = Ok (?mp, None, None, None, None, rs)"
    by (rule unreach) (rule rtc_loop_wire [OF assms(1)])
  have "parse_bgp_update_with_context X (update_wire [] [(0x90, 15, ?d)] []) ctx =
      Ok \<lparr>withdrawn = [], withdrawn_path_ids = [], attributes = default_attributes\<lparr>mp_unreach := Some ?mp\<rparr>,
        announced = [], announced_path_ids = []\<rparr>"
    unfolding update_wire_def list.map(1) concat.simps(1)
  proof (rule update_message_Ok [where wd = "[]" and ann = "[]", unfolded list.map])
    show "parse_path_attributes_with_context X (concat (map attr_wire [(0x90, 15, ?d)])) ctx =
        Ok (default_attributes\<lparr>mp_unreach := Some ?mp\<rparr>)"
      unfolding parse_path_attributes_with_context_def attribute_loop_apply [OF ok] unreach_only mp
      by (simp add: default_attributes_def)
  qed (use assms(3) in \<open>simp_all add: attr_wire_def\<close>)
  then show ?thesis
    by (simp add: eor_afi_safi_def default_attributes_def)
qed

theorem rtc_withdrawal_reads_as_eor_witness:
  "\<exists>u. parse_bgp_update_with_context documented_externals
      (update_wire [] [(0x90, 15, [0, 1, 132] @ concat (map rtc_wire [Wildcard]))] []) default_context = Ok u
    \<and> eor_afi_safi u = Some (AfiSafi AfiIpv4 RouteTargetConstraint)"
  by (rule rtc_withdrawal_reads_as_eor) simp_all

text \<open>In every parsed UPDATE each prefix has its own path identifier: the identifier lists have the lengths of the
  prefix lists, a classic IPv4 route carries an identifier exactly when Add-Path was negotiated for IPv4
  unicast, and the view with identifiers lists the same prefixes as the plain one.\<close>

theorem update_path_ids:
  assumes "parse_bgp_update_with_context X buf ctx = Ok u"
  shows "length (announced_path_ids u) = length (announced u) \<and> length (withdrawn_path_ids u) = length (withdrawn u)
    \<and> parallel_ids (attributes u)
    \<and> (\<forall>i \<in> set (announced_path_ids u) \<union> set (withdrawn_path_ids u). i \<noteq> None \<longleftrightarrow> has_add_path ctx ipv4_unicast)
    \<and> map fst (all_announced_with_path_id u) = all_announced u \<and> map fst (all_withdrawn_with_path_id u) = all_withdrawn u"
proof -
  have body: "parse_update_body X (drop 19 buf) ctx = Ok u"
    using parse_update_accepts [OF assms] by blast
  obtain w a n wd ann where
      wd: "decode_nlri_with_path_id X w AfiIpv4 (has_add_path ctx ipv4_unicast) = Ok wd"
    and attrs: "parse_path_attributes_with_context X a ctx = Ok (attributes u)"
    and ann: "decode_nlri_with_path_id X n AfiIpv4 (has_add_path ctx ipv4_unicast) = Ok ann"
    and u: "withdrawn u = map fst wd" "withdrawn_path_ids u = map snd wd"
      "announced u = map fst ann" "announced_path_ids u = map snd ann"
    by (rule parse_update_body_OkE [OF body])
  have ids: "i \<noteq> None \<longleftrightarrow> has_add_path ctx ipv4_unicast" if "i \<in> set (map snd ann) \<union> set (map snd wd)" for i
  proof -
    from that obtain e where "e \<in> set ann \<or> e \<in> set wd" "i = snd e" by auto
    with decode_nlri_ids [OF wd, of e] decode_nlri_ids [OF ann, of e] show ?thesis by metis
  qed
  have "map fst (all_announced_with_path_id u) = all_announced u"
    by (simp add: all_announced_with_path_id_def all_announced_def map_fst_zip_ids split: option.split)
  moreover have "map fst (all_withdrawn_with_path_id u) = all_withdrawn u"
    by (simp add: all_withdrawn_with_path_id_def all_withdrawn_def map_fst_zip_ids split: option.split)
  moreover have "\<forall>i \<in> set (map snd ann) \<union> set (map snd wd). i \<noteq> None \<longleftrightarrow> has_add_path ctx ipv4_unicast"
    by (rule ballI) (rule ids)
  ultimately show ?thesis
    unfolding u by (intro conjI parse_path_attributes_parallel [OF attrs]) simp_all
qed

end
