(* ===== verification/Bmp_Types.thy ===== *)
theory Bmp_Types
  imports Update
begin

unbundle bit_operations_syntax

text \<open>
  \<open>crates/rbmp-core/src/bmp/types.rs\<close>: message and peer types, the per-peer header, the identities of peers,
  views and routes, and the messages. A \<open>Uuid\<close> is a 128-bit word.
\<close>

section \<open>Messages and peers\<close>

datatype bmp_msg_type = RouteMonitoringType | StatsReportType | PeerDownType | PeerUpType | InitiationType
  | TerminationType | RouteMirroringType

definition bmp_msg_type_try_from :: "u8 \<Rightarrow> bmp_msg_type result" where
  "bmp_msg_type_try_from v =
     (if v = 0 then Ok RouteMonitoringType else if v = 1 then Ok StatsReportType else if v = 2 then Ok PeerDownType
      else if v = 3 then Ok PeerUpType else if v = 4 then Ok InitiationType else if v = 5 then Ok TerminationType
      else if v = 6 then Ok RouteMirroringType else Err (InvalidMessageType v))"

datatype peer_type = GlobalInstance | RdInstance | LocalInstance | LocRibInstance

definition peer_type_try_from :: "u8 \<Rightarrow> peer_type result" where
  "peer_type_try_from v =
     (if v = 0 then Ok GlobalInstance else if v = 1 then Ok RdInstance else if v = 2 then Ok LocalInstance
      else if v = 3 then Ok LocRibInstance else Err (BmpParse (''unknown peer type '' @ dec (unat v))))"

type_synonym peer_flags = u8

definition flag_ipv6 :: "peer_flags \<Rightarrow> bool" where
  "flag_ipv6 f \<longleftrightarrow> f AND 0x80 \<noteq> 0"

definition flag_post_policy :: "peer_flags \<Rightarrow> bool" where
  "flag_post_policy f \<longleftrightarrow> f AND 0x40 \<noteq> 0"

definition flag_as2 :: "peer_flags \<Rightarrow> bool" where
  "flag_as2 f \<longleftrightarrow> f AND 0x20 \<noteq> 0"

definition flag_four_byte_asn :: "peer_flags \<Rightarrow> bool" where
  "flag_four_byte_asn f \<longleftrightarrow> \<not> flag_as2 f"

definition flag_adj_rib_out :: "peer_flags \<Rightarrow> bool" where
  "flag_adj_rib_out f \<longleftrightarrow> f AND 0x10 \<noteq> 0"

definition flag_filtered :: "peer_flags \<Rightarrow> bool" where
  "flag_filtered f \<longleftrightarrow> f AND 0x80 \<noteq> 0"

datatype rib_type = AdjRibInPrePolicy | AdjRibInPostPolicy | AdjRibOutPrePolicy | AdjRibOutPostPolicy
  | LocRib | LocRibFiltered

definition rib_type_from_peer :: "peer_type \<Rightarrow> peer_flags \<Rightarrow> rib_type" where
  "rib_type_from_peer t f =
     (if t = LocRibInstance then if flag_filtered f then LocRibFiltered else LocRib
      else if flag_adj_rib_out f then if flag_post_policy f then AdjRibOutPostPolicy else AdjRibOutPrePolicy
      else if flag_post_policy f then AdjRibInPostPolicy else AdjRibInPrePolicy)"

record peer_header =
  peer_type :: peer_type
  peer_flags :: peer_flags
  peer_distinguisher :: bytes
  peer_address :: ip_addr
  peer_as :: u32
  peer_bgp_id :: ipv4
  hdr_timestamp :: timestamp
  hdr_rib_type :: rib_type

section \<open>Identities\<close>

definition EVENT_SCHEMA_VERSION :: u16 where
  "EVENT_SCHEMA_VERSION = 2"

record observation_source =
  collector_id :: string
  exporter_id :: string
  exporter_addr :: ip_addr
  exporter_instance :: string
  session_epoch :: u64

definition observation_source_new :: "ip_addr \<Rightarrow> u64 \<Rightarrow> observation_source" where
  "observation_source_new addr epoch = \<lparr>collector_id = ''default'', exporter_id = ip_string addr,
     exporter_addr = addr, exporter_instance = ''default'', session_epoch = epoch\<rparr>"

definition observation_source_with_ids ::
  "string \<Rightarrow> string \<Rightarrow> ip_addr \<Rightarrow> string \<Rightarrow> u64 \<Rightarrow> observation_source" where
  "observation_source_with_ids c e addr i epoch = \<lparr>collector_id = c, exporter_id = e, exporter_addr = addr,
     exporter_instance = i, session_epoch = epoch\<rparr>"

datatype peer_key = PeerKey (pk_speaker: ip_addr) (pk_type: peer_type) (pk_distinguisher: bytes) (pk_address: ip_addr)

definition peer_key_from_header :: "ip_addr \<Rightarrow> peer_header \<Rightarrow> peer_key" where
  "peer_key_from_header speaker hdr =
     PeerKey speaker (peer_type hdr) (peer_distinguisher hdr) (peer_address hdr)"

definition distinguisher_string :: "peer_key \<Rightarrow> string" where
  "distinguisher_string k =
     dec (be_nat (take 4 (pk_distinguisher k))) @ '':'' @ dec (be_nat (take 4 (drop 4 (pk_distinguisher k))))"

datatype view_direction = Inbound | Outbound | LocalView

record view_key =
  vk_peer :: peer_key
  vk_afi_safi :: afi_safi
  vk_rib_type :: rib_type
  vk_direction :: view_direction
  is_post_policy :: bool
  is_filtered :: bool

fun view_of_rib :: "rib_type \<Rightarrow> peer_flags \<Rightarrow> view_direction \<times> bool \<times> bool" where
  "view_of_rib AdjRibInPrePolicy f = (Inbound, False, False)"
| "view_of_rib AdjRibInPostPolicy f = (Inbound, True, False)"
| "view_of_rib AdjRibOutPrePolicy f = (Outbound, False, False)"
| "view_of_rib AdjRibOutPostPolicy f = (Outbound, True, False)"
| "view_of_rib LocRib f = (LocalView, True, flag_filtered f)"
| "view_of_rib LocRibFiltered f = (LocalView, True, True)"

definition view_key_from_peer :: "peer_key \<Rightarrow> afi_safi \<Rightarrow> rib_type \<Rightarrow> peer_flags \<Rightarrow> view_key" where
  "view_key_from_peer k f r flags = (let (d, post, filt) = view_of_rib r flags in
     \<lparr>vk_peer = k, vk_afi_safi = f, vk_rib_type = r, vk_direction = d, is_post_policy = post, is_filtered = filt\<rparr>)"

datatype canonical_nlri =
    IpUnicast prefix
  | L3Vpn bytes prefix
  | EvpnNlri string u8 string

fun canonical_nlri_from_prefix :: "prefix \<Rightarrow> canonical_nlri" where
  "canonical_nlri_from_prefix (Vpn rd p labels) = L3Vpn (rd_bytes rd) p"
| "canonical_nlri_from_prefix p = IpUnicast p"

fun canonical_matches_prefix :: "canonical_nlri \<Rightarrow> prefix \<Rightarrow> bool" where
  "canonical_matches_prefix (IpUnicast p) t = (p = t)"
| "canonical_matches_prefix (L3Vpn rd p) (Vpn trd tp labels) = (rd = rd_bytes trd \<and> p = tp)"
| "canonical_matches_prefix _ _ = False"

datatype table_route_key = TableRouteKey (trk_nlri: canonical_nlri) (trk_path_id: "u32 option")

definition table_route_key_from_prefix :: "prefix \<Rightarrow> u32 option \<Rightarrow> table_route_key" where
  "table_route_key_from_prefix p path_id = TableRouteKey (canonical_nlri_from_prefix p) path_id"

definition key_matches_prefix :: "table_route_key \<Rightarrow> prefix \<Rightarrow> bool" where
  "key_matches_prefix k p = canonical_matches_prefix (trk_nlri k) p"

record route_key =
  rk_view :: view_key
  rk_nlri :: canonical_nlri
  rk_path_id :: "u32 option"

record event_key =
  schema_version :: u16
  ek_source :: observation_source
  ek_sequence :: u64

definition event_key_new :: "observation_source \<Rightarrow> u64 \<Rightarrow> event_key" where
  "event_key_new s n = \<lparr>schema_version = EVENT_SCHEMA_VERSION, ek_source = s, ek_sequence = n\<rparr>"

section \<open>Payloads\<close>

datatype initiation_info = SysDescr string | SysName string | AdminLabel string
  | UnknownInfo (info_type: u16) (info_hex: string)

datatype peer_down_reason =
    LocalSystemClosed "bytes option"
  | LocalSystemClosed2
  | RemoteSystemClosed "bytes option"
  | RemoteSystemClosed2
  | PeerDeConfigured
  | VrfDown
  | UnknownDown u8

record peer_up_message =
  pu_header :: peer_header
  local_addr :: ip_addr
  local_port :: u16
  remote_port :: u16
  sent_open :: bgp_open_info
  recv_open :: bgp_open_info

record stat_entry =
  stat_type :: u16
  stat_label :: string
  stat_value :: u64
  stat_afi_safi :: "afi_safi option"

definition stat_names :: "string list" where
  "stat_names = [''prefixes-rejected-by-inbound-policy'', ''duplicate-prefix-advertisements'',
     ''duplicate-withdrawals'', ''cluster-list-loop-detections'', ''as-path-loop-detections'',
     ''originator-id-loop-detections'', ''implicit-withdraw-count'', ''explicit-withdraw-count'',
     ''update-treatments-as-withdraw'', ''prefixes-treated-as-withdraw'', ''duplicate-update-messages'',
     ''adj-rib-in-routes'', ''loc-rib-routes'', ''per-afi-safi-adj-rib-in-routes'',
     ''per-afi-safi-loc-rib-routes'', ''updates-subjected-to-treat-as-withdraw'',
     ''prefixes-subjected-to-treat-as-withdraw'', ''duplicate-update-messages-rcvd'',
     ''pre-policy-adj-rib-in-routes'', ''per-afi-safi-pre-policy-adj-rib-in-routes'',
     ''post-policy-adj-rib-in-routes'', ''per-afi-safi-post-policy-adj-rib-in-routes'',
     ''per-afi-safi-pre-policy-routes-rejected-inbound'',
     ''per-afi-safi-post-policy-routes-accepted-inbound'', ''adj-rib-out-pre-policy-routes'',
     ''per-afi-safi-adj-rib-out-pre-policy-routes'', ''per-afi-safi-damped-routes'',
     ''per-afi-safi-gr-stale-routes'', ''per-afi-safi-llgr-stale-routes'', ''pre-route-limit-adj-rib-in'',
     ''per-afi-safi-pre-route-limit-adj-rib-in'', ''pre-license-limit-routes'',
     ''per-afi-safi-pre-license-limit-routes'', ''max-aspath-length-rejected'',
     ''per-afi-safi-max-aspath-length-rejected'', ''per-afi-safi-rpki-invalidated-routes'',
     ''per-afi-safi-rpki-not-valid-routes'', ''adj-rib-out-post-policy-routes'',
     ''per-afi-safi-adj-rib-out-post-policy-routes'']"

definition stat_name :: "u16 \<Rightarrow> string" where
  "stat_name t = (if t \<le> 38 then stat_names ! unat t else ''unknown'')"

definition stat_is_per_afi_safi_11byte :: "u16 \<Rightarrow> bool" where
  "stat_is_per_afi_safi_11byte t \<longleftrightarrow> t \<in> {19, 21, 22, 23, 25, 26, 27, 28, 30, 32, 34, 35, 36, 38}"

definition stat_is_per_afi_safi_7byte :: "u16 \<Rightarrow> bool" where
  "stat_is_per_afi_safi_7byte t \<longleftrightarrow> t \<in> {9, 10, 13, 14}"

datatype bmp_payload =
    Initiation (sys_name: "string option") (sys_descr: "string option") (labels: "string list")
  | Termination (reason_code: u16) (reason_text: "string option")
  | PeerUp peer_up_message
  | PeerDown peer_header peer_down_reason
  | RouteMonitoring peer_header bgp_update
  | StatsReport peer_header "stat_entry list"
  | RouteMirroring peer_header bytes

record bmp_message =
  msg_id :: "128 word"
  received_at :: timestamp
  speaker_addr :: ip_addr
  payload :: bmp_payload

fun payload_type :: "bmp_payload \<Rightarrow> string" where
  "payload_type (Initiation n d ls) = ''initiation''"
| "payload_type (Termination c t) = ''termination''"
| "payload_type (PeerUp m) = ''peer_up''"
| "payload_type (PeerDown h r) = ''peer_down''"
| "payload_type (RouteMonitoring h u) = ''route_monitoring''"
| "payload_type (StatsReport h s) = ''stats_report''"
| "payload_type (RouteMirroring h p) = ''route_mirroring''"

definition msg_type :: "bmp_message \<Rightarrow> string" where
  "msg_type m = payload_type (payload m)"

section \<open>Lemmas\<close>

text \<open>The intra-table key of a prefix matches the prefix it was made from; RD-qualified routes match whatever
  labels they carry.\<close>

lemma key_matches_own_prefix: "key_matches_prefix (table_route_key_from_prefix p i) p"
  by (cases p) (simp_all add: key_matches_prefix_def table_route_key_from_prefix_def)

lemma vpn_key_ignores_labels:
  "table_route_key_from_prefix (Vpn rd p ls) i = table_route_key_from_prefix (Vpn rd p ls') i"
  by (simp add: table_route_key_from_prefix_def)

lemma stat_names_length: "length stat_names = 39"
  by (simp add: stat_names_def)

end
