(* ===== verification/Rib_Table.thy ===== *)
theory Rib_Table
  imports Hash_Map Bmp_Types "HOL-Library.Product_Lexorder"
begin

text \<open>
  \<open>crates/rbmp-rib/src/table.rs\<close>: the routes of one peer, per RIB type. The two nested \<open>HashMap\<close>s are the maps of
  \<open>Hash_Map\<close>. The locale \<open>route_store\<close> is what the RIB manager relies on: a table behaves as one partial
  function from RIB type and route key to entries. The theory shows that a table refines that function for every
  sequence of operations, that best-path selection marks exactly one minimal route of a prefix, and when
  long-lived graceful restart (LLGR, RFC 9494) drops a route.
\<close>

record rib_entry =
  re_prefix :: prefix
  re_path_id :: "u32 option"
  re_attributes :: path_attributes
  re_received_at :: timestamp
  re_peer_addr :: ip_addr
  re_peer_as :: u32
  re_is_best :: bool
  re_llgr_state :: llgr_state
  re_stale_at :: "timestamp option"

type_synonym route_table = "(table_route_key, rib_entry) hmap"

record rib_table =
  tables :: "(rib_type, route_table) hmap"

definition rib_table_new :: rib_table where
  "rib_table_new = \<lparr>tables = hm_empty\<rparr>"

definition entry_key :: "rib_entry \<Rightarrow> table_route_key" where
  "entry_key e = table_route_key_from_prefix (re_prefix e) (re_path_id e)"

section \<open>Insert, remove, get\<close>

definition rib_insert :: "rib_type \<Rightarrow> rib_entry \<Rightarrow> rib_table \<Rightarrow> bool \<times> rib_table" where
  "rib_insert r e T =
     (let k = entry_key e; ts = hm_or_insert r hm_empty (tables T);
          is_new = (case hm_get ts r of Some t \<Rightarrow> \<not> hm_contains_key t k | None \<Rightarrow> True)
      in (is_new, T\<lparr>tables := hm_modify r (hm_insert k e) ts\<rparr>))"

definition remove_with_path_id :: "rib_type \<Rightarrow> prefix \<Rightarrow> u32 option \<Rightarrow> rib_table \<Rightarrow> rib_entry option \<times> rib_table" where
  "remove_with_path_id r p i T =
     (let k = table_route_key_from_prefix p i in
      case hm_get (tables T) r of
        None \<Rightarrow> (None, T)
      | Some t \<Rightarrow> (hm_get t k, T\<lparr>tables := hm_modify r (hm_remove k) (tables T)\<rparr>))"

definition rib_remove :: "rib_type \<Rightarrow> prefix \<Rightarrow> rib_table \<Rightarrow> rib_entry option \<times> rib_table" where
  "rib_remove r p T = remove_with_path_id r p None T"

definition get_with_path_id :: "rib_type \<Rightarrow> prefix \<Rightarrow> u32 option \<Rightarrow> rib_table \<Rightarrow> rib_entry option" where
  "get_with_path_id r p i T =
     (let k = table_route_key_from_prefix p i in
      case hm_get (tables T) r of None \<Rightarrow> None | Some t \<Rightarrow> hm_get t k)"

definition rib_get :: "rib_type \<Rightarrow> prefix \<Rightarrow> rib_table \<Rightarrow> rib_entry option" where
  "rib_get r p T = get_with_path_id r p None T"

section \<open>Best path\<close>

text \<open>The sort key of \<open>recompute_best_path\<close>: the complement of LOCAL_PREF, the hop count as \<open>u32\<close>, the MED;
  compared lexicographically. \<open>min_by_key\<close> is that of the standard library: the first of the least elements.\<close>

definition path_rank :: "rib_entry \<Rightarrow> u32 \<times> u32 \<times> u32" where
  "path_rank e = (let a = re_attributes e in
     (case local_pref a of Some v \<Rightarrow> - 1 - v | None \<Rightarrow> - 1,
      case pa_as_path a of Some p \<Rightarrow> word_of_nat (hop_count p) | None \<Rightarrow> 0,
      case multi_exit_disc a of Some v \<Rightarrow> v | None \<Rightarrow> - 1))"

fun min_by_key :: "('a \<Rightarrow> 'k::linorder) \<Rightarrow> 'a list \<Rightarrow> 'a option" where
  "min_by_key f [] = None"
| "min_by_key f (x # xs) = Some (foldl (\<lambda>b y. if f y < f b then y else b) x xs)"

text \<open>The keys come from the table, so the lookup \<open>table[k]\<close> of the closure always succeeds.\<close>

definition best_of_table :: "prefix \<Rightarrow> route_table \<Rightarrow> route_table" where
  "best_of_table p t =
     (let ks = filter (\<lambda>k. key_matches_prefix k p) (hm_keys t) in
      if length ks \<le> 1 then
        (case ks of [] \<Rightarrow> t | k # _ \<Rightarrow> hm_modify k (\<lambda>e. e\<lparr>re_is_best := True\<rparr>) t)
      else
        let best = min_by_key (\<lambda>k. path_rank (the (hm_get t k))) ks
        in fold (\<lambda>k. hm_modify k (\<lambda>e. e\<lparr>re_is_best := (best = Some k)\<rparr>)) ks t)"

definition recompute_best_path :: "rib_type \<Rightarrow> prefix \<Rightarrow> rib_table \<Rightarrow> rib_table" where
  "recompute_best_path r p T =
     (case hm_get (tables T) r of
        None \<Rightarrow> T
      | Some t \<Rightarrow> T\<lparr>tables := hm_modify r (best_of_table p) (tables T)\<rparr>)"

section \<open>Counting and clearing\<close>

definition rib_count :: "rib_type \<Rightarrow> rib_table \<Rightarrow> nat" where
  "rib_count r T = (case hm_get (tables T) r of None \<Rightarrow> 0 | Some t \<Rightarrow> length t)"

definition iter_rib :: "rib_type \<Rightarrow> rib_table \<Rightarrow> rib_entry list" where
  "iter_rib r T = (case hm_get (tables T) r of None \<Rightarrow> [] | Some t \<Rightarrow> hm_values t)"

definition all_prefixes :: "rib_table \<Rightarrow> rib_entry list" where
  "all_prefixes T = concat (map hm_values (hm_values (tables T)))"

definition clear_rib :: "rib_type \<Rightarrow> rib_table \<Rightarrow> rib_table" where
  "clear_rib r T = T\<lparr>tables := hm_remove r (tables T)\<rparr>"

definition clear_all :: "rib_table \<Rightarrow> rib_table" where
  "clear_all T = T\<lparr>tables := hm_empty\<rparr>"

definition rib_counts :: "rib_table \<Rightarrow> (rib_type, nat) hmap" where
  "rib_counts T = map (\<lambda>(r, t). (r, length t)) (tables T)"

section \<open>Long-lived graceful restart\<close>

definition mark_stale :: "timestamp \<Rightarrow> rib_entry \<Rightarrow> rib_entry" where
  "mark_stale ts e =
     (if re_llgr_state e = Normal then e\<lparr>re_llgr_state := StaleMarked, re_stale_at := Some ts\<rparr> else e)"

definition mark_stale_all :: "timestamp \<Rightarrow> rib_table \<Rightarrow> rib_table" where
  "mark_stale_all ts T = T\<lparr>tables := hm_map_values (hm_map_values (mark_stale ts)) (tables T)\<rparr>"

text \<open>The test of the \<open>retain\<close> closure. The entry it sets to \<open>Deleted\<close> is the one it removes.\<close>

definition stale_expired :: "externals \<Rightarrow> timestamp \<Rightarrow> u32 \<Rightarrow> rib_entry \<Rightarrow> bool" where
  "stale_expired X now secs e \<longleftrightarrow> re_llgr_state e = StaleMarked \<and>
     (case re_stale_at e of Some ts \<Rightarrow> num_seconds X (now - ts) \<ge> int (unat secs) | None \<Rightarrow> False)"

definition drain_deleted_stale :: "externals \<Rightarrow> timestamp \<Rightarrow> u32 \<Rightarrow> rib_table \<Rightarrow> nat \<times> rib_table" where
  "drain_deleted_stale X now secs T =
     (sum_list (map (\<lambda>t. length (filter (\<lambda>(k, e). stale_expired X now secs e) t)) (hm_values (tables T))),
      T\<lparr>tables := hm_map_values (hm_retain (\<lambda>k e. \<not> stale_expired X now secs e)) (tables T)\<rparr>)"

section \<open>The abstract table\<close>

text \<open>A table as one partial function, and the invariant of the nested maps: distinct keys in both, and every entry
  stands under the key of its own prefix and path identifier.\<close>

type_synonym route_map = "rib_type \<times> table_route_key \<Rightarrow> rib_entry option"

definition route_map :: "rib_table \<Rightarrow> route_map" where
  "route_map T = (\<lambda>(r, k). case hm_get (tables T) r of None \<Rightarrow> None | Some t \<Rightarrow> hm_get t k)"

definition table_ok :: "route_table \<Rightarrow> bool" where
  "table_ok t \<longleftrightarrow> hm_ok t \<and> (\<forall>k e. hm_get t k = Some e \<longrightarrow> k = entry_key e)"

definition rib_ok :: "rib_table \<Rightarrow> bool" where
  "rib_ok T \<longleftrightarrow> hm_ok (tables T) \<and> (\<forall>r t. hm_get (tables T) r = Some t \<longrightarrow> table_ok t)"

text \<open>What the operations promise on the abstract table. Best-path selection may pick any of the least routes of the
  prefix: which of them comes first is up to the iteration order of the map.\<close>

datatype table_op =
    OpInsert rib_type rib_entry
  | OpRemove rib_type prefix "u32 option"
  | OpGet rib_type prefix "u32 option"
  | OpBest rib_type prefix
  | OpCount rib_type
  | OpClearRib rib_type
  | OpClearAll
  | OpMarkStale timestamp
  | OpDrain timestamp u32

datatype table_out = OutUnit | OutNew bool | OutEntry "rib_entry option" | OutCount nat

fun table_step :: "externals \<Rightarrow> table_op \<Rightarrow> rib_table \<Rightarrow> table_out \<times> rib_table" where
  "table_step X (OpInsert r e) T = (let (b, T') = rib_insert r e T in (OutNew b, T'))"
| "table_step X (OpRemove r p i) T = (let (x, T') = remove_with_path_id r p i T in (OutEntry x, T'))"
| "table_step X (OpGet r p i) T = (OutEntry (get_with_path_id r p i T), T)"
| "table_step X (OpBest r p) T = (OutUnit, recompute_best_path r p T)"
| "table_step X (OpCount r) T = (OutCount (rib_count r T), T)"
| "table_step X (OpClearRib r) T = (OutUnit, clear_rib r T)"
| "table_step X OpClearAll T = (OutUnit, clear_all T)"
| "table_step X (OpMarkStale ts) T = (OutUnit, mark_stale_all ts T)"
| "table_step X (OpDrain now secs) T = (let (n, T') = drain_deleted_stale X now secs T in (OutCount n, T'))"

fun table_run :: "externals \<Rightarrow> table_op list \<Rightarrow> rib_table \<Rightarrow> table_out list \<times> rib_table" where
  "table_run X [] T = ([], T)"
| "table_run X (q # qs) T =
     (let (out, T1) = table_step X q T; (outs, T2) = table_run X qs T1 in (out # outs, T2))"

definition routes_of :: "rib_type \<Rightarrow> prefix \<Rightarrow> route_map \<Rightarrow> table_route_key set" where
  "routes_of r p M = {k. key_matches_prefix k p \<and> M (r, k) \<noteq> None}"

definition mark_best :: "rib_type \<Rightarrow> prefix \<Rightarrow> table_route_key \<Rightarrow> route_map \<Rightarrow> route_map" where
  "mark_best r p b M = (\<lambda>(r', k). if r' = r \<and> key_matches_prefix k p
     then map_option (\<lambda>e. e\<lparr>re_is_best := (k = b)\<rparr>) (M (r', k)) else M (r', k))"

definition least_route :: "rib_type \<Rightarrow> prefix \<Rightarrow> table_route_key \<Rightarrow> route_map \<Rightarrow> bool" where
  "least_route r p b M \<longleftrightarrow> b \<in> routes_of r p M \<and>
     (\<forall>k \<in> routes_of r p M. path_rank (the (M (r, b))) \<le> path_rank (the (M (r, k))))"

inductive spec_step :: "externals \<Rightarrow> route_map \<Rightarrow> table_op \<Rightarrow> table_out \<Rightarrow> route_map \<Rightarrow> bool" for X where
  spec_insert: "spec_step X M (OpInsert r e) (OutNew (M (r, entry_key e) = None)) (M((r, entry_key e) \<mapsto> e))"
| spec_remove: "k = table_route_key_from_prefix p i \<Longrightarrow>
    spec_step X M (OpRemove r p i) (OutEntry (M (r, k))) (M((r, k) := None))"
| spec_get: "spec_step X M (OpGet r p i) (OutEntry (M (r, table_route_key_from_prefix p i))) M"
| spec_best_none: "routes_of r p M = {} \<Longrightarrow> spec_step X M (OpBest r p) OutUnit M"
| spec_best: "least_route r p b M \<Longrightarrow> spec_step X M (OpBest r p) OutUnit (mark_best r p b M)"
| spec_count: "spec_step X M (OpCount r) (OutCount (card {k. M (r, k) \<noteq> None})) M"
| spec_clear_rib: "spec_step X M (OpClearRib r) OutUnit (\<lambda>(r', k). if r' = r then None else M (r', k))"
| spec_clear_all: "spec_step X M OpClearAll OutUnit (\<lambda>_. None)"
| spec_mark: "spec_step X M (OpMarkStale ts) OutUnit (\<lambda>rk. map_option (mark_stale ts) (M rk))"
| spec_drain: "spec_step X M (OpDrain now secs)
    (OutCount (card {rk. \<exists>e. M rk = Some e \<and> stale_expired X now secs e}))
    (\<lambda>rk. case M rk of Some e \<Rightarrow> if stale_expired X now secs e then None else Some e | None \<Rightarrow> None)"

inductive spec_run :: "externals \<Rightarrow> route_map \<Rightarrow> table_op list \<Rightarrow> table_out list \<Rightarrow> route_map \<Rightarrow> bool" for X where
  spec_done: "spec_run X M [] [] M"
| spec_more: "spec_step X M q out M1 \<Longrightarrow> spec_run X M1 qs outs M2 \<Longrightarrow> spec_run X M (q # qs) (out # outs) M2"

section \<open>The table refines the partial function\<close>

lemma route_map_new [simp]: "route_map rib_table_new = (\<lambda>_. None)"
  by (auto simp: route_map_def rib_table_new_def hm_gets)

lemma rib_ok_new [simp]: "rib_ok rib_table_new"
  by (simp add: rib_ok_def rib_table_new_def hm_gets hm_oks)

lemma route_map_Some:
  "route_map T (r, k) = Some e \<longleftrightarrow> (\<exists>t. hm_get (tables T) r = Some t \<and> hm_get t k = Some e)"
  by (auto simp: route_map_def split: option.splits)

lemma rib_ok_key: "rib_ok T \<Longrightarrow> route_map T (r, k) = Some e \<Longrightarrow> k = entry_key e"
  by (auto simp: route_map_Some rib_ok_def table_ok_def)

text \<open>Replacing one table, and mapping all of them, on the abstract side.\<close>

lemma route_map_modify:
  "route_map (T\<lparr>tables := hm_modify r f (tables T)\<rparr>) (r', k) =
     (case hm_get (tables T) r' of None \<Rightarrow> None | Some t \<Rightarrow> hm_get (if r' = r then f t else t) k)"
  by (auto simp: route_map_def hm_gets split: option.splits)

lemma rib_ok_modify:
  "rib_ok T \<Longrightarrow> (\<And>t. table_ok t \<Longrightarrow> table_ok (f t)) \<Longrightarrow> rib_ok (T\<lparr>tables := hm_modify r f (tables T)\<rparr>)"
  by (auto simp: rib_ok_def hm_gets split: if_splits)

lemma route_map_map_values:
  "route_map (T\<lparr>tables := hm_map_values f (tables T)\<rparr>) (r, k) =
     (case hm_get (tables T) r of None \<Rightarrow> None | Some t \<Rightarrow> hm_get (f t) k)"
  by (auto simp: route_map_def hm_gets split: option.splits)

lemma rib_ok_map_values:
  "rib_ok T \<Longrightarrow> (\<And>t. table_ok t \<Longrightarrow> table_ok (f t)) \<Longrightarrow> rib_ok (T\<lparr>tables := hm_map_values f (tables T)\<rparr>)"
  by (auto simp: rib_ok_def hm_gets)

lemma table_ok_ops:
  "table_ok hm_empty"
  "table_ok t \<Longrightarrow> table_ok (hm_insert (entry_key e) e t)"
  "table_ok t \<Longrightarrow> table_ok (hm_remove k t)"
  "table_ok t \<Longrightarrow> table_ok (hm_retain P t)"
  by (auto simp: table_ok_def hm_gets hm_oks hm.get_keep split: if_splits option.splits)

lemma table_ok_modify:
  "table_ok t \<Longrightarrow> (\<And>e. entry_key (f e) = entry_key e) \<Longrightarrow> table_ok (hm_modify k f t)"
  by (auto simp: table_ok_def hm_gets split: if_splits)

lemma entry_key_unchanged [simp]:
  "entry_key (e\<lparr>re_is_best := b\<rparr>) = entry_key e" "entry_key (mark_stale ts e) = entry_key e"
  by (simp_all add: entry_key_def mark_stale_def)

lemma route_map_insert: "route_map (snd (rib_insert r e T)) = (route_map T)((r, entry_key e) \<mapsto> e)"
  by (auto simp: rib_insert_def Let_def route_map_def hm_gets split: option.splits intro!: ext)

lemma fst_rib_insert: "fst (rib_insert r e T) \<longleftrightarrow> route_map T (r, entry_key e) = None"
  by (auto simp: rib_insert_def Let_def route_map_def hm_gets hm_contains_key_def split: option.splits)

lemma rib_ok_insert: "rib_ok T \<Longrightarrow> rib_ok (snd (rib_insert r e T))"
  by (auto simp: rib_insert_def Let_def rib_ok_def hm_gets hm_oks table_ok_ops split: if_splits option.splits)

lemma route_map_remove:
  "route_map (snd (remove_with_path_id r p i T)) = (route_map T)((r, table_route_key_from_prefix p i) := None)"
  by (auto simp: remove_with_path_id_def Let_def route_map_def hm_gets split: option.splits intro!: ext)

lemma fst_remove:
  "fst (remove_with_path_id r p i T) = route_map T (r, table_route_key_from_prefix p i)"
  by (auto simp: remove_with_path_id_def Let_def route_map_def split: option.splits)

lemma rib_ok_remove: "rib_ok T \<Longrightarrow> rib_ok (snd (remove_with_path_id r p i T))"
  by (auto simp: remove_with_path_id_def Let_def table_ok_ops intro!: rib_ok_modify split: option.splits)

lemma get_route_map: "get_with_path_id r p i T = route_map T (r, table_route_key_from_prefix p i)"
  by (simp add: get_with_path_id_def route_map_def Let_def)

lemma rib_count_card: "rib_ok T \<Longrightarrow> rib_count r T = card {k. route_map T (r, k) \<noteq> None}"
proof (cases "hm_get (tables T) r")
  case (Some t)
  assume "rib_ok T"
  with Some have "distinct (hm_keys t)" by (auto simp: rib_ok_def table_ok_def hm.distinct_keys)
  then have "card (set (hm_keys t)) = length t" by (simp add: distinct_card) (simp add: hm_keys_def)
  moreover have "set (hm_keys t) = {k. route_map T (r, k) \<noteq> None}"
    using Some by (simp add: hm.set_keys route_map_def)
  ultimately show ?thesis using Some by (simp add: rib_count_def)
qed (simp add: rib_count_def route_map_def)

lemma route_map_clear:
  "route_map (clear_rib r T) = (\<lambda>(r', k). if r' = r then None else route_map T (r', k))"
  "route_map (clear_all T) = (\<lambda>_. None)"
  by (auto simp: clear_rib_def clear_all_def route_map_def hm_gets split: option.splits intro!: ext)

lemma rib_ok_clear: "rib_ok T \<Longrightarrow> rib_ok (clear_rib r T)" "rib_ok (clear_all T)"
  by (auto simp: clear_rib_def clear_all_def rib_ok_def hm_gets hm_oks split: if_splits)

lemma route_map_mark: "route_map (mark_stale_all ts T) = (\<lambda>rk. map_option (mark_stale ts) (route_map T rk))"
  unfolding mark_stale_all_def
  by (auto simp: route_map_def hm_gets split: option.splits intro!: ext)

lemma rib_ok_mark: "rib_ok T \<Longrightarrow> rib_ok (mark_stale_all ts T)"
  unfolding mark_stale_all_def by (rule rib_ok_map_values) (auto simp: table_ok_def hm_gets)

lemma route_map_drain: "rib_ok T \<Longrightarrow> route_map (snd (drain_deleted_stale X now secs T)) =
    (\<lambda>rk. case route_map T rk of Some e \<Rightarrow> if stale_expired X now secs e then None else Some e | None \<Rightarrow> None)"
  unfolding drain_deleted_stale_def snd_conv
  by (auto simp: route_map_def hm_gets hm.get_keep rib_ok_def table_ok_def split: option.splits intro!: ext)

lemma rib_ok_drain: "rib_ok T \<Longrightarrow> rib_ok (snd (drain_deleted_stale X now secs T))"
  unfolding drain_deleted_stale_def snd_conv by (rule rib_ok_map_values) (auto intro: table_ok_ops)

text \<open>The routes of one table, counted by a predicate, and summed over the tables.\<close>

lemma card_table: "hm_ok t \<Longrightarrow> length (filter (\<lambda>(k, e). P e) t) = card {k. \<exists>e. hm_get t k = Some e \<and> P e}"
proof -
  assume ok: "hm_ok t"
  have "{k. \<exists>e. hm_get t k = Some e \<and> P e} = set (map fst (filter (\<lambda>(k, e). P e) t))"
    using ok by (force simp: hm_get_def hm_ok_def)
  moreover have "distinct (map fst (filter (\<lambda>(k, e). P e) t))"
    using ok by (simp add: hm_ok_def distinct_map_filter)
  ultimately show ?thesis by (metis distinct_card length_map)
qed

lemma card_tables:
  assumes "hm_ok ts" and "\<And>r t. hm_get ts r = Some t \<Longrightarrow> hm_ok t"
  shows "sum_list (map (\<lambda>t. length (filter (\<lambda>(k, e). P e) t)) (hm_values ts)) =
    card {(r, k). \<exists>t e. hm_get ts r = Some t \<and> hm_get t k = Some e \<and> P e}"
  using assms
proof (induction ts)
  case (Cons x ts)
  obtain r t where x: "x = (r, t)" by force
  let ?S = "\<lambda>ts. {(r, k). \<exists>t e. hm_get ts r = Some t \<and> hm_get t k = Some e \<and> P e}"
  have fresh: "hm_get ts r = None" and ok: "hm_ok ts"
    using Cons.prems(1) x by (auto simp: hm_ok_def hm_get_def map_of_eq_None_iff)
  have get: "hm_get (x # ts) r' = (if r' = r then Some t else hm_get ts r')" for r'
    using x by (simp add: hm_get_def)
  have oks: "hm_ok t" "\<And>r' t'. hm_get ts r' = Some t' \<Longrightarrow> hm_ok t'"
    using Cons.prems(2) get fresh by (metis, metis option.distinct(1))
  have fin: "finite (?S ts)"
  proof (rule finite_subset)
    show "?S ts \<subseteq> (\<Union>p \<in> set ts. Pair (fst p) ` set (map fst (snd p)))"
      by (force simp: hm_get_def dest: map_of_SomeD)
  qed simp
  have "?S (x # ts) = Pair r ` {k. \<exists>e. hm_get t k = Some e \<and> P e} \<union> ?S ts"
    using fresh by (auto simp: get image_iff split: if_splits)
  moreover have "finite {k. \<exists>e. hm_get t k = Some e \<and> P e}"
    by (rule finite_subset [of _ "set (hm_keys t)"]) (auto simp: hm.in_keys_iff)
  ultimately have "card (?S (x # ts)) = card {k. \<exists>e. hm_get t k = Some e \<and> P e} + card (?S ts)"
    using fin fresh by (subst card_image [of "Pair r", symmetric]) (auto simp: inj_on_def intro!: card_Un_disjoint)
  with Cons.IH [OF ok oks(2)] card_table [OF oks(1)] show ?case
    by (simp add: x hm_values_def)
qed (simp add: hm_values_def hm_get_def)

lemma fst_drain: "rib_ok T \<Longrightarrow> fst (drain_deleted_stale X now secs T) =
    card {rk. \<exists>e. route_map T rk = Some e \<and> stale_expired X now secs e}"
proof -
  assume "rib_ok T"
  then have "fst (drain_deleted_stale X now secs T) =
      card {(r, k). \<exists>t e. hm_get (tables T) r = Some t \<and> hm_get t k = Some e \<and> stale_expired X now secs e}"
    by (simp add: drain_deleted_stale_def card_tables rib_ok_def table_ok_def)
  also have "{(r, k). \<exists>t e. hm_get (tables T) r = Some t \<and> hm_get t k = Some e \<and> stale_expired X now secs e} =
      {rk. \<exists>e. route_map T rk = Some e \<and> stale_expired X now secs e}"
    by (auto simp: route_map_Some)
  finally show ?thesis .
qed

section \<open>Best path\<close>

lemma foldl_min_by_key:
  fixes f :: "'a \<Rightarrow> 'k::linorder" and x :: 'a and xs :: "'a list"
  defines "m \<equiv> foldl (\<lambda>b y. if f y < f b then y else b) x xs"
  shows "m \<in> set (x # xs)" and "\<forall>y \<in> set (x # xs). f m \<le> f y"
  unfolding m_def by (induction xs arbitrary: x) (auto, (force dest: order.strict_trans1 le_less_trans)+)

lemma min_by_key_least:
  "xs \<noteq> [] \<Longrightarrow> \<exists>m. min_by_key f xs = Some m \<and> m \<in> set xs \<and> (\<forall>y \<in> set xs. f m \<le> f y)"
  by (cases xs) (use foldl_min_by_key [where f = f] in auto)

lemma table_ok_fold:
  "table_ok t \<Longrightarrow> (\<And>k e. entry_key (f k e) = entry_key e) \<Longrightarrow> table_ok (fold (\<lambda>k. hm_modify k (f k)) ks t)"
  by (induction ks arbitrary: t) (auto intro: table_ok_modify)

lemma table_ok_best: "table_ok t \<Longrightarrow> table_ok (best_of_table p t)"
  by (auto simp: best_of_table_def Let_def intro!: table_ok_modify table_ok_fold split: list.splits)

lemma rib_ok_best: "rib_ok T \<Longrightarrow> rib_ok (recompute_best_path r p T)"
  by (auto simp: recompute_best_path_def intro!: rib_ok_modify table_ok_best split: option.splits)

text \<open>On one table: either the prefix has no route, or a least route is marked and all others are not.\<close>

lemma best_of_table_marks:
  assumes "table_ok t"
  obtains (none) "best_of_table p t = t" "\<And>k. key_matches_prefix k p \<Longrightarrow> hm_get t k = None"
  | (best) b where "key_matches_prefix b p" "hm_get t b \<noteq> None"
      "\<And>k. key_matches_prefix k p \<Longrightarrow> hm_get t k \<noteq> None \<Longrightarrow>
         path_rank (the (hm_get t b)) \<le> path_rank (the (hm_get t k))"
      "\<And>k. hm_get (best_of_table p t) k = (if key_matches_prefix k p
         then map_option (\<lambda>e. e\<lparr>re_is_best := (k = b)\<rparr>) (hm_get t k) else hm_get t k)"
proof -
  define ks where "ks = filter (\<lambda>k. key_matches_prefix k p) (hm_keys t)"
  have dist: "distinct ks" using assms by (simp add: ks_def table_ok_def hm.distinct_keys)
  have mem: "k \<in> set ks \<longleftrightarrow> key_matches_prefix k p \<and> hm_get t k \<noteq> None" for k
    by (auto simp: ks_def hm.set_keys)
  consider "ks = []" | b where "ks = [b]" | "1 < length ks"
    by (cases ks rule: remdups_adj.cases) auto
  then show thesis
  proof cases
    case 1
    then have "best_of_table p t = t" by (simp add: best_of_table_def flip: ks_def)
    moreover have "hm_get t k = None" if "key_matches_prefix k p" for k
      using mem [of k] 1 that by simp
    ultimately show thesis by (rule none)
  next
    case (2 b)
    have only: "key_matches_prefix k p \<Longrightarrow> hm_get t k \<noteq> None \<Longrightarrow> k = b" for k
      using mem [of k] 2 by simp
    have eq: "best_of_table p t = hm_modify b (\<lambda>e. e\<lparr>re_is_best := True\<rparr>) t"
      by (simp add: best_of_table_def 2 flip: ks_def)
    show thesis
    proof (rule best [of b])
      show "hm_get (best_of_table p t) k = (if key_matches_prefix k p
         then map_option (\<lambda>e. e\<lparr>re_is_best := (k = b)\<rparr>) (hm_get t k) else hm_get t k)" for k
        proof (cases "k = b")
        case True
        then show ?thesis using mem [of b] 2 by (simp add: eq hm.get_upd)
      next
        case False
        then have "key_matches_prefix k p \<Longrightarrow> hm_get t k = None" using only [of k] by blast
        with False show ?thesis by (simp add: eq hm.get_upd)
      qed
      show "path_rank (the (hm_get t b)) \<le> path_rank (the (hm_get t k))"
        if "key_matches_prefix k p" "hm_get t k \<noteq> None" for k
        using only [OF that] by simp
    qed (use mem [of b] 2 in simp_all)
  next
    case 3
    then have "ks \<noteq> []" by auto
    then obtain b where b: "min_by_key (\<lambda>k. path_rank (the (hm_get t k))) ks = Some b" "b \<in> set ks"
        "\<forall>k \<in> set ks. path_rank (the (hm_get t b)) \<le> path_rank (the (hm_get t k))"
      using min_by_key_least [of ks "\<lambda>k. path_rank (the (hm_get t k))"] by blast
    have "best_of_table p t = fold (\<lambda>k. hm_modify k (\<lambda>e. e\<lparr>re_is_best := (b = k)\<rparr>)) ks t"
      using 3 b(1) by (simp add: best_of_table_def Let_def flip: ks_def)
    then have eq: "hm_get (best_of_table p t) k = (if k \<in> set ks
        then map_option (\<lambda>e. e\<lparr>re_is_best := (b = k)\<rparr>) (hm_get t k) else hm_get t k)" for k
      by (simp only: hm.get_upd_all [OF dist])
    show thesis
    proof (rule best [of b])
      show "hm_get (best_of_table p t) k = (if key_matches_prefix k p
         then map_option (\<lambda>e. e\<lparr>re_is_best := (k = b)\<rparr>) (hm_get t k) else hm_get t k)" for k
        using mem [of k] by (cases "hm_get t k") (auto simp: eq eq_commute [of b k])
    qed (use b mem in blast)+
  qed
qed

lemma recompute_best_spec:
  assumes "rib_ok T"
  shows "spec_step X (route_map T) (OpBest r p) OutUnit (route_map (recompute_best_path r p T))"
proof (cases "hm_get (tables T) r")
  case None
  then have "recompute_best_path r p T = T" "routes_of r p (route_map T) = {}"
    by (auto simp: recompute_best_path_def routes_of_def route_map_def)
  then show ?thesis by (simp add: spec_best_none)
next
  case (Some t)
  then have T': "recompute_best_path r p T = T\<lparr>tables := hm_modify r (best_of_table p) (tables T)\<rparr>"
    by (simp add: recompute_best_path_def)
  have M: "route_map T (r, k) = hm_get t k" for k using Some by (simp add: route_map_def)
  from Some assms have "table_ok t" by (auto simp: rib_ok_def)
  then show ?thesis
  proof (cases rule: best_of_table_marks [where p = p])
    case none
    then have "route_map (recompute_best_path r p T) = route_map T"
      unfolding T' using Some by (auto simp: route_map_def hm_gets split: option.splits intro!: ext)
    moreover have "routes_of r p (route_map T) = {}"
      using none(2) by (auto simp: routes_of_def M)
    ultimately show ?thesis by (simp add: spec_best_none)
  next
    case (best b)
    have "route_map (recompute_best_path r p T) = mark_best r p b (route_map T)"
      unfolding T' mark_best_def using Some best(4)
      by (auto simp: route_map_def hm_gets split: option.splits intro!: ext)
    moreover have "least_route r p b (route_map T)"
      using best by (auto simp: least_route_def routes_of_def M)
    ultimately show ?thesis by (simp add: spec_best)
  qed
qed

section \<open>The contract the manager relies on\<close>

definition bare_entry :: "rib_entry \<Rightarrow> rib_entry" where
  "bare_entry e = e\<lparr>re_is_best := True\<rparr>"

locale route_store =
  fixes lookup :: "'s \<Rightarrow> route_map"
    and ins :: "rib_type \<Rightarrow> rib_entry \<Rightarrow> 's \<Rightarrow> 's"
    and del :: "rib_type \<Rightarrow> prefix \<Rightarrow> u32 option \<Rightarrow> 's \<Rightarrow> 's"
    and best :: "rib_type \<Rightarrow> prefix \<Rightarrow> 's \<Rightarrow> 's"
    and invar :: "'s \<Rightarrow> bool"
  assumes lookup_ins: "lookup (ins r e s) = (lookup s)((r, entry_key e) \<mapsto> e)"
    and lookup_del: "lookup (del r p i s) = (lookup s)((r, table_route_key_from_prefix p i) := None)"
    and lookup_best: "invar s \<Longrightarrow> \<exists>b. lookup (best r p s) rk = map_option (\<lambda>e. e\<lparr>re_is_best := b\<rparr>) (lookup s rk)"
    and invar_ins: "invar s \<Longrightarrow> invar (ins r e s)"
    and invar_del: "invar s \<Longrightarrow> invar (del r p i s)"
    and invar_best: "invar s \<Longrightarrow> invar (best r p s)"
begin

lemma bare_best: "invar s \<Longrightarrow> map_option bare_entry (lookup (best r p s) rk) = map_option bare_entry (lookup s rk)"
  using lookup_best [of s r p rk] by (cases "lookup s rk") (auto simp: bare_entry_def)

text \<open>The withdrawn routes of an UPDATE, one after the other.\<close>

lemma lookup_dels:
  "lookup (fold (\<lambda>(p, i). del r p i) ws s) rk =
     (if rk \<in> (\<lambda>(p, i). (r, table_route_key_from_prefix p i)) ` set ws then None else lookup s rk)"
  by (induction ws arbitrary: s) (auto simp: lookup_del)

lemma invar_dels: "invar s \<Longrightarrow> invar (fold (\<lambda>(p, i). del r p i) ws s)"
  by (induction ws arbitrary: s) (auto simp: invar_del)

text \<open>The announced ones, each followed by best-path selection when it carries a path identifier: the last
  announcement of a key is the one that stays, up to the best-path flag.\<close>

lemma invar_anns:
  "invar s \<Longrightarrow> invar (fold (\<lambda>e s. if re_path_id e \<noteq> None then best r (re_prefix e) (ins r e s) else ins r e s) es s)"
  by (induction es arbitrary: s) (auto simp: invar_ins invar_best)

lemma lookup_anns:
  "invar s \<Longrightarrow> map_option bare_entry
     (lookup (fold (\<lambda>e s. if re_path_id e \<noteq> None then best r (re_prefix e) (ins r e s) else ins r e s) es s) (r', k)) =
   (case if r' = r then find (\<lambda>e. entry_key e = k) (rev es) else None of
      Some e \<Rightarrow> Some (bare_entry e)
    | None \<Rightarrow> map_option bare_entry (lookup s (r', k)))"
proof (induction es rule: rev_induct)
  case (snoc e es)
  let ?s = "fold (\<lambda>e s. if re_path_id e \<noteq> None then best r (re_prefix e) (ins r e s) else ins r e s) es s"
  have "invar (ins r e ?s)" using snoc.prems by (intro invar_ins invar_anns)
  then have "map_option bare_entry (lookup (if re_path_id e \<noteq> None then best r (re_prefix e) (ins r e ?s)
      else ins r e ?s) (r', k)) = map_option bare_entry (lookup (ins r e ?s) (r', k))"
    by (simp add: bare_best)
  with snoc show ?case
    by (cases "r' = r"; cases "entry_key e = k") (simp_all add: lookup_ins del: not_None_eq)
qed simp

end

lemma recompute_keeps_bare:
  assumes "rib_ok T"
  shows "\<exists>b. route_map (recompute_best_path r p T) rk = map_option (\<lambda>e. e\<lparr>re_is_best := b\<rparr>) (route_map T rk)"
  using recompute_best_spec [OF assms, of documented_externals r p]
proof (cases rule: spec_step.cases)
  case spec_best_none
  then show ?thesis
    by (auto intro!: exI [of _ "case route_map T rk of Some e \<Rightarrow> re_is_best e | None \<Rightarrow> True"] split: option.splits)
next
  case (spec_best b)
  then show ?thesis
    by (auto simp: mark_best_def split: prod.splits option.splits
        intro!: exI [of _ "if fst rk = r \<and> key_matches_prefix (snd rk) p then snd rk = b
          else (case route_map T rk of Some e \<Rightarrow> re_is_best e | None \<Rightarrow> True)"])
qed

interpretation store: route_store route_map "\<lambda>r e T. snd (rib_insert r e T)"
  "\<lambda>r p i T. snd (remove_with_path_id r p i T)" recompute_best_path rib_ok
proof (unfold_locales, goal_cases)
  case 1 then show ?case by (rule route_map_insert)
next
  case 2 then show ?case by (rule route_map_remove)
next
  case 3 then show ?case by (rule recompute_keeps_bare)
next
  case 4 then show ?case by (rule rib_ok_insert)
next
  case 5 then show ?case by (rule rib_ok_remove)
next
  case 6 then show ?case by (rule rib_ok_best)
qed

section \<open>Properties\<close>

lemma table_step_refines:
  assumes "rib_ok T"
  shows "spec_step X (route_map T) q (fst (table_step X q T)) (route_map (snd (table_step X q T)))"
    and "rib_ok (snd (table_step X q T))"
proof -
  show "spec_step X (route_map T) q (fst (table_step X q T)) (route_map (snd (table_step X q T)))"
  proof (cases q)
    case (OpBest r p)
    then show ?thesis using assms by (simp add: recompute_best_spec)
  next
    case (OpCount r)
    then show ?thesis using assms spec_count [of X "route_map T" r] by (simp add: rib_count_card)
  next
    case (OpRemove r p i)
    then show ?thesis by (simp add: split_beta Let_def fst_remove route_map_remove spec_remove)
  qed (auto simp: assms split_beta Let_def fst_rib_insert route_map_insert get_route_map rib_count_card
      route_map_clear route_map_mark route_map_drain fst_drain intro: spec_step.intros)
  show "rib_ok (snd (table_step X q T))"
    using assms by (cases q) (auto simp: split_beta Let_def
        intro: rib_ok_insert rib_ok_remove rib_ok_best rib_ok_clear rib_ok_mark rib_ok_drain)
qed

lemma table_run_refines:
  "rib_ok T \<Longrightarrow> spec_run X (route_map T) qs (fst (table_run X qs T)) (route_map (snd (table_run X qs T)))
     \<and> rib_ok (snd (table_run X qs T))"
proof (induction qs arbitrary: T)
  case (Cons q qs)
  from Cons.IH [OF table_step_refines(2) [OF Cons.prems]] table_step_refines(1) [OF Cons.prems] show ?case
    by (simp add: split_beta Let_def) (blast intro: spec_more)
qed (simp add: spec_done)

text \<open>C3: A RIB table implements a partial function from RIB type and route key to entries. Whatever operations run on
  a new table, in whatever order, every answer (was the route new, which entry was removed or found, how many
  routes a RIB holds, how many stale routes were dropped) is the one the partial function gives, the table still
  represents that function, and every entry stands under the key of its own prefix and path identifier.\<close>

theorem rib_table_refines:
  "spec_run X (\<lambda>_. None) qs (fst (table_run X qs rib_table_new)) (route_map (snd (table_run X qs rib_table_new)))
   \<and> rib_ok (snd (table_run X qs rib_table_new))"
  using table_run_refines [OF rib_ok_new, of X qs] by simp

text \<open>The preference the ranking encodes, in words of the protocol: a missing LOCAL_PREF counts as 0 and a missing MED
  as the largest value.\<close>

definition better_path :: "rib_entry \<Rightarrow> rib_entry \<Rightarrow> bool" where
  "better_path e e' \<longleftrightarrow>
     (let lp = (\<lambda>e. case local_pref (re_attributes e) of Some v \<Rightarrow> v | None \<Rightarrow> 0);
          hops = (\<lambda>e. case pa_as_path (re_attributes e) of Some p \<Rightarrow> hop_count p | None \<Rightarrow> 0);
          med = (\<lambda>e. case multi_exit_disc (re_attributes e) of Some v \<Rightarrow> v | None \<Rightarrow> - 1)
      in lp e' < lp e \<or> lp e = lp e' \<and> (hops e < hops e' \<or> hops e = hops e' \<and> med e < med e'))"

definition short_path :: "rib_entry \<Rightarrow> bool" where
  "short_path e \<longleftrightarrow> (case pa_as_path (re_attributes e) of Some p \<Rightarrow> hop_count p < 2 ^ 32 | None \<Rightarrow> True)"

lemma complement_less: "- 1 - a < - 1 - b \<longleftrightarrow> b < (a :: 'a::len word)"
proof -
  define M where "M = unat (- 1 :: 'a word)"
  have sub: "unat (- 1 - x) = M - unat x" for x :: "'a word"
    unfolding M_def by (rule unat_sub) simp
  have "unat x \<le> M" for x :: "'a word"
    unfolding M_def by (simp flip: word_le_nat_alt)
  from this [of a] this [of b] show ?thesis
    unfolding word_less_nat_alt sub by arith
qed

lemma path_rank_less:
  assumes "short_path e" "short_path e'"
  shows "path_rank e < path_rank e' \<longleftrightarrow> better_path e e'"
proof -
  let ?lp = "\<lambda>e. case local_pref (re_attributes e) of Some v \<Rightarrow> v | None \<Rightarrow> 0"
  let ?hops = "\<lambda>e. case pa_as_path (re_attributes e) of Some p \<Rightarrow> hop_count p | None \<Rightarrow> 0"
  let ?med = "\<lambda>e. case multi_exit_disc (re_attributes e) of Some v \<Rightarrow> v | None \<Rightarrow> - 1"
  have rank: "path_rank x = (- 1 - ?lp x, word_of_nat (?hops x), ?med x)" for x
    by (simp add: path_rank_def Let_def split: option.splits)
  have small: "?hops x < 2 ^ 32" if "short_path x" for x
    using that by (auto simp: short_path_def split: option.splits)
  have hops: "(word_of_nat (?hops e) :: u32) < word_of_nat (?hops e') \<longleftrightarrow> ?hops e < ?hops e'"
      "(word_of_nat (?hops e) :: u32) = word_of_nat (?hops e') \<longleftrightarrow> ?hops e = ?hops e'"
    using small [OF assms(1)] small [OF assms(2)]
    by (simp_all add: word_less_nat_alt word_unat_eq_iff unat_of_nat del: power_numeral)
  show ?thesis
    unfolding rank better_path_def Let_def less_prod_simp by (auto simp: le_less complement_less hops)
qed

text \<open>C9: After best-path selection for a prefix that has routes in a RIB, exactly one of its routes is marked best, and
  no other route of the prefix beats it: by a higher LOCAL_PREF (missing counts as 0), then by a shorter AS
  path, then by a lower MED (missing counts as the largest). No route appears, disappears or changes in any
  other field.\<close>

theorem best_path_unique:
  assumes "rib_ok T" and "route_map T (r, k0) = Some e0" and "key_matches_prefix k0 p"
    and "\<And>k e. route_map T (r, k) = Some e \<Longrightarrow> short_path e"
  shows "\<exists>b best. route_map T (r, b) = Some best \<and> key_matches_prefix b p
    \<and> (\<forall>k e. route_map T (r, k) = Some e \<longrightarrow> key_matches_prefix k p \<longrightarrow> \<not> better_path e best)
    \<and> (\<forall>r' k. route_map (recompute_best_path r p T) (r', k) =
          (if r' = r \<and> key_matches_prefix k p then map_option (\<lambda>e. e\<lparr>re_is_best := (k = b)\<rparr>) (route_map T (r', k))
           else route_map T (r', k)))"
  using recompute_best_spec [OF assms(1), of documented_externals r p]
proof (cases rule: spec_step.cases)
  case spec_best_none
  with assms show ?thesis by (auto simp: routes_of_def)
next
  case (spec_best b)
  then obtain best where b: "route_map T (r, b) = Some best" "key_matches_prefix b p"
    by (auto simp: least_route_def routes_of_def)
  have "\<not> better_path e best" if e: "route_map T (r, k) = Some e" "key_matches_prefix k p" for k e
  proof -
    from spec_best(2) b e have "path_rank best \<le> path_rank e"
      by (force simp: least_route_def routes_of_def)
    then show ?thesis using path_rank_less [OF assms(4) [OF e(1)] assms(4) [OF b(1)]] by (metis leD)
  qed
  with b spec_best(1) show ?thesis by (auto simp: mark_best_def intro!: exI [of _ b])
qed

definition sample_route :: "u32 option \<Rightarrow> u32 \<Rightarrow> rib_entry" where
  "sample_route i lp = \<lparr>re_prefix = PrefixV4 (Ipv4Net 0x0A000000 8), re_path_id = i,
     re_attributes = default_attributes\<lparr>local_pref := Some lp\<rparr>, re_received_at = 0, re_peer_addr = IpV4 1,
     re_peer_as = 65001, re_is_best = True, re_llgr_state = Normal, re_stale_at = None\<rparr>"

definition sample_table :: rib_table where
  "sample_table = snd (rib_insert LocRib (sample_route (Some 2) 200)
     (snd (rib_insert LocRib (sample_route (Some 1) 100) rib_table_new)))"

lemma sample_table_ok: "rib_ok sample_table"
  by (simp add: sample_table_def rib_ok_insert)

lemma sample_table_map: "route_map sample_table =
    (\<lambda>_. None)((LocRib, entry_key (sample_route (Some 1) 100)) \<mapsto> sample_route (Some 1) 100,
      (LocRib, entry_key (sample_route (Some 2) 200)) \<mapsto> sample_route (Some 2) 200)"
  by (simp add: sample_table_def route_map_insert)

lemma sample_route_simps:
  "entry_key (sample_route i lp) = TableRouteKey (IpUnicast (PrefixV4 (Ipv4Net 0x0A000000 8))) i"
  "short_path (sample_route i lp)"
  "key_matches_prefix (entry_key (sample_route i lp)) (re_prefix (sample_route i lp))"
  by (simp_all add: sample_route_def entry_key_def table_route_key_from_prefix_def short_path_def
      default_attributes_def key_matches_prefix_def)

theorem best_path_unique_witness:
  "\<exists>b best. route_map sample_table (LocRib, b) = Some best \<and> key_matches_prefix b (PrefixV4 (Ipv4Net 0x0A000000 8))
    \<and> route_map (recompute_best_path LocRib (PrefixV4 (Ipv4Net 0x0A000000 8)) sample_table) (LocRib, b) =
        Some (best\<lparr>re_is_best := True\<rparr>)"
proof -
  let ?p = "PrefixV4 (Ipv4Net 0x0A000000 8)" and ?k = "entry_key (sample_route (Some 2) 200)"
  have k: "route_map sample_table (LocRib, ?k) = Some (sample_route (Some 2) 200)" "key_matches_prefix ?k ?p"
    using sample_route_simps(3) [of "Some 2" 200] by (simp_all add: sample_table_map sample_route_def)
  have "short_path e" if "route_map sample_table (LocRib, k) = Some e" for k e
    using that by (auto simp: sample_table_map sample_route_simps split: if_splits)
  from best_path_unique [OF sample_table_ok k this] show ?thesis by fastforce
qed

section \<open>Long-lived graceful restart\<close>

lemma le_div_iff_int: "0 < (c :: int) \<Longrightarrow> n \<le> d div c \<longleftrightarrow> n * c \<le> d"
proof
  assume c: "0 < c" and "n \<le> d div c"
  then have "n * c \<le> d div c * c" by (simp add: mult_right_mono)
  also have "\<dots> \<le> d" using c by (simp flip: minus_mod_eq_div_mult)
  finally show "n * c \<le> d" .
next
  assume c: "0 < c" and "n * c \<le> d"
  then show "n \<le> d div c" using zdiv_mono1 [of "n * c" d c] by simp
qed

lemma num_seconds_ge:
  assumes "chrono X" "0 < n"
  shows "num_seconds X d \<ge> n \<longleftrightarrow> n * 1000000000 \<le> d"
proof (cases "d < 0")
  case True
  then have "num_seconds X d \<le> 0"
    by (simp add: chrono.num_seconds_trunc [OF assms(1)] pos_imp_zdiv_nonneg_iff)
  with True assms(2) show ?thesis by auto
qed (simp add: chrono.num_seconds_trunc [OF assms(1)] le_div_iff_int)

lemma stale_expired_iff: "chrono X \<Longrightarrow> 0 < secs \<Longrightarrow> re_llgr_state e = StaleMarked \<Longrightarrow> re_stale_at e = Some ts \<Longrightarrow>
    stale_expired X now secs e \<longleftrightarrow> ts + uint secs * 1000000000 \<le> now"
  using num_seconds_ge [of X "uint secs" "now - ts"]
  by (auto simp: stale_expired_def word_less_def)

text \<open>C10: Long-lived graceful restart keeps a route for exactly the negotiated stale time. When a peer goes down at
  \<open>ts\<close> all its routes are marked; a later sweep drops a route if and only if the stale time has passed since the
  route was first marked (a second mark does not restart the clock), and a route announced again in between is
  kept by every sweep.\<close>

theorem llgr_retention:
  assumes "chrono X" "rib_ok T" "0 < secs" "route_map T (r, k) = Some e"
    and "re_llgr_state e = Normal"
  shows "route_map (snd (drain_deleted_stale X now secs (mark_stale_all ts T))) (r, k) =
      (if ts + uint secs * 1000000000 \<le> now then None
       else Some (e\<lparr>re_llgr_state := StaleMarked, re_stale_at := Some ts\<rparr>))
    \<and> route_map (snd (drain_deleted_stale X now secs (mark_stale_all ts' (mark_stale_all ts T)))) (r, k) =
      route_map (snd (drain_deleted_stale X now secs (mark_stale_all ts T))) (r, k)
    \<and> (entry_key e' = k \<longrightarrow> re_llgr_state e' = Normal \<longrightarrow>
      route_map (snd (drain_deleted_stale X now secs (snd (rib_insert r e' (mark_stale_all ts T))))) (r, k) = Some e')"
proof -
  define e1 where "e1 = e\<lparr>re_llgr_state := StaleMarked, re_stale_at := Some ts\<rparr>"
  have mark: "mark_stale ts e = e1" "mark_stale ts' e1 = e1"
    using assms(5) by (simp_all add: mark_stale_def e1_def)
  have "stale_expired X now secs e1 \<longleftrightarrow> ts + uint secs * 1000000000 \<le> now"
    by (rule stale_expired_iff [OF assms(1) assms(3)]) (simp_all add: e1_def)
  moreover have "re_llgr_state e' = Normal \<longrightarrow> \<not> stale_expired X now secs e'"
    by (simp add: stale_expired_def)
  ultimately show ?thesis using assms mark unfolding e1_def [symmetric]
    by (simp add: route_map_drain route_map_mark route_map_insert rib_ok_mark rib_ok_insert)
qed

theorem llgr_retention_witness:
  "route_map (snd (drain_deleted_stale documented_externals 4000000000 4 (mark_stale_all 0 sample_table)))
     (LocRib, entry_key (sample_route (Some 2) 200)) = None
   \<and> route_map (snd (drain_deleted_stale documented_externals 3999999999 4 (mark_stale_all 0 sample_table)))
     (LocRib, entry_key (sample_route (Some 2) 200)) =
     Some ((sample_route (Some 2) 200)\<lparr>re_llgr_state := StaleMarked, re_stale_at := Some 0\<rparr>)"
  using llgr_retention [OF doc_chrono.chrono_axioms sample_table_ok, of 4 LocRib "entry_key (sample_route (Some 2) 200)"
      "sample_route (Some 2) 200" 4000000000 0]
    llgr_retention [OF doc_chrono.chrono_axioms sample_table_ok, of 4 LocRib "entry_key (sample_route (Some 2) 200)"
      "sample_route (Some 2) 200" 3999999999 0]
  by (simp add: sample_table_map) (simp add: sample_route_def)

end
