(* ===== verification/Session.thy ===== *)
theory Session
  imports Rib_Table
begin

text \<open>
  \<open>crates/rbmp-rib/src/session.rs\<close>: what the RIB keeps of a BGP peer and of a BMP speaker. A \<open>HashSet\<close> is a set.
  The counter \<open>flap_count\<close> wraps, as in the release profile.
\<close>

section \<open>Peer sessions\<close>

datatype peer_state = Up | Down | UnknownState

record peer_session =
  ps_key :: peer_key
  ps_type :: peer_type
  ps_distinguisher :: bytes
  ps_address :: ip_addr
  ps_as :: u32
  ps_bgp_id :: ipv4
  ps_local_as :: u32
  ps_hold_time :: u16
  ps_state :: peer_state
  up_at :: "timestamp option"
  down_at :: "timestamp option"
  ps_capabilities :: "bgp_capability list"
  route_counts :: "(rib_type, nat) hmap"
  flap_count :: u32
  ps_add_path_families :: "(afi_safi \<times> u8) list"
  llgr_stale_secs :: u32
  llgr_active :: bool
  eor_families :: "(rib_type, afi_safi set) hmap"

definition new_for_speaker :: "ip_addr \<Rightarrow> peer_header \<Rightarrow> peer_session" where
  "new_for_speaker speaker hdr = \<lparr>ps_key = peer_key_from_header speaker hdr, ps_type = peer_type hdr,
     ps_distinguisher = peer_distinguisher hdr, ps_address = peer_address hdr, ps_as = peer_as hdr,
     ps_bgp_id = peer_bgp_id hdr, ps_local_as = 0, ps_hold_time = 0, ps_state = UnknownState, up_at = None,
     down_at = None, ps_capabilities = [], route_counts = hm_empty, flap_count = 0, ps_add_path_families = [],
     llgr_stale_secs = 0, llgr_active = False, eor_families = hm_empty\<rparr>"

definition peer_session_new :: "peer_header \<Rightarrow> peer_session" where
  "peer_session_new hdr = new_for_speaker (IpV4 0) hdr"

text \<open>The loop over the Add-Path capabilities keeps the families of mode 3 (send and receive), each once.\<close>

definition add_path_entry :: "(afi_safi \<times> u8) list \<Rightarrow> afi_safi \<times> u8 \<Rightarrow> (afi_safi \<times> u8) list" where
  "add_path_entry ap = (\<lambda>(fam, mode).
     if mode = 3 \<and> \<not> list_ex (\<lambda>(a, _). a = fam) ap then ap @ [(fam, mode)] else ap)"

fun add_path_capability :: "(afi_safi \<times> u8) list \<Rightarrow> bgp_capability \<Rightarrow> (afi_safi \<times> u8) list" where
  "add_path_capability ap (AddPath entries) = foldl add_path_entry ap entries"
| "add_path_capability ap _ = ap"

text \<open>The \<open>while i + 7 <= entries.len()\<close> loop over AFI(2), SAFI(1), flags(1), stale time(3).\<close>

fun max_stale_secs :: "u32 \<Rightarrow> bytes \<Rightarrow> u32" where
  "max_stale_secs m (b0 # b1 # b2 # b3 # b4 # b5 # b6 # rest) =
     (let t = from_be_bytes [0, b4, b5, b6] in max_stale_secs (if m < t then t else m) rest)"
| "max_stale_secs m _ = m"

fun llgr_capability :: "bgp_capability \<Rightarrow> u32 option" where
  "llgr_capability (LongLivedGracefulRestart entries) = Some (max_stale_secs 0 entries)"
| "llgr_capability _ = None"

definition on_up :: "u32 \<Rightarrow> u16 \<Rightarrow> bgp_capability list \<Rightarrow> timestamp \<Rightarrow> peer_session \<Rightarrow> peer_session" where
  "on_up local_as hold caps ts s =
     (let secs = (case find_map llgr_capability caps of Some t \<Rightarrow> t | None \<Rightarrow> 0)
      in s\<lparr>flap_count := (if ps_state s = Up then flap_count s + 1 else flap_count s),
          ps_state := Up, up_at := Some ts, ps_local_as := local_as, ps_hold_time := hold,
          eor_families := hm_empty,
          ps_add_path_families := foldl add_path_capability [] caps,
          llgr_stale_secs := secs, llgr_active := (0 < secs), ps_capabilities := caps\<rparr>)"

definition on_up_with_header ::
  "peer_header \<Rightarrow> u32 \<Rightarrow> u16 \<Rightarrow> bgp_capability list \<Rightarrow> timestamp \<Rightarrow> peer_session \<Rightarrow> peer_session" where
  "on_up_with_header hdr local_as hold caps ts s =
     on_up local_as hold caps ts (s\<lparr>ps_as := peer_as hdr, ps_bgp_id := peer_bgp_id hdr\<rparr>)"

definition session_add_path_active_for :: "peer_session \<Rightarrow> afi_safi \<Rightarrow> bool" where
  "session_add_path_active_for s f = list_ex (\<lambda>(a, m). a = f \<and> 0 < m) (ps_add_path_families s)"

definition session_decode_context :: "peer_session \<Rightarrow> bool \<Rightarrow> bgp_decode_context" where
  "session_decode_context s four = from_capabilities four (ps_capabilities s)"

definition mark_eor :: "rib_type \<Rightarrow> afi_safi \<Rightarrow> peer_session \<Rightarrow> peer_session" where
  "mark_eor r f s = s\<lparr>eor_families := hm_modify r (insert f) (hm_or_insert r {} (eor_families s))\<rparr>"

definition has_eor :: "peer_session \<Rightarrow> rib_type \<Rightarrow> afi_safi \<Rightarrow> bool" where
  "has_eor s r f = (case hm_get (eor_families s) r of None \<Rightarrow> False | Some fs \<Rightarrow> f \<in> fs)"

definition on_down :: "timestamp \<Rightarrow> peer_session \<Rightarrow> peer_session" where
  "on_down ts s = s\<lparr>ps_state := Down, down_at := Some ts, route_counts := hm_empty, eor_families := hm_empty\<rparr>"

definition uptime_secs :: "externals \<Rightarrow> peer_session \<Rightarrow> int option" where
  "uptime_secs X s = map_option (\<lambda>t. num_seconds X (utc_now X - t)) (up_at s)"

section \<open>Speaker sessions\<close>

record bmp_session =
  bs_source :: observation_source
  bs_speaker :: ip_addr
  bs_sys_name :: "string option"
  bs_sys_descr :: "string option"
  connected_at :: timestamp
  peers :: "(peer_key, peer_session) hmap"

definition with_source :: "observation_source \<Rightarrow> timestamp \<Rightarrow> bmp_session" where
  "with_source src ts = \<lparr>bs_source = src, bs_speaker = exporter_addr src, bs_sys_name = None,
     bs_sys_descr = None, connected_at = ts, peers = hm_empty\<rparr>"

definition bmp_session_new :: "ip_addr \<Rightarrow> timestamp \<Rightarrow> bmp_session" where
  "bmp_session_new speaker ts = with_source (observation_source_new speaker 1) ts"

definition peer_by_key :: "bmp_session \<Rightarrow> peer_key \<Rightarrow> peer_session option" where
  "peer_by_key s k = hm_get (peers s) k"

definition peer_by_addr :: "bmp_session \<Rightarrow> ip_addr \<Rightarrow> peer_session option" where
  "peer_by_addr s a = find (\<lambda>p. ps_address p = a) (hm_values (peers s))"

definition peer_count :: "bmp_session \<Rightarrow> nat" where
  "peer_count s = length (peers s)"

definition up_peer_count :: "bmp_session \<Rightarrow> nat" where
  "up_peer_count s = length (filter (\<lambda>p. ps_state p = Up) (hm_values (peers s)))"

definition session_total_routes :: "bmp_session \<Rightarrow> nat" where
  "session_total_routes s = sum_list (concat (map (\<lambda>p. hm_values (route_counts p)) (hm_values (peers s))))"

section \<open>Lemmas\<close>

lemma has_eor_mark: "has_eor (mark_eor r f s) r' f' \<longleftrightarrow> r' = r \<and> f' = f \<or> has_eor s r' f'"
  by (auto simp: has_eor_def mark_eor_def hm_gets split: option.splits)

lemma has_eor_cleared: "\<not> has_eor (on_up l h c ts s) r f" "\<not> has_eor (on_down ts s) r f"
  by (simp_all add: has_eor_def on_up_def on_down_def Let_def hm_gets)

text \<open>The stale time is the largest of the entries of the first LLGR capability.\<close>

lemma max_stale_secs_max: "max_stale_secs m bs = foldl max m (map (\<lambda>i. from_be_bytes (0 # take 3 (drop (7 * i + 4) bs)))
    [0..<length bs div 7])"
proof (induction m bs rule: max_stale_secs.induct)
  case (1 m b0 b1 b2 b3 b4 b5 b6 rest)
  define xs where "xs = b0 # b1 # b2 # b3 # b4 # b5 # b6 # rest"
  have xs: "length xs div 7 = Suc (length rest div 7)" "take 3 (drop 4 xs) = [b4, b5, b6]" "drop 7 xs = rest"
    by (simp_all add: xs_def)
  have step: "drop (7 * Suc i + 4) xs = drop (7 * i + 4) rest" for i
    using drop_drop [of "7 * i + 4" 7 xs] xs(3) by (simp add: algebra_simps)
  let ?f = "\<lambda>xs i. from_be_bytes (0 # take 3 (drop (7 * i + 4) xs)) :: u32"
  have "[0..<length xs div 7] = 0 # map Suc [0..<length rest div 7]"
    by (simp add: xs(1) map_Suc_upt upt_conv_Cons del: upt_Suc)
  then have "map (?f xs) [0..<length xs div 7] = ?f xs 0 # map (?f rest) [0..<length rest div 7]"
    by (simp add: step del: mult_Suc_right)
  moreover have "?f xs 0 = from_be_bytes [0, b4, b5, b6]" using xs(2) by simp
  ultimately have "foldl max m (map (?f xs) [0..<length xs div 7]) =
      foldl max (max m (from_be_bytes [0, b4, b5, b6])) (map (?f rest) [0..<length rest div 7])"
    by simp
  moreover have "(if m < t then t else m) = max m t" for t by (simp add: max_def less_le_not_le)
  ultimately show ?case
    using 1 [OF refl] unfolding xs_def max_stale_secs.simps Let_def by simp
qed simp_all

text \<open>A peer that goes down and comes up again is not counted as a flap; only a second Peer Up without a Peer Down
  in between is.\<close>

lemma flap_not_counted: "flap_count (on_up l h c ts (on_down ts' s)) = flap_count s"
  by (simp add: on_up_def on_down_def Let_def)

text \<open>The family list of the session and the decode context, computed by two separate loops over the same
  capabilities, agree.\<close>

lemma add_path_entries_set:
  "\<forall>x \<in> set ap. snd x = 3 \<Longrightarrow> fst ` set (foldl add_path_entry ap es) = fst ` set ap \<union> {f. (f, 3) \<in> set es}
     \<and> (\<forall>x \<in> set (foldl add_path_entry ap es). snd x = 3)"
proof (induction es arbitrary: ap)
  case (Cons e es)
  obtain f mode where e: "e = (f, mode)" by force
  have "list_ex (\<lambda>(a, _). a = f) ap \<longleftrightarrow> f \<in> fst ` set ap" by (force simp: list_ex_iff)
  then have "fst ` set (add_path_entry ap e) = fst ` set ap \<union> {g. g = f \<and> mode = 3}"
    "\<forall>x \<in> set (add_path_entry ap e). snd x = 3"
    using Cons.prems by (auto simp: add_path_entry_def e)
  with Cons.IH [of "add_path_entry ap e"] show ?case by (auto simp: e)
qed simp

lemma add_path_capability_set:
  "\<forall>x \<in> set ap. snd x = 3 \<Longrightarrow>
     fst ` set (foldl add_path_capability ap caps) = fst ` set ap \<union> {f. (f, 3) \<in> set (concat (map add_path_of caps))}
     \<and> (\<forall>x \<in> set (foldl add_path_capability ap caps). snd x = 3)"
proof (induction caps arbitrary: ap)
  case (Cons c caps)
  have c: "add_path_capability ap c = foldl add_path_entry ap (add_path_of c)" by (cases c) simp_all
  note ap = add_path_entries_set [OF Cons.prems, of "add_path_of c", folded c]
  show ?case using Cons.IH [of "add_path_capability ap c"] ap by (simp add: Un_assoc Collect_disj_eq)
qed simp

lemma from_capabilities_families:
  "add_path_families (from_capabilities b caps) = {f. (f, 3) \<in> set (concat (map add_path_of caps))}"
proof -
  have "foldl (\<lambda>fams (f, mode). if mode = 3 then insert f fams else fams) S es = S \<union> {f. (f, 3) \<in> set es}"
    for S and es :: "(afi_safi \<times> u8) list"
    by (induction es arbitrary: S) (auto split: if_splits)
  then show ?thesis by (simp add: from_capabilities_def)
qed

lemma session_add_path_agrees:
  "session_add_path_active_for (on_up l h caps ts s) f \<longleftrightarrow>
     has_add_path (session_decode_context (on_up l h caps ts s) b) f"
proof -
  let ?ap = "foldl add_path_capability [] caps"
  have fams: "fst ` set ?ap = {f. (f, 3) \<in> set (concat (map add_path_of caps))}"
    and modes: "\<And>x. x \<in> set ?ap \<Longrightarrow> snd x = 3"
    using add_path_capability_set [of "[]" caps] by simp_all
  have "list_ex (\<lambda>(a, m). a = f \<and> 0 < m) ?ap \<longleftrightarrow> (\<exists>x \<in> set ?ap. fst x = f \<and> 0 < snd x)"
    unfolding list_ex_iff by (rule bex_cong [OF refl]) (simp add: case_prod_beta)
  also have "\<dots> \<longleftrightarrow> (\<exists>x \<in> set ?ap. f = fst x)"
    by (rule bex_cong [OF refl]) (auto simp: modes)
  also have "\<dots> \<longleftrightarrow> f \<in> fst ` set ?ap"
    by (simp only: image_iff)
  finally show ?thesis unfolding fams
    by (simp add: session_add_path_active_for_def session_decode_context_def has_add_path_def on_up_def Let_def
        from_capabilities_families)
qed

end
