(* ===== verification/Filter_Expr.thy ===== *)
theory Filter_Expr
  imports Bgp_Types
begin

text \<open>
  \<open>crates/rbmp-rib/src/filter_expr.rs\<close>: the predicate language of the route filters. The parser generated by pest from
  \<open>filter.pest\<close> is a parameter: it maps the trimmed input to an error message or to the parse tree, a tree of
  \<open>Pair\<close>s that carry a rule and the text they span. \<open>build_expr\<close> turns the tree into an \<open>expr\<close>, and \<open>eval\<close> runs
  it on a route. Errors are the messages of the source. \<open>grammatical\<close> states which trees the grammar has, \<open>means\<close> what such a tree
  says about a route; the expression that is built is shown to say the same.
\<close>

section \<open>Text\<close>

text \<open>\<open>str::trim\<close> strips the characters with the Unicode White_Space property, given here by their UTF-8 bytes.\<close>

definition white_space :: "string list" where
  "white_space = map (\<lambda>n. [char_of (n :: nat)]) [9, 10, 11, 12, 13, 32] @
     map (map (char_of :: nat \<Rightarrow> char)) ([[0xC2, 0x85], [0xC2, 0xA0], [0xE1, 0x9A, 0x80], [0xE2, 0x80, 0xA8], [0xE2, 0x80, 0xA9],
       [0xE2, 0x80, 0xAF], [0xE2, 0x81, 0x9F], [0xE3, 0x80, 0x80]]
     @ map (\<lambda>n. [0xE2, 0x80, n]) [0x80..<0x8B])"

fun strip_one :: "string list \<Rightarrow> string \<Rightarrow> string option" where
  "strip_one [] s = None"
| "strip_one (w # ws) s = (if w \<noteq> [] \<and> take (length w) s = w then Some (drop (length w) s) else strip_one ws s)"

lemma strip_one_shorter: "strip_one ws s = Some s' \<Longrightarrow> length s' < length s"
  by (induction ws; cases s) (auto split: if_splits)

function strip_all :: "string list \<Rightarrow> string \<Rightarrow> string" where
  "strip_all ws s = (case strip_one ws s of None \<Rightarrow> s | Some s' \<Rightarrow> strip_all ws s')"
  by pat_completeness auto

termination strip_all
  by (relation "measure (\<lambda>(ws, s). length s)") (auto simp: strip_one_shorter)

declare strip_all.simps [simp del]

definition trim :: "string \<Rightarrow> string" where
  "trim s = rev (strip_all (map rev white_space) (rev (strip_all white_space s)))"

text \<open>\<open>str::parse\<close> for unsigned integers, with the messages of \<open>ParseIntError\<close>.\<close>

definition is_digit :: "char \<Rightarrow> bool" where
  "is_digit c \<longleftrightarrow> (48 :: nat) \<le> of_char c \<and> (of_char c :: nat) \<le> 57"

definition digits_value :: "string \<Rightarrow> nat" where
  "digits_value s = foldl (\<lambda>n c. 10 * n + (of_char c - 48)) 0 s"

definition parse_uint :: "nat \<Rightarrow> string \<Rightarrow> (string, nat) outcome" where
  "parse_uint bound s =
     (if s = [] then Err ''cannot parse integer from empty string'' else
      let ds = (if hd s = CHR ''+'' then tl s else s) in
      if ds = [] \<or> \<not> list_all is_digit ds then Err ''invalid digit found in string''
      else if bound \<le> digits_value ds then Err ''number too large to fit in target type''
      else Ok (digits_value ds))"

section \<open>Routes and expressions\<close>

record route_ctx =
  rc_prefix_len :: u8
  rc_as_path_len :: nat
  rc_origin_asn :: u32
  rc_has_prepend :: bool
  rc_rpki :: string
  rc_action :: string
  rc_peer_as :: u32
  rc_local_pref :: "u32 option"
  rc_med :: "u32 option"
  rc_community_set :: "string set"

datatype expr =
    AndExpr expr expr | OrExpr expr expr | NotExpr expr
  | PrefixLenGt u8 | PrefixLenLt u8 | PrefixLenGe u8 | PrefixLenLe u8 | PrefixLenEq u8
  | AsPathLenGt nat | AsPathLenLt nat | AsPathLenGe nat | AsPathLenLe nat | AsPathLenEq nat
  | LocalPrefGt u32 | LocalPrefLt u32 | LocalPrefEq u32
  | MedGt u32 | MedLt u32 | MedEq u32
  | RpkiEq string | RpkiNe string | ActionEq string | CommunityHas string
  | OriginAsIn "u32 set" | OriginAsNotIn "u32 set" | PeerAsIn "u32 set" | PeerAsNotIn "u32 set"
  | HasPrepend | TrueExpr | FalseExpr

definition unwrap_or :: "'a \<Rightarrow> 'a option \<Rightarrow> 'a" where
  "unwrap_or d x = (case x of None \<Rightarrow> d | Some v \<Rightarrow> v)"

fun eval :: "route_ctx \<Rightarrow> expr \<Rightarrow> bool" where
  "eval ctx (AndExpr a b) = (eval ctx a \<and> eval ctx b)"
| "eval ctx (OrExpr a b) = (eval ctx a \<or> eval ctx b)"
| "eval ctx (NotExpr e) = (\<not> eval ctx e)"
| "eval ctx (PrefixLenGt n) = (rc_prefix_len ctx > n)"
| "eval ctx (PrefixLenLt n) = (rc_prefix_len ctx < n)"
| "eval ctx (PrefixLenGe n) = (rc_prefix_len ctx \<ge> n)"
| "eval ctx (PrefixLenLe n) = (rc_prefix_len ctx \<le> n)"
| "eval ctx (PrefixLenEq n) = (rc_prefix_len ctx = n)"
| "eval ctx (AsPathLenGt n) = (rc_as_path_len ctx > n)"
| "eval ctx (AsPathLenLt n) = (rc_as_path_len ctx < n)"
| "eval ctx (AsPathLenGe n) = (rc_as_path_len ctx \<ge> n)"
| "eval ctx (AsPathLenLe n) = (rc_as_path_len ctx \<le> n)"
| "eval ctx (AsPathLenEq n) = (rc_as_path_len ctx = n)"
| "eval ctx (LocalPrefGt n) = (unwrap_or 100 (rc_local_pref ctx) > n)"
| "eval ctx (LocalPrefLt n) = (unwrap_or 100 (rc_local_pref ctx) < n)"
| "eval ctx (LocalPrefEq n) = (unwrap_or 100 (rc_local_pref ctx) = n)"
| "eval ctx (MedGt n) = (unwrap_or 0 (rc_med ctx) > n)"
| "eval ctx (MedLt n) = (unwrap_or 0 (rc_med ctx) < n)"
| "eval ctx (MedEq n) = (unwrap_or 0 (rc_med ctx) = n)"
| "eval ctx (RpkiEq v) = (rc_rpki ctx = v)"
| "eval ctx (RpkiNe v) = (rc_rpki ctx \<noteq> v)"
| "eval ctx (ActionEq v) = (rc_action ctx = v)"
| "eval ctx (CommunityHas c) = (c \<in> rc_community_set ctx)"
| "eval ctx (OriginAsIn s) = (rc_origin_asn ctx \<in> s)"
| "eval ctx (OriginAsNotIn s) = (rc_origin_asn ctx \<notin> s)"
| "eval ctx (PeerAsIn s) = (rc_peer_as ctx \<in> s)"
| "eval ctx (PeerAsNotIn s) = (rc_peer_as ctx \<notin> s)"
| "eval ctx HasPrepend = rc_has_prepend ctx"
| "eval ctx TrueExpr = True"
| "eval ctx FalseExpr = False"

section \<open>Building expressions\<close>

datatype rule = EOI | R_expr | R_or_expr | R_and_expr | R_not_expr | R_atom | R_not_kw | R_comparison
  | R_membership | R_field | R_op | R_value | R_string | R_integer | R_int_list | R_flag

fun rule_debug :: "rule \<Rightarrow> string" where
  "rule_debug EOI = ''EOI''" | "rule_debug R_expr = ''expr''" | "rule_debug R_or_expr = ''or_expr''"
| "rule_debug R_and_expr = ''and_expr''" | "rule_debug R_not_expr = ''not_expr''" | "rule_debug R_atom = ''atom''"
| "rule_debug R_not_kw = ''not_kw''" | "rule_debug R_comparison = ''comparison''"
| "rule_debug R_membership = ''membership''" | "rule_debug R_field = ''field''" | "rule_debug R_op = ''op''"
| "rule_debug R_value = ''value''" | "rule_debug R_string = ''string''" | "rule_debug R_integer = ''integer''"
| "rule_debug R_int_list = ''int_list''" | "rule_debug R_flag = ''flag''"

datatype pair = Pair (as_rule: rule) (as_str: string) (into_inner: "pair list")

type_synonym 'a parsed = "(string, 'a) outcome"

definition first_or :: "string \<Rightarrow> pair list \<Rightarrow> (pair \<times> pair list) parsed" where
  "first_or msg ps = (case ps of [] \<Rightarrow> Err msg | p # rest \<Rightarrow> Ok (p, rest))"

text \<open>\<open>s[1..s.len() - 1]\<close> panics when the text is a single quote character.\<close>

definition strip_quotes :: "string \<Rightarrow> string parsed" where
  "strip_quotes s0 = (let s = trim s0 in
     if s \<noteq> [] \<and> (hd s = CHR 0x27 \<and> last s = CHR 0x27 \<or> hd s = CHR 0x22 \<and> last s = CHR 0x22)
     then if length s = 1 then Panic else Ok (butlast (tl s))
     else Ok s)"

definition unsupported :: "string \<Rightarrow> string \<Rightarrow> expr parsed" where
  "unsupported op field = Err (''unsupported op '' @ [CHR 0x27] @ op @ [CHR 0x27] @ '' for '' @ field)"

definition build_comparison :: "string \<Rightarrow> string \<Rightarrow> pair \<Rightarrow> expr parsed" where
  "build_comparison field op val =
     and_then (first_or ''empty value'' (into_inner val)) (\<lambda>(v, _).
     if field = ''prefix_len'' then
       and_then (parse_uint (2 ^ 8) (trim (as_str v))) (\<lambda>n0. let n = word_of_nat n0 in
       if op = ''>'' then Ok (PrefixLenGt n) else if op = ''<'' then Ok (PrefixLenLt n)
       else if op = ''>='' then Ok (PrefixLenGe n) else if op = ''<='' then Ok (PrefixLenLe n)
       else if op = ''=='' \<or> op = ''='' then Ok (PrefixLenEq n)
       else unsupported op ''prefix_len'')
     else if field = ''as_path_len'' then
       and_then (parse_uint (2 ^ 64) (trim (as_str v))) (\<lambda>n.
       if op = ''>'' then Ok (AsPathLenGt n) else if op = ''<'' then Ok (AsPathLenLt n)
       else if op = ''>='' then Ok (AsPathLenGe n) else if op = ''<='' then Ok (AsPathLenLe n)
       else if op = ''=='' \<or> op = ''='' then Ok (AsPathLenEq n)
       else unsupported op ''as_path_len'')
     else if field = ''local_pref'' then
       and_then (parse_uint (2 ^ 32) (trim (as_str v))) (\<lambda>n0. let n = word_of_nat n0 in
       if op = ''>'' then Ok (LocalPrefGt n) else if op = ''<'' then Ok (LocalPrefLt n)
       else if op = ''=='' \<or> op = ''='' then Ok (LocalPrefEq n)
       else unsupported op ''local_pref'')
     else if field = ''med'' then
       and_then (parse_uint (2 ^ 32) (trim (as_str v))) (\<lambda>n0. let n = word_of_nat n0 in
       if op = ''>'' then Ok (MedGt n) else if op = ''<'' then Ok (MedLt n)
       else if op = ''=='' \<or> op = ''='' then Ok (MedEq n)
       else unsupported op ''med'')
     else if field = ''rpki'' \<and> (op = ''=='' \<or> op = ''='') then and_then (strip_quotes (as_str v)) (\<lambda>s. Ok (RpkiEq s))
     else if field = ''rpki'' \<and> op = ''!='' then and_then (strip_quotes (as_str v)) (\<lambda>s. Ok (RpkiNe s))
     else if field = ''action'' \<and> (op = ''=='' \<or> op = ''='') then and_then (strip_quotes (as_str v)) (\<lambda>s. Ok (ActionEq s))
     else if field = ''community'' \<and> (op = ''=='' \<or> op = ''='') then
       and_then (strip_quotes (as_str v)) (\<lambda>s. Ok (CommunityHas s))
     else Err (''unsupported field/op combination: '' @ [CHR 0x27] @ field @ [CHR 0x27] @ '' '' @ [CHR 0x27] @ op @ [CHR 0x27]))"

text \<open>\<open>collect::<Result<_, _>>\<close> of the integers: the first bad one is the error.\<close>

fun collect_u32 :: "pair list \<Rightarrow> u32 list parsed" where
  "collect_u32 [] = Ok []"
| "collect_u32 (p # ps) =
     (if as_rule p = R_integer
      then and_then (parse_uint (2 ^ 32) (trim (as_str p))) (\<lambda>n. and_then (collect_u32 ps) (\<lambda>ns. Ok (word_of_nat n # ns)))
      else collect_u32 ps)"

definition build_membership :: "pair list \<Rightarrow> expr parsed" where
  "build_membership inner =
     and_then (first_or ''missing field'' inner) (\<lambda>(f, inner).
     let field = trim (as_str f) in
     and_then (first_or ''missing NOT/int_list'' inner) (\<lambda>(nxt, inner).
     and_then (if as_rule nxt = R_not_kw
       then and_then (first_or ''missing int_list after NOT IN'' inner) (\<lambda>(l, _). Ok (True, l))
       else Ok (False, nxt)) (\<lambda>(negated, int_list).
     and_then (collect_u32 (into_inner int_list)) (\<lambda>ns.
     if field = ''origin_as'' then Ok (if negated then OriginAsNotIn (set ns) else OriginAsIn (set ns))
     else if field = ''peer_as'' then Ok (if negated then PeerAsNotIn (set ns) else PeerAsIn (set ns))
     else Err (''IN membership not supported for field '' @ [CHR 0x27] @ field @ [CHR 0x27])))))"

definition build_flag :: "string \<Rightarrow> expr parsed" where
  "build_flag s = (if trim s = ''has_prepend'' then Ok HasPrepend else if trim s = ''true'' then Ok TrueExpr
     else if trim s = ''false'' then Ok FalseExpr else Err (''unknown flag: '' @ trim s))"

lemma find_size: "find P ps = Some p \<Longrightarrow> size p < Suc (size_list size ps)"
  by (induction ps) (auto split: if_splits)

function (sequential) build_expr :: "pair \<Rightarrow> expr parsed"
  and build_chain :: "(expr \<Rightarrow> expr \<Rightarrow> expr) \<Rightarrow> expr \<Rightarrow> pair list \<Rightarrow> expr parsed" where
  "build_expr (Pair R_expr s inner) = (case find (\<lambda>p. as_rule p = R_or_expr) inner of
     None \<Rightarrow> Err ''expr missing or_expr child''
   | Some p \<Rightarrow> build_expr p)"
| "build_expr (Pair R_or_expr s []) = Err ''missing lhs''"
| "build_expr (Pair R_or_expr s (p # ps)) = and_then (build_expr p) (\<lambda>left. build_chain OrExpr left ps)"
| "build_expr (Pair R_and_expr s []) = Err ''missing lhs''"
| "build_expr (Pair R_and_expr s (p # ps)) = and_then (build_expr p) (\<lambda>left. build_chain AndExpr left ps)"
| "build_expr (Pair R_not_expr s []) = Err ''missing operand''"
| "build_expr (Pair R_not_expr s [p]) =
     (if as_rule p = R_not_kw then Err ''missing atom after NOT'' else build_expr p)"
| "build_expr (Pair R_not_expr s (p # atom # ps)) =
     (if as_rule p = R_not_kw then and_then (build_expr atom) (\<lambda>e. Ok (NotExpr e)) else build_expr p)"
| "build_expr (Pair R_atom s []) = Err ''empty atom''"
| "build_expr (Pair R_atom s (p # ps)) = build_expr p"
| "build_expr (Pair R_comparison s inner) =
     and_then (first_or ''missing field'' inner) (\<lambda>(f, inner).
     and_then (first_or ''missing op'' inner) (\<lambda>(q, inner).
     and_then (first_or ''missing value'' inner) (\<lambda>(v, _).
     build_comparison (trim (as_str f)) (trim (as_str q)) v)))"
| "build_expr (Pair R_membership s inner) = build_membership inner"
| "build_expr (Pair R_flag s inner) = build_flag s"
| "build_expr (Pair r s inner) = Err (''unexpected rule: '' @ rule_debug r)"
| "build_chain con left [] = Ok left"
| "build_chain con left (p # ps) = and_then (build_expr p) (\<lambda>rhs. build_chain con (con left rhs) ps)"
  by pat_completeness auto

termination
  by (relation "measure (\<lambda>x. case x of Inl p \<Rightarrow> size p | Inr (c, l, ps) \<Rightarrow> size_list size ps)")
     (auto dest: find_size)

type_synonym pest_parser = "string \<Rightarrow> string + pair list"

definition parse_expr :: "pest_parser \<Rightarrow> string \<Rightarrow> expr parsed" where
  "parse_expr pest input =
     (case pest (trim input) of
        Inl e \<Rightarrow> Err (''filter expression parse error: '' @ e)
      | Inr pairs \<Rightarrow> and_then (first_or ''empty expression'' pairs) (\<lambda>(p, _). build_expr p))"

section \<open>The language\<close>

text \<open>The parse trees of the grammar \<open>filter.pest\<close>: which children each rule has and what the text of a leaf is.
  The silent rules \<open>or_kw\<close>, \<open>and_kw\<close> and \<open>in_kw\<close> leave no pair. The text of an inner pair is not used and is left open.\<close>

definition field_names :: "string list" where
  "field_names = [''prefix_len'', ''as_path_len'', ''origin_as'', ''peer_as'', ''rpki'', ''action'', ''community'',
     ''local_pref'', ''med'']"

definition op_names :: "string list" where
  "op_names = [''>='', ''<='', ''!='', ''=='', ''='', ''>'', ''<'']"

definition quoted_text :: "string \<Rightarrow> bool" where
  "quoted_text s \<longleftrightarrow> 2 \<le> length s \<and> (hd s = CHR 0x27 \<or> hd s = CHR 0x22) \<and> last s = hd s \<and> hd s \<notin> set (butlast (tl s))"

fun grammatical :: "pair \<Rightarrow> bool" where
  "grammatical (Pair r s ps) = (case r of
     R_expr \<Rightarrow> map as_rule ps = [R_or_expr, EOI] \<and> (\<forall>p\<in>set ps. grammatical p)
   | R_or_expr \<Rightarrow> ps \<noteq> [] \<and> (\<forall>p\<in>set ps. as_rule p = R_and_expr \<and> grammatical p)
   | R_and_expr \<Rightarrow> ps \<noteq> [] \<and> (\<forall>p\<in>set ps. as_rule p = R_not_expr \<and> grammatical p)
   | R_not_expr \<Rightarrow> (map as_rule ps = [R_not_kw, R_atom] \<or> map as_rule ps = [R_atom]) \<and> (\<forall>p\<in>set ps. grammatical p)
   | R_atom \<Rightarrow> map as_rule ps \<in> {[R_or_expr], [R_membership], [R_comparison], [R_flag]} \<and> (\<forall>p\<in>set ps. grammatical p)
   | R_comparison \<Rightarrow> map as_rule ps = [R_field, R_op, R_value] \<and> (\<forall>p\<in>set ps. grammatical p)
   | R_membership \<Rightarrow> (map as_rule ps = [R_field, R_int_list] \<or> map as_rule ps = [R_field, R_not_kw, R_int_list]) \<and>
       (\<forall>p\<in>set ps. grammatical p)
   | R_value \<Rightarrow> (map as_rule ps = [R_string] \<or> map as_rule ps = [R_integer]) \<and> (\<forall>p\<in>set ps. grammatical p)
   | R_int_list \<Rightarrow> ps \<noteq> [] \<and> (\<forall>p\<in>set ps. as_rule p = R_integer \<and> grammatical p)
   | R_not_kw \<Rightarrow> ps = [] \<and> s = ''NOT''
   | R_field \<Rightarrow> ps = [] \<and> s \<in> set field_names
   | R_op \<Rightarrow> ps = [] \<and> s \<in> set op_names
   | R_string \<Rightarrow> ps = [] \<and> quoted_text s
   | R_integer \<Rightarrow> ps = [] \<and> s \<noteq> [] \<and> list_all is_digit s
   | R_flag \<Rightarrow> ps = [] \<and> s \<in> {''has_prepend'', ''true'', ''false''}
   | EOI \<Rightarrow> ps = [] \<and> s = [])"

text \<open>What such a tree means for a route, with mathematical numbers and with chains of any length: the reference
  the expressions are measured against.\<close>

definition relates :: "string \<Rightarrow> nat \<Rightarrow> nat \<Rightarrow> bool" where
  "relates op a b = (if op = ''>'' then a > b else if op = ''<'' then a < b else if op = ''>='' then a \<ge> b
     else if op = ''<='' then a \<le> b else a = b)"

definition field_number :: "route_ctx \<Rightarrow> string \<Rightarrow> nat" where
  "field_number ctx f = (if f = ''prefix_len'' then unat (rc_prefix_len ctx)
     else if f = ''as_path_len'' then rc_as_path_len ctx
     else if f = ''local_pref'' then (case rc_local_pref ctx of None \<Rightarrow> 100 | Some n \<Rightarrow> unat n)
     else (case rc_med ctx of None \<Rightarrow> 0 | Some n \<Rightarrow> unat n))"

definition value_text :: "pair \<Rightarrow> string" where
  "value_text v = (if as_rule v = R_string then butlast (tl (as_str v)) else as_str v)"

definition compares :: "route_ctx \<Rightarrow> string \<Rightarrow> string \<Rightarrow> pair \<Rightarrow> bool" where
  "compares ctx f op v \<longleftrightarrow> (if f = ''rpki'' then (op = ''!='') \<noteq> (rc_rpki ctx = value_text v)
     else if f = ''action'' then rc_action ctx = value_text v
     else if f = ''community'' then value_text v \<in> rc_community_set ctx
     else relates op (field_number ctx f) (digits_value (as_str v)))"

definition listed :: "route_ctx \<Rightarrow> string \<Rightarrow> pair \<Rightarrow> bool" where
  "listed ctx f l \<longleftrightarrow> unat (if f = ''origin_as'' then rc_origin_asn ctx else rc_peer_as ctx) \<in>
     (\<lambda>p. digits_value (as_str p)) ` set (into_inner l)"

fun means :: "route_ctx \<Rightarrow> pair \<Rightarrow> bool" where
  "means ctx (Pair r s ps) = (case r of
     R_expr \<Rightarrow> (\<exists>p\<in>set ps. as_rule p = R_or_expr \<and> means ctx p)
   | R_or_expr \<Rightarrow> (\<exists>p\<in>set ps. means ctx p)
   | R_and_expr \<Rightarrow> (\<forall>p\<in>set ps. means ctx p)
   | R_not_expr \<Rightarrow> (\<exists>p\<in>set ps. as_rule p = R_not_kw) \<noteq> (\<exists>p\<in>set ps. as_rule p = R_atom \<and> means ctx p)
   | R_atom \<Rightarrow> (\<exists>p\<in>set ps. means ctx p)
   | R_comparison \<Rightarrow> compares ctx (as_str (ps ! 0)) (as_str (ps ! 1)) (hd (into_inner (ps ! 2)))
   | R_membership \<Rightarrow> (\<exists>p\<in>set ps. as_rule p = R_not_kw) \<noteq> listed ctx (as_str (hd ps)) (last ps)
   | R_flag \<Rightarrow> s = ''true'' \<or> s = ''has_prepend'' \<and> rc_has_prepend ctx
   | _ \<Rightarrow> False)"

text \<open>The trees that make sense: an operator the field has, an integer for a numeric field, and numbers in range.\<close>

definition comparable :: "string \<Rightarrow> string \<Rightarrow> pair \<Rightarrow> bool" where
  "comparable f op v \<longleftrightarrow> (if f = ''rpki'' then op \<in> {''=='', ''='', ''!=''}
     else if f = ''action'' \<or> f = ''community'' then op \<in> {''=='', ''=''}
     else as_rule v = R_integer \<and>
       (f = ''prefix_len'' \<and> op \<noteq> ''!='' \<and> digits_value (as_str v) < 2 ^ 8 \<or>
        f = ''as_path_len'' \<and> op \<noteq> ''!='' \<and> digits_value (as_str v) < 2 ^ 64 \<or>
        (f = ''local_pref'' \<or> f = ''med'') \<and> op \<in> {''>'', ''<'', ''=='', ''=''} \<and> digits_value (as_str v) < 2 ^ 32))"

fun well_typed :: "pair \<Rightarrow> bool" where
  "well_typed (Pair r s ps) = (case r of
     R_comparison \<Rightarrow> comparable (as_str (ps ! 0)) (as_str (ps ! 1)) (hd (into_inner (ps ! 2)))
   | R_membership \<Rightarrow> as_str (hd ps) \<in> {''origin_as'', ''peer_as''} \<and>
       (\<forall>p\<in>set (into_inner (last ps)). digits_value (as_str p) < 2 ^ 32)
   | _ \<Rightarrow> (\<forall>p\<in>set ps. well_typed p))"

section \<open>Lemmas\<close>

lemma strip_one_None: "list_all (\<lambda>w. w \<noteq> [] \<longrightarrow> s = [] \<or> hd w \<noteq> hd s) ws \<Longrightarrow> strip_one ws s = None"
  by (induction ws; cases s) (auto simp: neq_Nil_conv)

definition graphic :: "char \<Rightarrow> bool" where
  "graphic c \<longleftrightarrow> 33 \<le> (of_char c :: nat) \<and> (of_char c :: nat) < 127"

lemma white_space_ends:
  "list_all (\<lambda>w. \<not> graphic (hd w)) white_space" "list_all (\<lambda>w. \<not> graphic (hd w)) (map rev white_space)"
  by (simp_all add: white_space_def graphic_def upt_conv_Cons)

lemma strip_all_same: "s \<noteq> [] \<longrightarrow> graphic (hd s) \<Longrightarrow> list_all (\<lambda>w. \<not> graphic (hd w)) ws \<Longrightarrow> strip_all ws s = s"
  by (subst strip_all.simps, subst strip_one_None) (auto simp: list_all_iff)

lemma trim_same: "s \<noteq> [] \<longrightarrow> graphic (hd s) \<and> graphic (last s) \<Longrightarrow> trim s = s"
  by (simp add: trim_def strip_all_same white_space_ends hd_rev)

lemma digit_char_digit: "d < 10 \<Longrightarrow> is_digit (digit_char d) \<and> of_char (digit_char d) - 48 = d"
  by (simp add: digit_char_def is_digit_def)

lemma is_digit_graphic: "is_digit c \<Longrightarrow> graphic c"
  by (simp add: is_digit_def graphic_def)

lemma radix_digits: "list_all is_digit (radix_string 10 n) \<and> digits_value (radix_string 10 n) = n \<and> radix_string 10 n \<noteq> []"
proof (induction "10 :: nat" n rule: radix_string.induct)
  case (1 n)
  show ?case
  proof (cases "n < 10")
    case True
    then show ?thesis using digit_char_digit [of n] by (subst (1 2 3) radix_string.simps) (simp add: digits_value_def)
  next
    case False
    with 1 digit_char_digit [of "n mod 10"] show ?thesis
      by (subst (1 2 3) radix_string.simps) (simp add: digits_value_def)
  qed
qed

lemma dec_digits: "list_all is_digit (dec n)" "digits_value (dec n) = n" "dec n \<noteq> []"
  using radix_digits [of n] by (simp_all add: dec_def)

lemma trim_dec [simp]: "trim (dec n) = dec n"
  using dec_digits [of n] by (intro trim_same) (auto simp: list_all_iff is_digit_graphic)

lemma parse_uint_dec: "n < bound \<Longrightarrow> parse_uint bound (dec n) = Ok n"
proof -
  assume "n < bound"
  moreover from dec_digits [of n] have "is_digit (hd (dec n))" by (auto simp: list_all_iff)
  then have "hd (dec n) \<noteq> CHR ''+''" by (auto simp: is_digit_def)
  ultimately show ?thesis using dec_digits [of n] by (simp add: parse_uint_def Let_def)
qed

lemma unat_bounds: "unat (a :: u8) < 256" "unat (b :: u32) < 4294967296"
  using unsigned_less [of a, where 'a = nat] unsigned_less [of b, where 'a = nat] by simp_all

lemma trim_field: "f \<in> set field_names \<Longrightarrow> trim f = f"
  by (rule trim_same) (auto simp: field_names_def graphic_def)

lemma trim_op: "f \<in> set op_names \<Longrightarrow> trim f = f"
  by (rule trim_same) (auto simp: op_names_def graphic_def)

lemma trim_quoted: "quoted_text s \<Longrightarrow> trim s = s"
  by (rule trim_same) (auto simp: quoted_text_def graphic_def)

lemma trim_digits: "list_all is_digit s \<Longrightarrow> trim s = s"
  by (rule trim_same) (auto simp: list_all_iff is_digit_graphic)

lemma strip_quotes_value:
  assumes "grammatical v" and "as_rule v = R_string \<or> as_rule v = R_integer"
  shows "strip_quotes (as_str v) = Ok (value_text v)"
proof (cases v)
  case (Pair r s ps)
  show ?thesis
  proof (cases "r = R_string")
    case True
    then have "quoted_text s" using assms Pair by simp
    then show ?thesis using Pair True trim_quoted [of s]
      by (auto simp: strip_quotes_def value_text_def quoted_text_def Let_def)
  next
    case False
    then have d: "s \<noteq> []" "list_all is_digit s" "r = R_integer" using assms Pair by auto
    then have "is_digit (hd s)" by (cases s) auto
    then show ?thesis using Pair d trim_digits [of s]
      by (auto simp: strip_quotes_def value_text_def Let_def is_digit_def)
  qed
qed

lemma parse_uint_digits:
  assumes "s \<noteq> []" and "list_all is_digit s"
  shows "parse_uint bound (trim s) = (if digits_value s < bound then Ok (digits_value s)
     else Err ''number too large to fit in target type'')"
proof -
  from assms have "is_digit (hd s)" by (cases s) auto
  then have "hd s \<noteq> CHR ''+''" by (auto simp: is_digit_def)
  then show ?thesis using assms by (simp add: trim_digits parse_uint_def Let_def)
qed

lemma parse_uint_quoted:
  assumes "quoted_text s"
  shows "parse_uint bound (trim s) = Err ''invalid digit found in string''"
proof -
  from assms have "s \<noteq> []" "hd s \<noteq> CHR ''+''" "\<not> is_digit (hd s)" by (auto simp: quoted_text_def is_digit_def)
  then show ?thesis using assms by (cases s) (simp_all add: trim_quoted parse_uint_def)
qed

lemma word_number: "n < 2 ^ LENGTH('a) \<Longrightarrow> unat (word_of_nat n :: 'a :: len word) = n"
  by (simp add: take_bit_nat_eq_self unsigned_of_nat)

text \<open>What it is for a subtree to be built right.\<close>

definition built :: "pair \<Rightarrow> bool" where
  "built p \<longleftrightarrow> (if well_typed p then \<exists>e. build_expr p = Ok e \<and> (\<forall>ctx. eval ctx e \<longleftrightarrow> means ctx p)
     else \<exists>msg. build_expr p = Err msg)"

lemma chain_and: "\<forall>p\<in>set ps. built p \<Longrightarrow>
    (if \<forall>p\<in>set ps. well_typed p
     then \<exists>e. build_chain AndExpr l ps = Ok e \<and> (\<forall>ctx. eval ctx e \<longleftrightarrow> eval ctx l \<and> (\<forall>p\<in>set ps. means ctx p))
     else \<exists>msg. build_chain AndExpr l ps = Err msg)"
proof (induction ps arbitrary: l)
  case (Cons p ps)
  show ?case
  proof (cases "well_typed p")
    case True
    then obtain e where e: "build_expr p = Ok e" "\<forall>ctx. eval ctx e \<longleftrightarrow> means ctx p" using Cons.prems by (auto simp: built_def)
    then show ?thesis using Cons.IH [of "AndExpr l e"] Cons.prems True by (auto split: if_splits)
  qed (use Cons.prems in \<open>auto simp: built_def\<close>)
qed simp

lemma chain_or: "\<forall>p\<in>set ps. built p \<Longrightarrow>
    (if \<forall>p\<in>set ps. well_typed p
     then \<exists>e. build_chain OrExpr l ps = Ok e \<and> (\<forall>ctx. eval ctx e \<longleftrightarrow> eval ctx l \<or> (\<exists>p\<in>set ps. means ctx p))
     else \<exists>msg. build_chain OrExpr l ps = Err msg)"
proof (induction ps arbitrary: l)
  case (Cons p ps)
  show ?case
  proof (cases "well_typed p")
    case True
    then obtain e where e: "build_expr p = Ok e" "\<forall>ctx. eval ctx e \<longleftrightarrow> means ctx p" using Cons.prems by (auto simp: built_def)
    then show ?thesis using Cons.IH [of "OrExpr l e"] Cons.prems True by (auto split: if_splits)
  qed (use Cons.prems in \<open>auto simp: built_def\<close>)
qed simp

lemma built_and: "\<forall>p\<in>set ps. built p \<Longrightarrow> ps \<noteq> [] \<Longrightarrow> built (Pair R_and_expr s ps)"
proof (cases ps)
  case (Cons p qs)
  assume b: "\<forall>p\<in>set ps. built p"
  show ?thesis
  proof (cases "well_typed p")
    case True
    then obtain e where "build_expr p = Ok e" "\<forall>ctx. eval ctx e \<longleftrightarrow> means ctx p" using b Cons by (auto simp: built_def)
    then show ?thesis using chain_and [of qs e] b Cons True by (auto simp: built_def split: if_splits)
  qed (use b Cons in \<open>auto simp: built_def\<close>)
qed simp

lemma built_or: "\<forall>p\<in>set ps. built p \<Longrightarrow> ps \<noteq> [] \<Longrightarrow> built (Pair R_or_expr s ps)"
proof (cases ps)
  case (Cons p qs)
  assume b: "\<forall>p\<in>set ps. built p"
  show ?thesis
  proof (cases "well_typed p")
    case True
    then obtain e where "build_expr p = Ok e" "\<forall>ctx. eval ctx e \<longleftrightarrow> means ctx p" using b Cons by (auto simp: built_def)
    then show ?thesis using chain_or [of qs e] b Cons True by (auto simp: built_def split: if_splits)
  qed (use b Cons in \<open>auto simp: built_def\<close>)
qed simp

lemma built_not:
  "as_rule p = R_atom \<Longrightarrow> built p \<Longrightarrow> built (Pair R_not_expr s [p])"
  "as_rule k = R_not_kw \<Longrightarrow> into_inner k = [] \<Longrightarrow> as_rule p = R_atom \<Longrightarrow> built p \<Longrightarrow> built (Pair R_not_expr s [k, p])"
  by (cases k; auto simp: built_def split: if_splits)+

lemma built_atom: "built p \<Longrightarrow> built (Pair R_atom s [p])"
  by (auto simp: built_def split: if_splits)

lemma built_flag: "s \<in> {''has_prepend'', ''true'', ''false''} \<Longrightarrow> built (Pair R_flag s [])"
proof -
  have [simp]: "trim ''has_prepend'' = ''has_prepend''" "trim ''true'' = ''true''" "trim ''false'' = ''false''"
    by (rule trim_same, simp add: graphic_def)+
  show "s \<in> {''has_prepend'', ''true'', ''false''} \<Longrightarrow> ?thesis"
    by (elim insertE) (simp_all add: built_def build_flag_def)
qed

lemma collect_digits:
  "\<forall>p\<in>set ps. as_rule p = R_integer \<and> grammatical p \<Longrightarrow>
     collect_u32 ps = (if \<forall>p\<in>set ps. digits_value (as_str p) < 2 ^ 32
       then Ok (map (\<lambda>p. word_of_nat (digits_value (as_str p))) ps) else Err ''number too large to fit in target type'')"
proof (induction ps)
  case (Cons p ps)
  then have "as_str p \<noteq> []" "list_all is_digit (as_str p)" by (cases p; simp)+
  then show ?case using Cons by (auto simp: parse_uint_digits)
qed simp

lemma word_number_eq: "n < 2 ^ LENGTH('a) \<Longrightarrow> (x :: 'a :: len word) = word_of_nat n \<longleftrightarrow> unat x = n"
  using word_number [of n, where 'a = 'a] by (simp add: word_unat_eq_iff)

lemma listed_words:
  assumes "\<forall>p\<in>set ps. digits_value (as_str p) < 2 ^ 32"
  shows "(x :: u32) \<in> set (map (\<lambda>p. word_of_nat (digits_value (as_str p))) ps) \<longleftrightarrow>
    unat x \<in> (\<lambda>p. digits_value (as_str p)) ` set ps"
proof -
  have "\<forall>p\<in>set ps. x = word_of_nat (digits_value (as_str p)) \<longleftrightarrow> unat x = digits_value (as_str p)"
    using assms word_number_eq [where 'a = 32] by simp
  then show ?thesis unfolding set_map image_iff by blast
qed

lemma build_membership_shape:
  assumes "mid = [] \<or> (\<exists>k. mid = [k] \<and> as_rule k = R_not_kw)"
    and "as_rule f = R_field" "as_rule l = R_int_list" "grammatical f" "grammatical l"
  shows "build_membership (f # mid @ [l]) =
    (if \<exists>p\<in>set (into_inner l). \<not> digits_value (as_str p) < 2 ^ 32 then Err ''number too large to fit in target type''
     else let ns = (\<lambda>p. word_of_nat (digits_value (as_str p))) ` set (into_inner l) in
       if as_str f = ''origin_as'' then Ok (if mid = [] then OriginAsIn ns else OriginAsNotIn ns)
       else if as_str f = ''peer_as'' then Ok (if mid = [] then PeerAsIn ns else PeerAsNotIn ns)
       else Err (''IN membership not supported for field '' @ [CHR 0x27] @ as_str f @ [CHR 0x27]))"
proof -
  have n: "\<forall>p\<in>set (into_inner l). as_rule p = R_integer \<and> grammatical p" using assms by (cases l) simp
  have "trim (as_str f) = as_str f" using assms by (cases f) (simp add: trim_field)
  then show ?thesis using assms(1-3)
    by (elim disjE exE conjE) (simp_all add: build_membership_def first_or_def Let_def collect_digits [OF n])
qed

lemma built_membership:
  assumes "mid = [] \<or> (\<exists>k. mid = [k] \<and> as_rule k = R_not_kw)"
    and "as_rule f = R_field" "as_rule l = R_int_list" "grammatical f" "grammatical l"
  shows "built (Pair R_membership s (f # mid @ [l]))"
proof -
  have "(\<exists>p\<in>set (f # mid @ [l]). as_rule p = R_not_kw) \<longleftrightarrow> mid \<noteq> []" using assms by auto
  then show ?thesis
    using listed_words [of "into_inner l"]
    by (simp add: built_def build_membership_shape [OF assms] listed_def Let_def)
qed

lemma number_value:
  assumes "grammatical v" and "as_rule v = R_string \<or> as_rule v = R_integer"
  obtains msg where "parse_uint bound (trim (as_str v)) =
    (if as_rule v = R_integer \<and> digits_value (as_str v) < bound then Ok (digits_value (as_str v)) else Err msg)"
  using assms parse_uint_digits [of "as_str v" bound] parse_uint_quoted [of "as_str v" bound]
  by (cases v) fastforce

lemma word_relations:
  fixes x :: "'a :: len word"
  assumes "n < 2 ^ LENGTH('a)"
  shows "word_of_nat n < x \<longleftrightarrow> n < unat x" "x < word_of_nat n \<longleftrightarrow> unat x < n"
    "word_of_nat n \<le> x \<longleftrightarrow> n \<le> unat x" "x \<le> word_of_nat n \<longleftrightarrow> unat x \<le> n" "x = word_of_nat n \<longleftrightarrow> unat x = n"
  using word_number [OF assms] by (simp_all add: word_less_nat_alt word_le_nat_alt word_unat_eq_iff)

text \<open>A comparison is built right, field by field.\<close>

definition compared :: "string \<Rightarrow> string \<Rightarrow> pair \<Rightarrow> bool" where
  "compared f op v \<longleftrightarrow> (\<forall>s. if comparable f op v
     then \<exists>e. build_comparison f op (Pair R_value s [v]) = Ok e \<and> (\<forall>ctx. eval ctx e \<longleftrightarrow> compares ctx f op v)
     else \<exists>msg. build_comparison f op (Pair R_value s [v]) = Err msg)"

lemmas comparison_defs = compared_def comparable_def compares_def build_comparison_def first_or_def unsupported_def
  field_number_def relates_def op_names_def Let_def

lemma compared_numbers:
  assumes "grammatical v" and "as_rule v = R_string \<or> as_rule v = R_integer" and "op \<in> set op_names"
  shows "compared ''prefix_len'' op v" "compared ''as_path_len'' op v" "compared ''local_pref'' op v" "compared ''med'' op v"
proof -
  show "compared ''prefix_len'' op v"
  proof -
    obtain msg where "parse_uint (2 ^ 8) (trim (as_str v)) =
        (if as_rule v = R_integer \<and> digits_value (as_str v) < 2 ^ 8 then Ok (digits_value (as_str v)) else Err msg)"
      using number_value [OF assms(1,2)] by blast
    then show ?thesis using assms(3) word_relations [of "digits_value (as_str v)", where 'a = 8]
      by (simp add: comparison_defs) (elim disjE; simp)
  qed
  show "compared ''as_path_len'' op v"
  proof -
    obtain msg where "parse_uint (2 ^ 64) (trim (as_str v)) =
        (if as_rule v = R_integer \<and> digits_value (as_str v) < 2 ^ 64 then Ok (digits_value (as_str v)) else Err msg)"
      using number_value [OF assms(1,2)] by blast
    then show ?thesis using assms(3)
      by (simp add: comparison_defs) (elim disjE; simp)
  qed
  obtain msg where p: "parse_uint (2 ^ 32) (trim (as_str v)) =
      (if as_rule v = R_integer \<and> digits_value (as_str v) < 2 ^ 32 then Ok (digits_value (as_str v)) else Err msg)"
    using number_value [OF assms(1,2)] by blast
  have d: "unat (unwrap_or 100 lp) = (case lp of None \<Rightarrow> 100 | Some n \<Rightarrow> unat n)"
      "unat (unwrap_or 0 md) = (case md of None \<Rightarrow> 0 | Some n \<Rightarrow> unat n)" for lp md :: "u32 option"
    by (simp_all add: unwrap_or_def split: option.split)
  show "compared ''local_pref'' op v"
    using p assms(3) word_relations [of "digits_value (as_str v)", where 'a = 32]
    by (simp add: comparison_defs d) (elim disjE; simp add: d)
  show "compared ''med'' op v"
    using p assms(3) word_relations [of "digits_value (as_str v)", where 'a = 32]
    by (simp add: comparison_defs d) (elim disjE; simp add: d)
qed

lemma compared_strings:
  assumes "grammatical v" and "as_rule v = R_string \<or> as_rule v = R_integer"
  shows "compared ''rpki'' op v" "compared ''action'' op v" "compared ''community'' op v"
    "compared ''origin_as'' op v" "compared ''peer_as'' op v"
  by (simp_all add: comparison_defs strip_quotes_value [OF assms])

lemma built_comparison:
  assumes "as_rule f = R_field" "as_rule q = R_op" "as_rule v = R_value" "grammatical f" "grammatical q" "grammatical v"
  shows "built (Pair R_comparison s [f, q, v])"
proof -
  obtain t w where v: "v = Pair R_value t [w]" "grammatical w" "as_rule w = R_string \<or> as_rule w = R_integer"
    using assms by (cases v) (auto simp: map_eq_Cons_conv)
  have fq: "as_str f \<in> set field_names" "as_str q \<in> set op_names" using assms by (cases f; cases q; simp)+
  have "compared (as_str f) (as_str q) w"
    using fq(1) compared_numbers [OF v(2,3) fq(2)] compared_strings [OF v(2,3)] unfolding field_names_def
    by (simp only: list.set insert_iff empty_iff) (elim disjE; simp)
  then show ?thesis
    by (simp add: compared_def built_def v first_or_def trim_field [OF fq(1)] trim_op [OF fq(2)])
qed

lemma built_expr: "as_rule p = R_or_expr \<Longrightarrow> as_rule q = EOI \<Longrightarrow> into_inner q = [] \<Longrightarrow> built p \<Longrightarrow> built (Pair R_expr s [p, q])"
  by (cases q) (auto simp: built_def split: if_splits)

lemma grammatical_built:
  "grammatical p \<Longrightarrow> as_rule p \<in> {R_expr, R_or_expr, R_and_expr, R_not_expr, R_atom, R_comparison, R_membership, R_flag}
     \<Longrightarrow> built p"
proof (induction p)
  case (Pair r s ps)
  have leaf: "into_inner q = []" if "q \<in> set ps" "as_rule q = EOI \<or> as_rule q = R_not_kw" "\<forall>p\<in>set ps. grammatical p" for q
    using bspec [OF that(3,1)] that(2) by (cases q) auto
  from Pair.prems(2) consider "r = R_expr" | "r = R_or_expr" | "r = R_and_expr" | "r = R_not_expr" | "r = R_atom"
    | "r = R_comparison" | "r = R_membership" | "r = R_flag" by auto
  then show ?case
  proof cases
    case 1
    with Pair leaf show ?thesis by (auto simp: map_eq_Cons_conv intro!: built_expr)
  next
    case 2
    with Pair show ?thesis by (auto intro!: built_or)
  next
    case 3
    with Pair show ?thesis by (auto intro!: built_and)
  next
    case 4
    with Pair leaf show ?thesis by (auto simp: map_eq_Cons_conv intro!: built_not)
  next
    case 5
    with Pair show ?thesis by (auto simp: map_eq_Cons_conv intro!: built_atom)
  next
    case 6
    with Pair show ?thesis by (auto simp: map_eq_Cons_conv intro!: built_comparison)
  next
    case 7
    with Pair.prems obtain f mid l where "ps = f # mid @ [l]" "mid = [] \<or> (\<exists>k. mid = [k] \<and> as_rule k = R_not_kw)"
      "as_rule f = R_field" "as_rule l = R_int_list" "grammatical f" "grammatical l"
      by (auto simp: map_eq_Cons_conv)
    with 7 show ?thesis by (simp add: built_membership)
  next
    case 8
    with Pair.prems show ?thesis by (auto intro!: built_flag)
  qed
qed

section \<open>Properties\<close>

text \<open>C12: The filter language means what its grammar says. Whenever the grammar's parser returns a tree of the
  grammar for a text, reading the text succeeds exactly when the tree is well typed (every comparison has an operator
  its field supports, numeric fields are compared with integers, all numbers are in range, lists are used only on
  the two AS fields), the failure is an error and never a panic, and the expression that is returned holds on a
  route exactly when the tree's meaning does: a chain of OR is the disjunction and a chain of AND the conjunction of all its
  operands, whatever their number, and comparisons are those of the mathematical numbers, with an absent local
  preference read as 100 and an absent MED as 0.\<close>

theorem filter_language_meaning:
  assumes "pest (trim input) = Inr (p # ps)" and "as_rule p = R_expr" and "grammatical p"
  shows "if well_typed p then \<exists>e. parse_expr pest input = Ok e \<and> (\<forall>ctx. eval ctx e \<longleftrightarrow> means ctx p)
    else \<exists>msg. parse_expr pest input = Err msg"
  using grammatical_built [OF assms(3)] assms(1,2) by (simp add: parse_expr_def first_or_def built_def)

text \<open>The tree of \<open>rpki == 'invalid' AND prefix_len > 24 AND NOT peer_as IN [701, 1299]\<close>.\<close>

definition sample_filter :: string where
  "sample_filter = ''rpki == '' @ [CHR 0x27] @ ''invalid'' @ [CHR 0x27] @ '' AND prefix_len > 24 AND NOT peer_as IN [701, 1299]''"

definition sample_tree :: pair where
  "sample_tree = (let q = [CHR 0x27] @ ''invalid'' @ [CHR 0x27] in
     Pair R_expr sample_filter [Pair R_or_expr sample_filter [Pair R_and_expr sample_filter [
       Pair R_not_expr (''rpki == '' @ q) [Pair R_atom (''rpki == '' @ q) [Pair R_comparison (''rpki == '' @ q)
         [Pair R_field ''rpki'' [], Pair R_op ''=='' [], Pair R_value q [Pair R_string q []]]]],
       Pair R_not_expr ''prefix_len > 24'' [Pair R_atom ''prefix_len > 24'' [Pair R_comparison ''prefix_len > 24''
         [Pair R_field ''prefix_len'' [], Pair R_op ''>'' [], Pair R_value ''24'' [Pair R_integer ''24'' []]]]],
       Pair R_not_expr ''NOT peer_as IN [701, 1299]'' [Pair R_not_kw ''NOT'' [], Pair R_atom ''peer_as IN [701, 1299]''
         [Pair R_membership ''peer_as IN [701, 1299]'' [Pair R_field ''peer_as'' [],
           Pair R_int_list ''701, 1299'' [Pair R_integer ''701'' [], Pair R_integer ''1299'' []]]]]]], Pair EOI [] []])"

theorem filter_language_meaning_witness:
  "\<exists>e. parse_expr (\<lambda>_. Inr [sample_tree]) sample_filter = Ok e \<and>
    (\<forall>ctx. eval ctx e \<longleftrightarrow> rc_rpki ctx = ''invalid'' \<and> 24 < unat (rc_prefix_len ctx) \<and> unat (rc_peer_as ctx) \<notin> {701, 1299})"
proof -
  have "as_rule sample_tree = R_expr" "grammatical sample_tree" "well_typed sample_tree"
    by (simp_all add: sample_tree_def Let_def field_names_def op_names_def quoted_text_def is_digit_def comparable_def digits_value_def)
  moreover have "means ctx sample_tree \<longleftrightarrow>
      rc_rpki ctx = ''invalid'' \<and> 24 < unat (rc_prefix_len ctx) \<and> unat (rc_peer_as ctx) \<notin> {701, 1299}" for ctx
    by (simp add: sample_tree_def Let_def compares_def value_text_def field_number_def relates_def listed_def digits_value_def)
  ultimately show ?thesis
    using filter_language_meaning [of "\<lambda>_. Inr [sample_tree]" sample_filter sample_tree "[]"] by simp
qed

end
