(* ===== verification/Route_Filter.thy ===== *)
theory Route_Filter
  imports Filter_Expr Attributes
begin

text \<open>
  \<open>crates/rbmp-rib/src/filter.rs\<close>: the route filters. A filter is a list of criteria that must all hold; an engine is an
  ordered list of compiled filters. The network parser and the containment test of \<open>ipnet\<close>, the parser pest
  generates and \<open>serde_yaml\<close> are the fields of \<open>filter_externals\<close>. \<open>IpAddr::from_str\<close> belongs to the standard
  library and is written out below, after its recursive descent parser.
\<close>

section \<open>Parsing addresses\<close>

definition radix_digit :: "nat \<Rightarrow> char \<Rightarrow> nat option" where
  "radix_digit radix c = (let n = of_char c :: nat;
     d = (if 48 \<le> n \<and> n \<le> 57 then n - 48 else if 97 \<le> n \<and> n \<le> 102 then n - 87
          else if 65 \<le> n \<and> n \<le> 70 then n - 55 else radix)
     in if d < radix then Some d else None)"

definition read_number :: "nat \<Rightarrow> nat \<Rightarrow> bool \<Rightarrow> nat \<Rightarrow> string \<Rightarrow> (nat \<times> string) option" where
  "read_number radix max_digits allow_zero bound s =
     (let ds = takeWhile (\<lambda>c. radix_digit radix c \<noteq> None) s;
          v = foldl (\<lambda>n c. radix * n + unwrap_or 0 (radix_digit radix c)) 0 ds
      in if ds = [] \<or> max_digits < length ds \<or> (\<not> allow_zero \<and> hd ds = CHR ''0'' \<and> 1 < length ds) \<or> bound \<le> v
         then None else Some (v, drop (length ds) s))"

definition read_char :: "char \<Rightarrow> string \<Rightarrow> string option" where
  "read_char c s = (case s of [] \<Rightarrow> None | x # xs \<Rightarrow> if x = c then Some xs else None)"

definition read_octet :: "string \<Rightarrow> (nat \<times> string) option" where
  "read_octet = read_number 10 3 False 256"

definition read_ipv4 :: "string \<Rightarrow> (ipv4 \<times> string) option" where
  "read_ipv4 s =
     Option.bind (read_octet s) (\<lambda>(a, s). Option.bind (read_char CHR ''.'' s) (\<lambda>s.
     Option.bind (read_octet s) (\<lambda>(b, s). Option.bind (read_char CHR ''.'' s) (\<lambda>s.
     Option.bind (read_octet s) (\<lambda>(c, s). Option.bind (read_char CHR ''.'' s) (\<lambda>s.
     Option.bind (read_octet s) (\<lambda>(d, s).
     Some (word_of_nat (((a * 256 + b) * 256 + c) * 256 + d), s))))))))"

text \<open>Up to \<open>n\<close> groups of 16 bits; the groups read, whether the last two come from an IPv4 tail, and the rest.\<close>

fun read_groups :: "nat \<Rightarrow> bool \<Rightarrow> string \<Rightarrow> nat list \<times> bool \<times> string" where
  "read_groups 0 first s = ([], False, s)"
| "read_groups (Suc n) first s =
     (let after = (if first then Some s else read_char CHR '':'' s) in
      case (if 0 < n then Option.bind after read_ipv4 else None) of
        Some (v4, rest) \<Rightarrow> ([unat v4 div 65536, unat v4 mod 65536], True, rest)
      | None \<Rightarrow>
          (case Option.bind after (read_number 16 4 True 65536) of
             None \<Rightarrow> ([], False, s)
           | Some (g, rest) \<Rightarrow> let (gs, v4, r) = read_groups n False rest in (g # gs, v4, r)))"

definition ipv6_of_groups :: "nat list \<Rightarrow> ipv6" where
  "ipv6_of_groups gs = word_of_nat (foldl (\<lambda>a g. 65536 * a + g) 0 gs)"

definition read_ipv6 :: "string \<Rightarrow> (ipv6 \<times> string) option" where
  "read_ipv6 s =
     (let (head, v4, r) = read_groups 8 True s in
      if length head = 8 then Some (ipv6_of_groups head, r)
      else if v4 then None
      else Option.bind (read_char CHR '':'' r) (\<lambda>r. Option.bind (read_char CHR '':'' r) (\<lambda>r.
        let (tail, _, r') = read_groups (8 - (length head + 1)) True r
        in Some (ipv6_of_groups (head @ replicate (8 - length head - length tail) 0 @ tail), r'))))"

definition parse_ip_addr :: "string \<Rightarrow> ip_addr option" where
  "parse_ip_addr s =
     (case read_ipv4 s of
        Some (a, r) \<Rightarrow> if r = [] then Some (IpV4 a) else None
      | None \<Rightarrow> (case read_ipv6 s of Some (a, []) \<Rightarrow> Some (IpV6 a) | _ \<Rightarrow> None))"

section \<open>Filters\<close>

datatype filter_action = AcceptAction | DenyAction | TagAction
datatype filter_verdict = Accept | Deny | Default

record route_filter =
  rf_name :: string
  rf_action :: filter_action
  prefix_list :: "string list"
  peer_as_list :: "u32 list"
  community_list :: "string list"
  peer_addr_list :: "string list"
  as_path_contains :: "u32 list"
  local_pref_min :: "u32 option"
  local_pref_max :: "u32 option"
  med_max :: "u32 option"
  rf_expr :: "string option"

datatype ip_net = NetV4 ipv4net | NetV6 ipv6net

record filter_externals =
  parse_net :: "string \<Rightarrow> ip_net option"
  net_contains :: "ip_net \<Rightarrow> ip_addr \<Rightarrow> bool"
  pest :: pest_parser
  parse_yaml :: "string \<Rightarrow> string + route_filter list"

record compiled_filter =
  raw :: route_filter
  nets :: "ip_net list"
  peer_nets :: "ip_addr list"
  compiled_expr :: "expr option"

text \<open>\<open>filter_map\<close>: the answers that are there, in order.\<close>

definition filter_map :: "('a \<Rightarrow> 'b option) \<Rightarrow> 'a list \<Rightarrow> 'b list" where
  "filter_map f xs = concat (map (\<lambda>x. case f x of None \<Rightarrow> [] | Some y \<Rightarrow> [y]) xs)"

definition compile :: "filter_externals \<Rightarrow> route_filter \<Rightarrow> compiled_filter parsed" where
  "compile E f =
     and_then (case rf_expr f of
         None \<Rightarrow> Ok None
       | Some t \<Rightarrow> (case parse_expr (pest E) t of Ok e \<Rightarrow> Ok (Some e) | Err err \<Rightarrow> Ok None | Panic \<Rightarrow> Panic))
     (\<lambda>ex. Ok \<lparr>raw = f, nets = filter_map (parse_net E) (prefix_list f),
        peer_nets = filter_map parse_ip_addr (peer_addr_list f), compiled_expr = ex\<rparr>)"

fun inner_addr :: "prefix \<Rightarrow> ip_addr" where
  "inner_addr (PrefixV4 n) = IpV4 (v4_addr n)"
| "inner_addr (PrefixV6 n) = IpV6 (v6_addr n)"
| "inner_addr (Labeled p labels) = inner_addr p"
| "inner_addr (Vpn rd p labels) = inner_addr p"

definition path_asns :: "path_attributes \<Rightarrow> u32 list" where
  "path_asns attrs = (case pa_as_path attrs of None \<Rightarrow> [] | Some p \<Rightarrow> concat (map asns (segments p)))"

definition community_strings :: "path_attributes \<Rightarrow> string list" where
  "community_strings attrs = map (\<lambda>c. dec (unat (sc_asn c)) @ '':'' @ dec (unat (sc_value c))) (communities attrs)"

definition filter_matches ::
  "filter_externals \<Rightarrow> compiled_filter \<Rightarrow> prefix \<Rightarrow> u32 \<Rightarrow> ip_addr \<Rightarrow> path_attributes \<Rightarrow> route_ctx option \<Rightarrow> bool" where
  "filter_matches E cf p peer addr attrs ctx =
     (if nets cf \<noteq> [] \<and> \<not> list_ex (\<lambda>n. net_contains E n (inner_addr p)) (nets cf) then False
      else if peer_as_list (raw cf) \<noteq> [] \<and> peer \<notin> set (peer_as_list (raw cf)) then False
      else if peer_nets cf \<noteq> [] \<and> addr \<notin> set (peer_nets cf) then False
      else if community_list (raw cf) \<noteq> [] \<and>
        \<not> list_ex (\<lambda>want. want \<in> set (community_strings attrs)) (community_list (raw cf)) then False
      else if as_path_contains (raw cf) \<noteq> [] \<and>
        \<not> list_all (\<lambda>want. want \<in> set (path_asns attrs)) (as_path_contains (raw cf)) then False
      else if (case local_pref_min (raw cf) of None \<Rightarrow> False | Some lo \<Rightarrow> unwrap_or 0 (local_pref attrs) < lo) then False
      else if (case local_pref_max (raw cf) of None \<Rightarrow> False | Some hi \<Rightarrow> hi < unwrap_or 0 (local_pref attrs)) then False
      else if (case med_max (raw cf) of None \<Rightarrow> False | Some hi \<Rightarrow> hi < unwrap_or 0 (multi_exit_disc attrs)) then False
      else (case (compiled_expr cf, ctx) of
          (Some e, Some c) \<Rightarrow> eval c e
        | _ \<Rightarrow> True))"

section \<open>The route context\<close>

fun ctx_prefix_len :: "prefix \<Rightarrow> u8" where
  "ctx_prefix_len (PrefixV4 n) = v4_prefix_len n"
| "ctx_prefix_len (PrefixV6 n) = v6_prefix_len n"
| "ctx_prefix_len (Labeled p labels) = ctx_prefix_len p"
| "ctx_prefix_len (Vpn rd p labels) = ctx_prefix_len p"

definition build_route_ctx :: "prefix \<Rightarrow> u32 \<Rightarrow> string \<Rightarrow> path_attributes \<Rightarrow> string option \<Rightarrow> route_ctx" where
  "build_route_ctx p peer action attrs rpki =
     (let as = path_asns attrs in
      \<lparr>rc_prefix_len = ctx_prefix_len p, rc_as_path_len = length as,
       rc_origin_asn = (if as = [] then 0 else last as),
       rc_has_prepend = list_ex (\<lambda>(a, b). a = b) (zip as (tl as)),
       rc_rpki = unwrap_or ''unknown'' rpki, rc_action = action, rc_peer_as = peer,
       rc_local_pref = local_pref attrs, rc_med = multi_exit_disc attrs,
       rc_community_set = set (community_strings attrs)\<rparr>)"

section \<open>The engine\<close>

type_synonym filter_engine = "compiled_filter list"

definition filter_engine_new :: filter_engine where
  "filter_engine_new = []"

fun compile_all :: "filter_externals \<Rightarrow> route_filter list \<Rightarrow> filter_engine parsed" where
  "compile_all E [] = Ok []"
| "compile_all E (f # fs) = and_then (compile E f) (\<lambda>c. and_then (compile_all E fs) (\<lambda>cs. Ok (c # cs)))"

definition load_yaml :: "filter_externals \<Rightarrow> string \<Rightarrow> filter_engine parsed" where
  "load_yaml E yaml = (case parse_yaml E yaml of Inl e \<Rightarrow> Err e | Inr fs \<Rightarrow> compile_all E fs)"

text \<open>The file system is the function that answers \<open>read_to_string\<close>.\<close>

definition load_file :: "filter_externals \<Rightarrow> (string \<Rightarrow> string + string) \<Rightarrow> string \<Rightarrow> filter_engine parsed" where
  "load_file E fs path = (case fs path of Inl e \<Rightarrow> Err e | Inr content \<Rightarrow> load_yaml E content)"

definition action_verdict :: "filter_action \<Rightarrow> filter_verdict" where
  "action_verdict a = (case a of AcceptAction \<Rightarrow> Accept | TagAction \<Rightarrow> Accept | DenyAction \<Rightarrow> Deny)"

fun apply_with_ctx ::
  "filter_externals \<Rightarrow> filter_engine \<Rightarrow> prefix \<Rightarrow> u32 \<Rightarrow> ip_addr \<Rightarrow> path_attributes \<Rightarrow> route_ctx option
    \<Rightarrow> filter_verdict \<times> string option" where
  "apply_with_ctx E [] p peer addr attrs ctx = (Default, None)"
| "apply_with_ctx E (cf # cfs) p peer addr attrs ctx =
     (if filter_matches E cf p peer addr attrs ctx
      then (action_verdict (rf_action (raw cf)), Some (rf_name (raw cf)))
      else apply_with_ctx E cfs p peer addr attrs ctx)"

text \<open>The loop of \<open>apply\<close> is the one of \<open>apply_with_ctx\<close>; the context is built only when some filter has an
  expression.\<close>

definition filter_apply ::
  "filter_externals \<Rightarrow> filter_engine \<Rightarrow> prefix \<Rightarrow> u32 \<Rightarrow> ip_addr \<Rightarrow> path_attributes \<Rightarrow> filter_verdict \<times> string option" where
  "filter_apply E cfs p peer addr attrs =
     (let needs_ctx = list_ex (\<lambda>f. compiled_expr f \<noteq> None) cfs;
          ctx = (if needs_ctx then Some (build_route_ctx p peer ''announce'' attrs None) else None)
      in apply_with_ctx E cfs p peer addr attrs ctx)"

section \<open>Lemmas\<close>

lemma matches_ctx_irrelevant:
  "compiled_expr cf = None \<Longrightarrow> filter_matches E cf p peer addr attrs ctx = filter_matches E cf p peer addr attrs ctx'"
  by (simp add: filter_matches_def)

lemma apply_ctx_irrelevant:
  "\<not> list_ex (\<lambda>f. compiled_expr f \<noteq> None) cfs \<Longrightarrow>
     apply_with_ctx E cfs p peer addr attrs ctx = apply_with_ctx E cfs p peer addr attrs ctx'"
  by (induction cfs) (auto simp: matches_ctx_irrelevant [of _ E p peer addr attrs ctx ctx'])

text \<open>The verdict is that of the first filter that matches.\<close>

lemma apply_first_match:
  "apply_with_ctx E cfs p peer addr attrs ctx =
     (case find (\<lambda>cf. filter_matches E cf p peer addr attrs ctx) cfs of
        None \<Rightarrow> (Default, None)
      | Some cf \<Rightarrow> (action_verdict (rf_action (raw cf)), Some (rf_name (raw cf))))"
  by (induction cfs) auto

lemma filter_map_None: "(\<And>x. x \<in> set xs \<Longrightarrow> f x = None) \<Longrightarrow> filter_map f xs = []"
  by (induction xs) (simp_all add: filter_map_def)

section \<open>Properties\<close>

text \<open>Building the route context only when a filter has an expression does not change any verdict, and the verdict
  is the one of the first filter all of whose criteria match the route, in the order of the configuration; a
  route that no filter matches gets the default.\<close>

theorem filter_first_match:
  "filter_apply E cfs p peer addr attrs =
     (case find (\<lambda>cf. filter_matches E cf p peer addr attrs (Some (build_route_ctx p peer ''announce'' attrs None))) cfs of
        None \<Rightarrow> (Default, None)
      | Some cf \<Rightarrow> (action_verdict (rf_action (raw cf)), Some (rf_name (raw cf))))"
  using apply_ctx_irrelevant [of cfs E p peer addr attrs None "Some (build_route_ctx p peer ''announce'' attrs None)"]
  by (simp add: filter_apply_def apply_first_match Let_def)

text \<open>C40: A filter whose only criteria are networks, peer addresses or an expression that do not parse matches every
  route: the bad entries are dropped, and a criterion with no entry left is no criterion. A deny filter of this
  kind at the head of the configuration denies everything.\<close>

theorem unparsable_filter_matches_all:
  assumes "compile E f = Ok cf"
    and "peer_as_list f = []" "community_list f = []" "as_path_contains f = []"
    and "local_pref_min f = None" "local_pref_max f = None" "med_max f = None"
    and "\<forall>s \<in> set (prefix_list f). parse_net E s = None"
    and "\<forall>s \<in> set (peer_addr_list f). parse_ip_addr s = None"
    and "\<forall>t. rf_expr f = Some t \<longrightarrow> (\<exists>err. parse_expr (pest E) t = Err err)"
    and "rf_action f = DenyAction"
  shows "fst (filter_apply E (cf # cfs) p peer addr attrs) = Deny"
proof -
  from assms(1,8,9,10) have cf: "raw cf = f" "nets cf = []" "peer_nets cf = []" "compiled_expr cf = None"
    by (auto simp: compile_def and_then_Ok_iff filter_map_None split: option.splits outcome.splits)
  then have "filter_matches E cf p peer addr attrs ctx" for ctx
    using assms(2-7) by (simp add: filter_matches_def)
  then show ?thesis
    using assms(11) cf(1) by (simp add: filter_apply_def Let_def action_verdict_def)
qed

definition sample_filter_externals :: filter_externals where
  "sample_filter_externals = \<lparr>parse_net = (\<lambda>_. None), net_contains = (\<lambda>_ _. False), pest = (\<lambda>_. Inl ''syntax''),
     parse_yaml = (\<lambda>_. Inl ''syntax'')\<rparr>"

definition typo_filter :: route_filter where
  "typo_filter = \<lparr>rf_name = ''block-bogons'', rf_action = DenyAction, prefix_list = [''10.0.0.0/33''], peer_as_list = [],
     community_list = [], peer_addr_list = [''r1''], as_path_contains = [], local_pref_min = None,
     local_pref_max = None, med_max = None, rf_expr = Some ''rpki = ''\<rparr>"

theorem unparsable_filter_matches_all_witness:
  "\<exists>cf. compile sample_filter_externals typo_filter = Ok cf \<and>
     fst (filter_apply sample_filter_externals [cf] (PrefixV4 (Ipv4Net 0xC0000200 24)) 65001 (IpV4 1) default_attributes) = Deny"
proof -
  obtain cf where cf: "compile sample_filter_externals typo_filter = Ok cf"
    by (simp add: compile_def sample_filter_externals_def typo_filter_def parse_expr_def)
  have no_number: "read_number 10 3 False 256 ''r1'' = None" "read_number 16 4 True 65536 ''r1'' = None"
    by (simp_all add: read_number_def radix_digit_def Let_def)
  then have "read_groups 8 True ''r1'' = ([], False, ''r1'')"
    using read_groups.simps(2) [of 7 True "''r1''"] by (simp add: read_ipv4_def read_octet_def)
  with no_number have "parse_ip_addr ''r1'' = None"
    by (simp add: parse_ip_addr_def read_ipv4_def read_octet_def read_ipv6_def read_char_def)
  with cf show ?thesis
    using unparsable_filter_matches_all [OF cf, of "[]" "PrefixV4 (Ipv4Net 0xC0000200 24)" 65001 "IpV4 1" default_attributes]
    by (auto simp: typo_filter_def sample_filter_externals_def parse_expr_def)
qed

end
