(* ===== verification/Rib_Manager.thy ===== *)
theory Rib_Manager
  imports Session Route_Filter
begin

unbundle bit_operations_syntax

text \<open>
  \<open>crates/rbmp-rib/src/manager.rs\<close> and \<open>event.rs\<close>: the RIB manager, driven by BMP messages. Its state is the record
  \<open>rib_manager\<close>; what was sent on the broadcast channel is the list \<open>event_tx\<close>. A handler is a function from
  state to emitted events and new state, one per message type; logging and metrics have no effect on the state
  and are left out. The counters for epochs and event numbers wrap, as in the release profile. The verdict of the
  optional Roto engine on a route is a function: in the default build, without the feature \<open>roto-jit\<close>, it is
  \<open>roto_noop\<close>.
\<close>

section \<open>Events\<close>

datatype route_action = Announce | Withdraw

record route_change =
  rch_action :: route_action
  rch_peer_header :: peer_header
  rch_peer_key :: peer_key
  rch_view_key :: view_key
  rch_route_key :: route_key
  rch_rib_type :: rib_type
  rch_prefix :: prefix
  rch_path_id :: "u32 option"
  rch_attributes :: "path_attributes option"

datatype rib_event_payload =
    SpeakerUpEvent "string option" "string option"
  | SpeakerDownEvent string
  | PeerUpEvent (evu_header: peer_header) (evu_local_asn: u32) (evu_remote_asn: u32) (evu_hold_time: u16)
      (evu_capabilities: "string list")
  | PeerDownEvent peer_header string
  | RouteChangeEvent route_change
  | StatsEvent peer_header "stat_entry list"
  | EndOfRibEvent peer_header string

record rib_event =
  ev_schema_version :: u16
  ev_key :: event_key
  ev_id :: "128 word"
  ev_occurred_at :: timestamp
  ev_speaker :: ip_addr
  ev_payload :: rib_event_payload

text \<open>One round of mixing, applied to the event number and to the position in the message.\<close>

definition mix64 :: "u64 \<Rightarrow> u64 \<Rightarrow> u64" where
  "mix64 seed x =
     (let z0 = x + seed;
          z1 = (z0 XOR drop_bit 30 z0) * 0xbf58476d1ce4e5b9;
          z2 = (z1 XOR drop_bit 27 z1) * 0x94d049bb133111eb
      in z2 XOR drop_bit 31 z2)"

definition deterministic_event_uuid :: "128 word \<Rightarrow> u64 \<Rightarrow> u64 \<Rightarrow> 128 word" where
  "deterministic_event_uuid mid seq local_idx =
     (let z1 = mix64 0x9e3779b97f4a7c15 seq; z2 = mix64 0x517cc1b727220a95 local_idx;
          b = map2 (XOR) (to_be_bytes 16 mid) (to_be_bytes 8 z1 @ to_be_bytes 8 z2)
      in from_be_bytes (b[6 := ((b ! 6) AND 0x0f) OR 0x40, 8 := ((b ! 8) AND 0x3f) OR 0x80]))"

section \<open>State\<close>

type_synonym roto_engine = "prefix \<Rightarrow> u32 \<Rightarrow> ip_addr \<Rightarrow> rib_type \<Rightarrow> path_attributes \<Rightarrow> filter_verdict"

definition roto_noop :: roto_engine where
  "roto_noop p peer addr r attrs = Default"

record rib_manager =
  speakers :: "(ip_addr, bmp_session) hmap"
  ribs :: "(peer_key, rib_table) hmap"
  next_session_epoch :: u64
  next_event_seq :: u64
  event_tx :: "rib_event list"
  rm_filter :: "filter_engine option"
  roto_filter :: "roto_engine option"

definition rib_manager_new :: rib_manager where
  "rib_manager_new = \<lparr>speakers = hm_empty, ribs = hm_empty, next_session_epoch = 1, next_event_seq = 1,
     event_tx = [], rm_filter = None, roto_filter = None\<rparr>"

definition set_filter :: "filter_engine \<Rightarrow> rib_manager \<Rightarrow> rib_manager" where
  "set_filter engine m = m\<lparr>rm_filter := Some engine\<rparr>"

definition clear_filter :: "rib_manager \<Rightarrow> rib_manager" where
  "clear_filter m = m\<lparr>rm_filter := None\<rparr>"

definition set_roto_filter :: "roto_engine \<Rightarrow> rib_manager \<Rightarrow> rib_manager" where
  "set_roto_filter engine m = m\<lparr>roto_filter := Some engine\<rparr>"

definition clear_eor :: "peer_session \<Rightarrow> peer_session" where
  "clear_eor p = p\<lparr>eor_families := hm_empty\<rparr>"

definition open_speaker_session :: "ip_addr \<Rightarrow> timestamp \<Rightarrow> rib_manager \<Rightarrow> u64 \<times> rib_manager" where
  "open_speaker_session speaker now m =
     (let epoch = next_session_epoch m; src = observation_source_new speaker epoch
      in (epoch, m\<lparr>next_session_epoch := epoch + 1,
           speakers := (case hm_get (speakers m) speaker of
               Some s \<Rightarrow> hm_modify speaker (\<lambda>s. s\<lparr>bs_source := src, connected_at := now,
                 peers := hm_map_values clear_eor (peers s)\<rparr>) (speakers m)
             | None \<Rightarrow> hm_insert speaker (with_source src now) (speakers m))\<rparr>))"

definition ensure_min_event_seq :: "u64 \<Rightarrow> rib_manager \<Rightarrow> rib_manager" where
  "ensure_min_event_seq n m = (if next_event_seq m < n then m\<lparr>next_event_seq := n\<rparr> else m)"

definition clear_speaker_eor :: "ip_addr \<Rightarrow> rib_manager \<Rightarrow> rib_manager" where
  "clear_speaker_eor speaker m = m\<lparr>speakers := hm_modify speaker
     (\<lambda>s. s\<lparr>peers := hm_map_values clear_eor (peers s)\<rparr>) (speakers m)\<rparr>"

definition update_peer :: "peer_key \<Rightarrow> (peer_session \<Rightarrow> peer_session) \<Rightarrow> rib_manager \<Rightarrow> rib_manager" where
  "update_peer k f m = m\<lparr>speakers := hm_modify (pk_speaker k) (\<lambda>s. s\<lparr>peers := hm_modify k f (peers s)\<rparr>) (speakers m)\<rparr>"

definition sync_peer_route_counts :: "peer_key \<Rightarrow> rib_manager \<Rightarrow> rib_manager" where
  "sync_peer_route_counts k m =
     (let counts = (case hm_get (ribs m) k of Some T \<Rightarrow> rib_counts T | None \<Rightarrow> hm_empty)
      in update_peer k (\<lambda>p. p\<lparr>route_counts := counts\<rparr>) m)"

definition expire_stale_for_peer_key :: "externals \<Rightarrow> peer_key \<Rightarrow> u32 \<Rightarrow> rib_manager \<Rightarrow> nat \<times> rib_manager" where
  "expire_stale_for_peer_key X k secs m =
     (case hm_get (ribs m) k of
        Some T \<Rightarrow> let (n, T') = drain_deleted_stale X (utc_now X) secs T
                  in (n, sync_peer_route_counts k (m\<lparr>ribs := hm_modify k (\<lambda>_. T') (ribs m)\<rparr>))
      | None \<Rightarrow> (0, sync_peer_route_counts k m))"

fun expire_keys :: "externals \<Rightarrow> peer_key list \<Rightarrow> u32 \<Rightarrow> rib_manager \<Rightarrow> nat \<times> rib_manager" where
  "expire_keys X [] secs m = (0, m)"
| "expire_keys X (k # ks) secs m =
     (let (n, m1) = expire_stale_for_peer_key X k secs m; (n', m2) = expire_keys X ks secs m1 in (n + n', m2))"

definition expire_stale_for_peer :: "externals \<Rightarrow> ip_addr \<Rightarrow> u32 \<Rightarrow> rib_manager \<Rightarrow> nat \<times> rib_manager" where
  "expire_stale_for_peer X addr secs m =
     expire_keys X (filter (\<lambda>k. pk_address k = addr) (hm_keys (ribs m))) secs m"

definition ensure_speaker_source :: "ip_addr \<Rightarrow> timestamp \<Rightarrow> rib_manager \<Rightarrow> observation_source \<times> rib_manager" where
  "ensure_speaker_source speaker now m =
     (case hm_get (speakers m) speaker of
        Some s \<Rightarrow> (bs_source s, m)
      | None \<Rightarrow> let epoch = next_session_epoch m; src = observation_source_new speaker epoch
          in (src, m\<lparr>next_session_epoch := epoch + 1, speakers := hm_insert speaker (with_source src now) (speakers m)\<rparr>))"

section \<open>Emitting events\<close>

text \<open>A handler threads the events emitted so far and the manager.\<close>

type_synonym emission = "rib_event list \<times> rib_manager"

definition emit_with_source ::
  "128 word \<Rightarrow> ip_addr \<Rightarrow> observation_source \<Rightarrow> timestamp \<Rightarrow> rib_event_payload \<Rightarrow> emission \<Rightarrow> emission" where
  "emit_with_source i speaker src now pl = (\<lambda>(emitted, m).
     let seq = next_event_seq m;
         ev = \<lparr>ev_schema_version = EVENT_SCHEMA_VERSION, ev_key = event_key_new src seq,
               ev_id = deterministic_event_uuid i seq (word_of_nat (length emitted)), ev_occurred_at = now,
               ev_speaker = speaker, ev_payload = pl\<rparr>
     in (emitted @ [ev], m\<lparr>next_event_seq := seq + 1, event_tx := event_tx m @ [ev]\<rparr>))"

section \<open>Handlers\<close>

text \<open>The part of \<open>process_for_epoch\<close> that identifies the session a message belongs to.\<close>

definition session_source :: "ip_addr \<Rightarrow> timestamp \<Rightarrow> u64 option \<Rightarrow> rib_manager \<Rightarrow> observation_source \<times> rib_manager" where
  "session_source speaker now session_epoch0 m =
     (case session_epoch0 of
        None \<Rightarrow> ensure_speaker_source speaker now m
      | Some epoch \<Rightarrow>
          let ss = hm_or_insert speaker (with_source (observation_source_new speaker epoch) now) (speakers m);
              ss' = hm_modify speaker (\<lambda>s. if session_epoch (bs_source s) < epoch
                then s\<lparr>bs_source := (bs_source s)\<lparr>session_epoch := epoch\<rparr>, connected_at := now,
                  peers := hm_map_values clear_eor (peers s)\<rparr>
                else s) ss
          in (case hm_get ss' speaker of Some s \<Rightarrow> bs_source s | None \<Rightarrow> observation_source_new speaker epoch,
              m\<lparr>next_session_epoch := (if next_session_epoch m \<le> epoch then epoch + 1 else next_session_epoch m),
                speakers := ss'\<rparr>))"

definition stale_termination :: "bmp_message \<Rightarrow> u64 option \<Rightarrow> rib_manager \<Rightarrow> bool" where
  "stale_termination msg session_epoch0 m =
     (case (payload msg, session_epoch0, hm_get (speakers m) (speaker_addr msg)) of
        (Termination _ _, Some epoch, Some s) \<Rightarrow> epoch < session_epoch (bs_source s)
      | _ \<Rightarrow> False)"

definition on_initiation :: "ip_addr \<Rightarrow> string option \<Rightarrow> string option \<Rightarrow> rib_manager \<Rightarrow> rib_manager" where
  "on_initiation speaker name descr m =
     m\<lparr>speakers := hm_modify speaker (\<lambda>s. s\<lparr>bs_sys_name := name, bs_sys_descr := descr\<rparr>) (speakers m)\<rparr>"

definition on_termination :: "ip_addr \<Rightarrow> rib_manager \<Rightarrow> rib_manager" where
  "on_termination speaker m =
     (let m1 = (case hm_get (speakers m) speaker of
            None \<Rightarrow> m
          | Some s \<Rightarrow> m\<lparr>speakers := hm_remove speaker (speakers m), ribs := fold hm_remove (hm_keys (peers s)) (ribs m)\<rparr>)
      in m1\<lparr>ribs := hm_retain (\<lambda>k _. pk_speaker k \<noteq> speaker) (ribs m1)\<rparr>)"

definition merge_capabilities :: "bgp_capability list \<Rightarrow> bgp_capability list \<Rightarrow> bgp_capability list" where
  "merge_capabilities recv sent = foldl (\<lambda>caps c. if c \<in> set caps then caps else caps @ [c]) recv sent"

text \<open>\<open>peers.entry(key).or_insert_with(\<dots>)\<close> on the session of the speaker.\<close>

definition ensure_peer :: "ip_addr \<Rightarrow> peer_header \<Rightarrow> rib_manager \<Rightarrow> rib_manager" where
  "ensure_peer speaker hdr m = m\<lparr>speakers := hm_modify speaker
     (\<lambda>s. s\<lparr>peers := hm_or_insert (peer_key_from_header speaker hdr) (new_for_speaker speaker hdr) (peers s)\<rparr>)
     (speakers m)\<rparr>"

definition on_peer_up :: "ip_addr \<Rightarrow> timestamp \<Rightarrow> peer_up_message \<Rightarrow> rib_manager \<Rightarrow> rib_manager" where
  "on_peer_up speaker now pu m =
     (let k = peer_key_from_header speaker (pu_header pu);
          caps = merge_capabilities (capabilities (recv_open pu)) (capabilities (sent_open pu))
      in sync_peer_route_counts k
           (update_peer k (on_up_with_header (pu_header pu) (open_asn (sent_open pu)) (hold_time (recv_open pu)) caps now)
             (ensure_peer speaker (pu_header pu) m)))"

definition on_peer_down :: "ip_addr \<Rightarrow> timestamp \<Rightarrow> peer_header \<Rightarrow> rib_manager \<Rightarrow> rib_manager" where
  "on_peer_down speaker now hdr m =
     (let k = peer_key_from_header speaker hdr;
          llgr = (case Option.bind (hm_get (speakers m) speaker) (\<lambda>s. hm_get (peers s) k) of
              Some p \<Rightarrow> llgr_active p | None \<Rightarrow> False);
          m1 = update_peer k (on_down now) m;
          m2 = m1\<lparr>ribs := hm_modify k (if llgr then mark_stale_all now else clear_all) (ribs m1)\<rparr>
      in sync_peer_route_counts k m2)"

fun debug_notification :: "bytes option \<Rightarrow> string" where
  "debug_notification None = ''None''"
| "debug_notification (Some bs) = ''Some(['' @ join_with '', '' (map (\<lambda>b. dec (unat b)) bs) @ ''])''"

fun debug_reason :: "peer_down_reason \<Rightarrow> string" where
  "debug_reason (LocalSystemClosed n) = ''LocalSystemClosed { notification: '' @ debug_notification n @ '' }''"
| "debug_reason LocalSystemClosed2 = ''LocalSystemClosed2''"
| "debug_reason (RemoteSystemClosed n) = ''RemoteSystemClosed { notification: '' @ debug_notification n @ '' }''"
| "debug_reason RemoteSystemClosed2 = ''RemoteSystemClosed2''"
| "debug_reason PeerDeConfigured = ''PeerDeConfigured''"
| "debug_reason VrfDown = ''VrfDown''"
| "debug_reason (UnknownDown c) = ''Unknown('' @ dec (unat c) @ '')''"

section \<open>Route monitoring\<close>

definition route_change_of ::
  "route_action \<Rightarrow> ip_addr \<Rightarrow> peer_header \<Rightarrow> prefix \<Rightarrow> u32 option \<Rightarrow> path_attributes option \<Rightarrow> route_change" where
  "route_change_of act speaker hdr p i attrs =
     (let k = peer_key_from_header speaker hdr; r = hdr_rib_type hdr;
          view = view_key_from_peer k (prefix_afi_safi p) r (peer_flags hdr)
      in \<lparr>rch_action = act, rch_peer_header = hdr, rch_peer_key = k, rch_view_key = view,
          rch_route_key = \<lparr>rk_view = view, rk_nlri = canonical_nlri_from_prefix p, rk_path_id = i\<rparr>,
          rch_rib_type = r, rch_prefix = p, rch_path_id = i, rch_attributes = attrs\<rparr>)"

definition update_rib :: "peer_key \<Rightarrow> (rib_table \<Rightarrow> rib_table) \<Rightarrow> rib_manager \<Rightarrow> rib_manager" where
  "update_rib k f m = m\<lparr>ribs := hm_modify k f (hm_or_insert k rib_table_new (ribs m))\<rparr>"

definition withdraw_route ::
  "128 word \<Rightarrow> ip_addr \<Rightarrow> observation_source \<Rightarrow> timestamp \<Rightarrow> peer_header \<Rightarrow> prefix \<times> u32 option \<Rightarrow> emission \<Rightarrow> emission" where
  "withdraw_route i speaker src now hdr = (\<lambda>(p, pid) (emitted, m).
     emit_with_source i speaker src now (RouteChangeEvent (route_change_of Withdraw speaker hdr p pid None))
       (emitted, update_rib (peer_key_from_header speaker hdr)
          (\<lambda>T. snd (remove_with_path_id (hdr_rib_type hdr) p pid T)) m))"

definition filter_verdict_of :: "filter_externals \<Rightarrow> peer_header \<Rightarrow> path_attributes \<Rightarrow> prefix \<Rightarrow> rib_manager \<Rightarrow> filter_verdict" where
  "filter_verdict_of E hdr attrs p m =
     (case roto_filter m of
        Some roto \<Rightarrow> roto p (peer_as hdr) (peer_address hdr) (hdr_rib_type hdr) attrs
      | None \<Rightarrow> (case rm_filter m of
            Some engine \<Rightarrow> fst (filter_apply E engine p (peer_as hdr) (peer_address hdr) attrs)
          | None \<Rightarrow> Default))"

definition new_entry :: "timestamp \<Rightarrow> peer_header \<Rightarrow> path_attributes \<Rightarrow> prefix \<Rightarrow> u32 option \<Rightarrow> rib_entry" where
  "new_entry now hdr attrs p pid = \<lparr>re_prefix = p, re_path_id = pid, re_attributes = attrs, re_received_at = now,
     re_peer_addr = peer_address hdr, re_peer_as = peer_as hdr, re_is_best = True, re_llgr_state = Normal,
     re_stale_at = None\<rparr>"

definition announce_route ::
  "filter_externals \<Rightarrow> 128 word \<Rightarrow> ip_addr \<Rightarrow> observation_source \<Rightarrow> timestamp \<Rightarrow> peer_header \<Rightarrow> path_attributes
    \<Rightarrow> prefix \<times> u32 option \<Rightarrow> emission \<Rightarrow> emission" where
  "announce_route E i speaker src now hdr attrs = (\<lambda>(p, pid) (emitted, m).
     if filter_verdict_of E hdr attrs p m = Deny then (emitted, m)
     else
       let r = hdr_rib_type hdr;
           m1 = update_rib (peer_key_from_header speaker hdr) (\<lambda>T.
             let T1 = snd (rib_insert r (new_entry now hdr attrs p pid) T)
             in if pid \<noteq> None then recompute_best_path r p T1 else T1) m
       in emit_with_source i speaker src now (RouteChangeEvent (route_change_of Announce speaker hdr p pid (Some attrs)))
            (emitted, m1))"

definition on_route_monitoring ::
  "filter_externals \<Rightarrow> 128 word \<Rightarrow> ip_addr \<Rightarrow> observation_source \<Rightarrow> timestamp \<Rightarrow> peer_header \<Rightarrow> bgp_update
    \<Rightarrow> rib_manager \<Rightarrow> emission" where
  "on_route_monitoring E i speaker src now hdr u m =
     (let k = peer_key_from_header speaker hdr; m1 = ensure_peer speaker hdr m in
      case eor_afi_safi u of
        Some f \<Rightarrow> emit_with_source i speaker src now (EndOfRibEvent hdr (afi_safi_string f))
                    ([], update_peer k (mark_eor (hdr_rib_type hdr) f) m1)
      | None \<Rightarrow>
          let e1 = fold (withdraw_route i speaker src now hdr) (all_withdrawn_with_path_id u) ([], m1);
              (emitted, m2) = fold (announce_route E i speaker src now hdr (attributes u)) (all_announced_with_path_id u) e1
          in (emitted, sync_peer_route_counts k m2))"

definition process_for_epoch ::
  "filter_externals \<Rightarrow> bmp_message \<Rightarrow> u64 option \<Rightarrow> rib_manager \<Rightarrow> emission" where
  "process_for_epoch E msg epoch m =
     (if stale_termination msg epoch m then ([], m) else
      let i = msg_id msg; speaker = speaker_addr msg; now = received_at msg;
          (src, m1) = session_source speaker now epoch m;
          emit = emit_with_source i speaker src now
      in case payload msg of
           Initiation name descr ls \<Rightarrow> emit (SpeakerUpEvent name descr) ([], on_initiation speaker name descr m1)
         | Termination code text \<Rightarrow>
             emit (SpeakerDownEvent (case text of Some t \<Rightarrow> t | None \<Rightarrow> ''code='' @ dec (unat code)))
               ([], on_termination speaker m1)
         | PeerUp pu \<Rightarrow>
             emit (PeerUpEvent (pu_header pu) (open_asn (sent_open pu)) (open_asn (recv_open pu)) (hold_time (recv_open pu))
                 (map (\<lambda>c. dec (unat (capability_code c)))
                   (merge_capabilities (capabilities (recv_open pu)) (capabilities (sent_open pu)))))
               ([], on_peer_up speaker now pu m1)
         | PeerDown hdr why \<Rightarrow> emit (PeerDownEvent hdr (debug_reason why)) ([], on_peer_down speaker now hdr m1)
         | RouteMonitoring hdr u \<Rightarrow> on_route_monitoring E i speaker src now hdr u m1
         | StatsReport hdr stats \<Rightarrow> emit (StatsEvent hdr stats) ([], m1)
         | RouteMirroring hdr pdu \<Rightarrow> ([], m1))"

definition process :: "filter_externals \<Rightarrow> bmp_message \<Rightarrow> rib_manager \<Rightarrow> emission" where
  "process E msg m = process_for_epoch E msg None m"

section \<open>Queries\<close>

definition speaker_list :: "rib_manager \<Rightarrow> bmp_session list" where
  "speaker_list m = hm_values (speakers m)"

definition speaker_of :: "ip_addr \<Rightarrow> rib_manager \<Rightarrow> bmp_session option" where
  "speaker_of a m = hm_get (speakers m) a"

definition rib_for_peer_key :: "peer_key \<Rightarrow> rib_manager \<Rightarrow> rib_table option" where
  "rib_for_peer_key k m = hm_get (ribs m) k"

definition ribs_for_speaker :: "ip_addr \<Rightarrow> rib_manager \<Rightarrow> (peer_key \<times> rib_table) list" where
  "ribs_for_speaker a m = filter (\<lambda>(k, T). pk_speaker k = a) (ribs m)"

definition rib_for_peer :: "ip_addr \<Rightarrow> rib_manager \<Rightarrow> rib_table option" where
  "rib_for_peer a m = map_option snd (find (\<lambda>(k, T). pk_address k = a) (ribs m))"

definition total_routes :: "rib_manager \<Rightarrow> nat" where
  "total_routes m = length (concat (map all_prefixes (hm_values (ribs m))))"

definition total_peers_up :: "rib_manager \<Rightarrow> nat" where
  "total_peers_up m = sum_list (map up_peer_count (hm_values (speakers m)))"

end
