(* ===== verification/Bmp_Parser.thy ===== *)
theory Bmp_Parser
  imports Bmp_Types
begin

unbundle bit_operations_syntax

text \<open>
  \<open>crates/rbmp-core/src/bmp/parser.rs\<close>: framing and parsing of BMP messages (RFC 7854). The asynchronous
  reader of \<open>read_bmp_frame\<close> is a stream value: the bytes it will deliver in time, and what happens behind
  them (closed, broken, or silent until a deadline passes).
\<close>

section \<open>Framing\<close>

definition validate_bmp_header :: "bytes \<Rightarrow> u32 \<Rightarrow> (nat \<times> bmp_msg_type) result" where
  "validate_bmp_header hdr max_frame =
     (if length hdr < 6 then Err (UnexpectedEof 6 (length hdr)) else
      and_then (at hdr 0) (\<lambda>version.
      and_then (be32_at hdr 1) (\<lambda>msg_len.
      and_then (at hdr 5) (\<lambda>t.
      if version \<noteq> 3 then Err (InvalidBmpVersion version)
      else if unat msg_len < 6 then Err (BmpParse (''BMP declared length '' @ dec (unat msg_len)
        @ '' is smaller than 6-byte header''))
      else if msg_len > max_frame then Err (FrameTooLarge msg_len max_frame)
      else and_then (bmp_msg_type_try_from t) (\<lambda>mt. Ok (unat msg_len, mt))))))"

datatype stream_end = Closed | Broken string | Silent

record byte_stream =
  pending :: bytes
  behind :: stream_end

datatype read_outcome = Read bytes byte_stream | ReadEof | ReadError string | ReadPending

text \<open>\<open>AsyncReadExt::read_exact\<close>: all the bytes asked for, or what the stream does instead.\<close>

definition read_exact :: "nat \<Rightarrow> byte_stream \<Rightarrow> read_outcome" where
  "read_exact n s = (if n \<le> length (pending s) then Read (take n (pending s)) (s\<lparr>pending := drop n (pending s)\<rparr>)
     else case behind s of Closed \<Rightarrow> ReadEof | Broken e \<Rightarrow> ReadError e | Silent \<Rightarrow> ReadPending)"

text \<open>A read under a deadline, with the errors the caller makes of its failures.\<close>

definition timed_read :: "nat \<Rightarrow> error \<Rightarrow> string \<Rightarrow> byte_stream \<Rightarrow> (bytes \<times> byte_stream) result" where
  "timed_read n eof late s = (case read_exact n s of
     Read b s' \<Rightarrow> Ok (b, s') | ReadEof \<Rightarrow> Err eof | ReadError e \<Rightarrow> Err (Io OtherIo e)
   | ReadPending \<Rightarrow> Err (Io TimedOut late))"

text \<open>The first byte is awaited without a deadline: on a silent stream the call does not return, which is
  \<open>None\<close>.\<close>

definition read_bmp_frame :: "byte_stream \<Rightarrow> u32 \<Rightarrow> (bytes option \<times> byte_stream) result option" where
  "read_bmp_frame s max_frame = (case read_exact 1 s of
     ReadPending \<Rightarrow> None
   | ReadEof \<Rightarrow> Some (Ok (None, s))
   | ReadError e \<Rightarrow> Some (Err (Io OtherIo e))
   | Read first s \<Rightarrow> Some (
       and_then (timed_read 5 (UnexpectedEof 6 1) ''BMP header read timed out'' s) (\<lambda>(rest_hdr, s).
       let hdr = first @ rest_hdr in
       and_then (validate_bmp_header hdr max_frame) (\<lambda>(msg_len, _).
       if msg_len > 6 then
         and_then (timed_read (msg_len - 6) (UnexpectedEof msg_len 6) ''BMP body read timed out'' s) (\<lambda>(body, s).
         Ok (Some (hdr @ body), s))
       else Ok (Some hdr, s)))))"

section \<open>The per-peer header\<close>

definition parse_peer_header :: "externals \<Rightarrow> bytes \<Rightarrow> (peer_header \<times> bytes) result" where
  "parse_peer_header X buf =
     (if length buf < 42 then Err (UnexpectedEof 42 (length buf)) else
      and_then (at buf 0) (\<lambda>t.
      and_then (peer_type_try_from t) (\<lambda>pt.
      and_then (at buf 1) (\<lambda>flags.
      and_then (slice buf 2 10) (\<lambda>rd.
      and_then
        (if pt \<noteq> LocRibInstance \<and> flag_ipv6 flags
         then and_then (slice buf 10 26) (\<lambda>b. Ok (IpV6 (from_be_bytes b)))
         else and_then (slice buf 22 26) (\<lambda>b. Ok (IpV4 (from_be_bytes b)))) (\<lambda>addr.
      and_then (be32_at buf 26) (\<lambda>peer_asn.
      and_then (be32_at buf 30) (\<lambda>router.
      and_then (be32_at buf 34) (\<lambda>ts_secs.
      and_then (be32_at buf 38) (\<lambda>ts_micros.
      and_then (mul_u32 X ts_micros 1000) (\<lambda>nanos.
      and_then (slice_from buf 42) (\<lambda>rest.
      Ok (\<lparr>peer_type = pt, peer_flags = flags, peer_distinguisher = rd, peer_address = addr, peer_as = peer_asn,
           peer_bgp_id = router,
           hdr_timestamp = (case timestamp_opt X (int (unat ts_secs)) nanos of Some ts \<Rightarrow> ts | None \<Rightarrow> utc_now X),
           hdr_rib_type = rib_type_from_peer pt flags\<rparr>, rest)))))))))))))"

section \<open>Messages\<close>

text \<open>The TLV loop of Initiation, Termination and Route Mirroring: type (2), length (2), value; \<open>n\<close> is the length
  of the whole section, which the errors report.\<close>

function tlv_loop :: "nat \<Rightarrow> (u16 \<Rightarrow> bytes \<Rightarrow> 's \<Rightarrow> 's result) \<Rightarrow> 's \<Rightarrow> bytes \<Rightarrow> 's result" where
  "tlv_loop n h st [] = Ok st"
| "tlv_loop n h st (b # bs) =
     (let pos = n - length (b # bs); l = unat (from_be_bytes (take 2 (drop 2 (b # bs))) :: u16);
          rest = drop 4 (b # bs) in
      if length (b # bs) < 4 then Err (UnexpectedEof (pos + 4) n)
      else if length rest < l then Err (UnexpectedEof (pos + 4 + l) n)
      else and_then (h (from_be_bytes (take 2 (b # bs))) (take l rest) st) (\<lambda>st'. tlv_loop n h st' (drop l rest)))"
  by pat_completeness auto
termination
  by (relation "measure (\<lambda>(n, h, st, buf). length buf)") auto

definition initiation_tlv :: "u16 \<Rightarrow> bytes \<Rightarrow> initiation_info list \<Rightarrow> initiation_info list result" where
  "initiation_tlv t raw infos = Ok (infos @
     [if t = 0 then AdminLabel (from_utf8_lossy raw) else if t = 1 then SysDescr (from_utf8_lossy raw)
      else if t = 2 then SysName (from_utf8_lossy raw) else UnknownInfo t (concat (map hex2 raw))])"

definition parse_initiation_tlvs :: "bytes \<Rightarrow> initiation_info list result" where
  "parse_initiation_tlvs buf = tlv_loop (length buf) initiation_tlv [] buf"

fun collect_info :: "initiation_info \<Rightarrow> string option \<times> string option \<times> string list
    \<Rightarrow> string option \<times> string option \<times> string list" where
  "collect_info (AdminLabel v) (n, d, ls) = (n, d, ls @ [v])"
| "collect_info (SysDescr v) (n, d, ls) = (n, Some v, ls)"
| "collect_info (SysName v) (n, d, ls) = (Some v, d, ls)"
| "collect_info (UnknownInfo t h) st = st"

definition parse_initiation :: "bytes \<Rightarrow> bmp_payload result" where
  "parse_initiation buf =
     and_then (parse_initiation_tlvs buf) (\<lambda>infos.
     let (n, d, ls) = fold collect_info infos (None, None, []) in Ok (Initiation n d ls))"

definition termination_tlv :: "u16 \<Rightarrow> bytes \<Rightarrow> u16 \<times> string option \<Rightarrow> (u16 \<times> string option) result" where
  "termination_tlv t raw st =
     (if t = 0 then Ok (fst st, Some (from_utf8_lossy raw))
      else if t = 1 \<and> length raw = 2 then Ok (from_be_bytes raw, snd st)
      else if t = 1 then Err (BmpParse (''invalid Termination Reason TLV length '' @ dec (length raw) @ '', expected 2''))
      else Ok st)"

definition parse_termination :: "bytes \<Rightarrow> bmp_payload result" where
  "parse_termination buf =
     and_then (tlv_loop (length buf) termination_tlv (0, None) buf) (\<lambda>(code, txt). Ok (Termination code txt))"

definition bgp_open_pdu_len :: "bytes \<Rightarrow> nat result" where
  "bgp_open_pdu_len buf =
     (if length buf < 19 then Ok (length buf) else and_then (be16_at buf 16) (\<lambda>n. Ok (unat n)))"

definition parse_bgp_open_pdu :: "bytes \<Rightarrow> bgp_open_info result" where
  "parse_bgp_open_pdu buf =
     (if length buf < 19 then Err (UnexpectedEof 19 (length buf)) else
      and_then (be16_at buf 16) (\<lambda>n.
      let msg_len = unat n in
      if \<not> (29 \<le> msg_len \<and> msg_len \<le> 4096) then
        Err (BgpParse (''invalid BGP OPEN declared length '' @ dec msg_len @ '' (must be 29..=4096)''))
      else if length buf < msg_len then Err (UnexpectedEof msg_len (length buf))
      else and_then (slice buf 0 msg_len) parse_bgp_open))"

definition parse_peer_up :: "externals \<Rightarrow> bytes \<Rightarrow> bmp_payload result" where
  "parse_peer_up X buf =
     and_then (parse_peer_header X buf) (\<lambda>(hdr, rest).
     if length rest < 20 then Err (UnexpectedEof 20 (length rest)) else
     and_then
       (if flag_ipv6 (peer_flags hdr)
        then and_then (slice rest 0 16) (\<lambda>b. Ok (IpV6 (from_be_bytes b)))
        else and_then (slice rest 12 16) (\<lambda>b. Ok (IpV4 (from_be_bytes b)))) (\<lambda>addr.
     and_then (be16_at rest 16) (\<lambda>lport.
     and_then (be16_at rest 18) (\<lambda>rport.
     and_then (slice_from rest 20) (\<lambda>bgp_pdus.
     and_then (parse_bgp_open_pdu bgp_pdus) (\<lambda>sent.
     and_then (bgp_open_pdu_len bgp_pdus) (\<lambda>sent_len.
     and_then (slice_from bgp_pdus sent_len) (\<lambda>recv_pdus.
     and_then (parse_bgp_open_pdu recv_pdus) (\<lambda>recv.
     and_then (bgp_open_pdu_len recv_pdus) (\<lambda>recv_len.
     and_then (slice_from recv_pdus recv_len) (\<lambda>tlvs.
     and_then (parse_initiation_tlvs tlvs) (\<lambda>_.
     Ok (PeerUp \<lparr>pu_header = hdr, local_addr = addr, local_port = lport, remote_port = rport,
       sent_open = sent, recv_open = recv\<rparr>)))))))))))))"

definition parse_peer_down :: "externals \<Rightarrow> bytes \<Rightarrow> bmp_payload result" where
  "parse_peer_down X buf =
     and_then (parse_peer_header X buf) (\<lambda>(hdr, rest).
     if rest = [] then Err (UnexpectedEof 1 0) else
     and_then (at rest 0) (\<lambda>code.
     and_then (slice_from rest 1) (\<lambda>tail.
     Ok (PeerDown hdr
       (if code = 1 then LocalSystemClosed (Some tail) else if code = 2 then LocalSystemClosed2
        else if code = 3 then RemoteSystemClosed (Some tail) else if code = 4 then RemoteSystemClosed2
        else if code = 5 then PeerDeConfigured else if code = 6 then VrfDown else UnknownDown code)))))"

definition parse_route_monitoring ::
  "externals \<Rightarrow> bytes \<Rightarrow> (peer_header \<Rightarrow> bgp_decode_context) \<Rightarrow> bmp_payload result" where
  "parse_route_monitoring X buf resolve_ctx =
     and_then (parse_peer_header X buf) (\<lambda>(hdr, rest).
     if length rest < 19 then Err (UnexpectedEof 19 (length rest)) else
     let status = find_path_status_tlv rest path_status_tlv_type;
         ctx = (resolve_ctx hdr)\<lparr>four_byte_asn := \<not> flag_as2 (peer_flags hdr)\<rparr> in
     and_then (parse_bgp_update_with_context X rest ctx) (\<lambda>u.
     Ok (RouteMonitoring hdr (case status of
          Some ps \<Rightarrow> u\<lparr>attributes := (attributes u)\<lparr>path_status := Some ps\<rparr>\<rparr>
        | None \<Rightarrow> u))))"

definition stat_entry_of :: "u16 \<Rightarrow> bytes \<Rightarrow> stat_entry" where
  "stat_entry_of t d = (let n = length d; fam = afi_safi_new (from_be_bytes (take 2 d)) (d ! 2) in
     if stat_is_per_afi_safi_11byte t \<and> n = 11 \<or> stat_is_per_afi_safi_7byte t \<and> n = 7
     then \<lparr>stat_type = t, stat_label = stat_name t, stat_value = from_be_bytes (drop 3 d), stat_afi_safi = Some fam\<rparr>
     else \<lparr>stat_type = t, stat_label = stat_name t,
       stat_value = (if n = 4 \<or> n = 8 then from_be_bytes d else 0), stat_afi_safi = None\<rparr>)"

text \<open>\<open>for _ in 0..stat_count\<close>: the entries and what is left of the section of length \<open>n\<close>.\<close>

fun stats_loop :: "nat \<Rightarrow> nat \<Rightarrow> bytes \<Rightarrow> (stat_entry list \<times> bytes) result" where
  "stats_loop n 0 buf = Ok ([], buf)"
| "stats_loop n (Suc k) buf =
     (let pos = n - length buf; l = unat (from_be_bytes (take 2 (drop 2 buf)) :: u16); rest = drop 4 buf in
      if length buf < 4 then Err (UnexpectedEof (pos + 4) n)
      else if length rest < l then Err (UnexpectedEof (pos + 4 + l) n)
      else and_then (stats_loop n k (drop l rest)) (\<lambda>(es, r).
        Ok (stat_entry_of (from_be_bytes (take 2 buf)) (take l rest) # es, r)))"

definition parse_stats_report :: "externals \<Rightarrow> bytes \<Rightarrow> bmp_payload result" where
  "parse_stats_report X buf =
     and_then (parse_peer_header X buf) (\<lambda>(hdr, rest).
     if length rest < 4 then Err (UnexpectedEof 4 (length rest)) else
     and_then (be32_at rest 0) (\<lambda>count.
     let stat_count = unat count; max_possible = (length rest - 4) div 4 in
     if stat_count > max_possible then Err (UnexpectedEof (4 + stat_count * 4) (length rest)) else
     and_then (slice_from rest 4) (\<lambda>body.
     and_then (stats_loop (length rest) stat_count body) (\<lambda>(stats, trailing).
     if trailing \<noteq> []
     then Err (BmpParse (''BMP StatsReport has '' @ dec (length trailing) @ '' trailing unparsed bytes''))
     else Ok (StatsReport hdr stats)))))"

definition mirroring_tlv :: "u16 \<Rightarrow> bytes \<Rightarrow> bytes \<Rightarrow> bytes result" where
  "mirroring_tlv t raw pdu = Ok (if t = 0 then raw else pdu)"

definition parse_route_mirroring :: "externals \<Rightarrow> bytes \<Rightarrow> bmp_payload result" where
  "parse_route_mirroring X buf =
     and_then (parse_peer_header X buf) (\<lambda>(hdr, rest).
     and_then (tlv_loop (length rest) mirroring_tlv [] rest) (\<lambda>pdu. Ok (RouteMirroring hdr pdu)))"

fun parse_bmp_body ::
  "externals \<Rightarrow> (peer_header \<Rightarrow> bgp_decode_context) \<Rightarrow> bmp_msg_type \<Rightarrow> bytes \<Rightarrow> bmp_payload result" where
  "parse_bmp_body X resolve InitiationType body = parse_initiation body"
| "parse_bmp_body X resolve TerminationType body = parse_termination body"
| "parse_bmp_body X resolve PeerUpType body = parse_peer_up X body"
| "parse_bmp_body X resolve PeerDownType body = parse_peer_down X body"
| "parse_bmp_body X resolve RouteMonitoringType body = parse_route_monitoring X body resolve"
| "parse_bmp_body X resolve StatsReportType body = parse_stats_report X body"
| "parse_bmp_body X resolve RouteMirroringType body = parse_route_mirroring X body"

definition parse_bmp_message_with_peer_context ::
  "externals \<Rightarrow> bytes \<Rightarrow> ip_addr \<Rightarrow> u32 \<Rightarrow> (peer_header \<Rightarrow> bgp_decode_context) \<Rightarrow> bmp_payload result" where
  "parse_bmp_message_with_peer_context X buf speaker max_frame resolve_ctx =
     and_then (validate_bmp_header buf max_frame) (\<lambda>(msg_len, mt).
     if length buf < msg_len then Err (UnexpectedEof msg_len (length buf))
     else if length buf > msg_len then
       Err (BmpParse (''BMP buffer length '' @ dec (length buf) @ '' exceeds declared message length '' @ dec msg_len))
     else and_then (slice buf 6 msg_len) (parse_bmp_body X resolve_ctx mt))"

definition parse_bmp_message_with_context ::
  "externals \<Rightarrow> bytes \<Rightarrow> ip_addr \<Rightarrow> u32 \<Rightarrow> bgp_decode_context \<Rightarrow> bmp_payload result" where
  "parse_bmp_message_with_context X buf speaker max_frame ctx =
     parse_bmp_message_with_peer_context X buf speaker max_frame (\<lambda>_. ctx)"

definition parse_bmp_message :: "externals \<Rightarrow> bytes \<Rightarrow> ip_addr \<Rightarrow> u32 \<Rightarrow> bmp_payload result" where
  "parse_bmp_message X buf speaker max_frame =
     parse_bmp_message_with_peer_context X buf speaker max_frame (\<lambda>_. default_context)"

section \<open>Framing lemmas\<close>

lemma validate_bmp_header_no_panic [panics]: "validate_bmp_header hdr m \<noteq> Panic"
  by (auto simp: validate_bmp_header_def and_then_Panic_iff bmp_msg_type_try_from_def)

lemma validate_bmp_header_Ok_iff:
  "validate_bmp_header hdr m = Ok (n, mt) \<longleftrightarrow> 6 \<le> length hdr \<and> hdr ! 0 = 3 \<and> n = be_nat (take 4 (drop 1 hdr))
    \<and> 6 \<le> n \<and> n \<le> unat m \<and> bmp_msg_type_try_from (hdr ! 5) = Ok mt"
  by (auto simp: validate_bmp_header_def and_then_Ok_iff reads at_def unat_from_be_bytes word_less_nat_alt not_less
      split: if_splits)

lemma validate_bmp_header_min: "validate_bmp_header hdr m = Ok (n, mt) \<Longrightarrow> 6 \<le> n"
  by (simp add: validate_bmp_header_Ok_iff)

lemma msg_type_known: "(\<exists>mt. bmp_msg_type_try_from t = Ok mt) \<longleftrightarrow> unat t \<le> 6"
proof
  assume "unat t \<le> 6"
  then have "unat t = 0 \<or> unat t = 1 \<or> unat t = 2 \<or> unat t = 3 \<or> unat t = 4 \<or> unat t = 5 \<or> unat t = 6"
    by linarith
  then show "\<exists>mt. bmp_msg_type_try_from t = Ok mt"
    by (elim disjE) (simp_all add: bmp_msg_type_try_from_def word_unat_eq_iff)
next
  assume "\<exists>mt. bmp_msg_type_try_from t = Ok mt"
  then show "unat t \<le> 6"
    by (auto simp: bmp_msg_type_try_from_def split: if_splits)
qed

lemma validate_ex:
  "(\<exists>mt. validate_bmp_header f m = Ok (n, mt)) \<longleftrightarrow>
     6 \<le> length f \<and> n \<le> unat m \<and> f ! 0 = 3 \<and> be_nat (take 4 (drop 1 f)) = n \<and> 6 \<le> n \<and> unat (f ! 5) \<le> 6"
  unfolding validate_bmp_header_Ok_iff msg_type_known [symmetric] by blast

lemma timed_read_no_panic [panics]: "timed_read n e l s \<noteq> Panic"
  by (simp add: timed_read_def split: read_outcome.split)

definition stream_error :: "error \<Rightarrow> string \<Rightarrow> byte_stream \<Rightarrow> error" where
  "stream_error eof late s =
     (case behind s of Closed \<Rightarrow> eof | Broken e \<Rightarrow> Io OtherIo e | Silent \<Rightarrow> Io TimedOut late)"

lemma timed_read_eq:
  "timed_read n eof late s = (if n \<le> length (pending s)
     then Ok (take n (pending s), s\<lparr>pending := drop n (pending s)\<rparr>) else Err (stream_error eof late s))"
  by (simp add: timed_read_def read_exact_def stream_error_def split: stream_end.split)

text \<open>The reader, in terms of what is pending.\<close>

lemma read_bmp_frame_eq:
  assumes "pending s \<noteq> []"
  shows "read_bmp_frame s m = Some (let p = pending s in
    if length p < 6 then Err (stream_error (UnexpectedEof 6 1) ''BMP header read timed out'' s)
    else and_then (validate_bmp_header (take 6 p) m) (\<lambda>(n, _).
      if length p < n then Err (stream_error (UnexpectedEof n 6) ''BMP body read timed out'' s)
      else Ok (Some (take n p), s\<lparr>pending := drop n p\<rparr>)))"
proof -
  let ?p = "pending s"
  have first: "read_exact 1 s = Read (take 1 ?p) (s\<lparr>pending := drop 1 ?p\<rparr>)"
    using assms by (simp add: read_exact_def Suc_le_eq)
  have six: "take 1 ?p @ take 5 (drop 1 ?p) = take 6 ?p"
    by (simp flip: take_add)
  show ?thesis
  proof (cases "length ?p < 6")
    case True
    then have "\<not> 5 \<le> length ?p - Suc 0" by simp
    with True first show ?thesis by (simp add: read_bmp_frame_def timed_read_eq stream_error_def)
  next
    case False
    have "validate_bmp_header (take 6 ?p) m = Ok (n, mt) \<Longrightarrow> 6 \<le> n" for n mt
      by (simp add: validate_bmp_header_Ok_iff)
    moreover have "take 6 ?p @ take (n - 6) (drop 6 ?p) = take n ?p" if "6 \<le> n" for n
      using that by (simp flip: take_add)
    ultimately show ?thesis
      using False first six
      by (cases "validate_bmp_header (take 6 ?p) m")
        (auto simp: read_bmp_frame_def timed_read_eq stream_error_def Let_def not_le)
  qed
qed

lemma validate_take:
  assumes "6 \<le> n"
  shows "validate_bmp_header (take n p) m = Ok (k, mt) \<longleftrightarrow> validate_bmp_header (take 6 p) m = Ok (k, mt)"
proof -
  have "take 4 (drop 1 (take n p)) = take 4 (drop 1 (take 6 p))"
    using assms by (simp add: drop_take)
  with assms show ?thesis
    by (simp add: validate_bmp_header_Ok_iff)
qed

lemma read_bmp_frame_Some_iff:
  "read_bmp_frame s m = Some (Ok (Some f, s')) \<longleftrightarrow>
     pending s = f @ pending s' \<and> behind s' = behind s \<and> (\<exists>mt. validate_bmp_header f m = Ok (length f, mt))"
    (is "?L \<longleftrightarrow> ?R")
proof (cases "pending s = []")
  case True
  then have "\<not> ?L"
    by (auto simp: read_bmp_frame_def read_exact_def split: stream_end.splits)
  moreover have "\<not> ?R"
  proof
    assume ?R
    then have "f = []" using True by simp
    with \<open>?R\<close> show False by (simp add: validate_bmp_header_def)
  qed
  ultimately show ?thesis by simp
next
  case False
  let ?p = "pending s"
  have "?L \<longleftrightarrow> 6 \<le> length ?p \<and> (\<exists>n mt. validate_bmp_header (take 6 ?p) m = Ok (n, mt) \<and> n \<le> length ?p
      \<and> f = take n ?p \<and> s' = s\<lparr>pending := drop n ?p\<rparr>)"
    unfolding read_bmp_frame_eq [OF False] Let_def by (auto simp: and_then_Ok_iff not_less)
  also have "\<dots> \<longleftrightarrow> ?R"
  proof
    assume "6 \<le> length ?p \<and> (\<exists>n mt. validate_bmp_header (take 6 ?p) m = Ok (n, mt) \<and> n \<le> length ?p
      \<and> f = take n ?p \<and> s' = s\<lparr>pending := drop n ?p\<rparr>)"
    then obtain n mt where *: "validate_bmp_header (take 6 ?p) m = Ok (n, mt)" "n \<le> length ?p" "f = take n ?p"
      "s' = s\<lparr>pending := drop n ?p\<rparr>" by blast
    from *(1) have "6 \<le> n" by (rule validate_bmp_header_min)
    from validate_take [OF this, of ?p m n mt] * show ?R by simp
  next
    assume R: ?R
    then obtain mt where v: "validate_bmp_header f m = Ok (length f, mt)" by blast
    then have n: "6 \<le> length f" by (rule validate_bmp_header_min)
    have "validate_bmp_header (take 6 ?p) m = Ok (length f, mt)"
      using validate_take [OF n, of ?p m "length f" mt] v R by simp
    then show "6 \<le> length ?p \<and> (\<exists>n mt. validate_bmp_header (take 6 ?p) m = Ok (n, mt) \<and> n \<le> length ?p
      \<and> f = take n ?p \<and> s' = s\<lparr>pending := drop n ?p\<rparr>)"
      using R n by (intro conjI exI [of _ "length f"] exI [of _ mt]) simp_all
  qed
  finally show ?thesis .
qed

lemma read_bmp_frame_None_iff:
  "read_bmp_frame s m = Some (Ok (None, s')) \<longleftrightarrow> s' = s \<and> pending s = [] \<and> behind s = Closed"
  by (auto simp: read_bmp_frame_def read_exact_def and_then_Ok_iff Let_def Suc_le_eq
      split: read_outcome.splits stream_end.splits if_splits)

lemma read_bmp_frame_blocks_iff: "read_bmp_frame s m = None \<longleftrightarrow> pending s = [] \<and> behind s = Silent"
  by (auto simp: read_bmp_frame_def read_exact_def Suc_le_eq
      split: read_outcome.splits stream_end.splits if_splits)

lemma read_bmp_frame_no_panic: "read_bmp_frame s m \<noteq> Some Panic"
  by (auto simp: read_bmp_frame_def and_then_Panic_iff panics Let_def split: read_outcome.splits if_splits)

text \<open>C16: What the frame reader returns: a frame exactly when the stream starts with one, whose declared length is its
  length and at most the limit, with the bytes behind it left in place; the clean end exactly at the end of a closed
  stream; and it never panics. So no frame is longer than the limit, and none is split or merged.\<close>

theorem read_bmp_frame_exact:
  "(read_bmp_frame s m = Some (Ok (Some f, s')) \<longleftrightarrow>
      pending s = f @ pending s' \<and> behind s' = behind s \<and> 6 \<le> length f \<and> length f \<le> unat m
      \<and> f ! 0 = 3 \<and> be_nat (take 4 (drop 1 f)) = length f \<and> unat (f ! 5) \<le> 6)
   \<and> (read_bmp_frame s m = Some (Ok (None, s')) \<longleftrightarrow> s' = s \<and> pending s = [] \<and> behind s = Closed)
   \<and> read_bmp_frame s m \<noteq> Some Panic"
  unfolding read_bmp_frame_Some_iff read_bmp_frame_None_iff validate_ex
  using read_bmp_frame_no_panic by blast

section \<open>Streams of frames\<close>

text \<open>What a collector connection does: read frames until the stream ends.\<close>

inductive delivers :: "u32 \<Rightarrow> byte_stream \<Rightarrow> bytes list \<Rightarrow> bool" for m where
  end_of_stream: "read_bmp_frame s m = Some (Ok (None, s')) \<Longrightarrow> delivers m s []"
| next_frame: "read_bmp_frame s m = Some (Ok (Some f, s')) \<Longrightarrow> delivers m s' fs \<Longrightarrow> delivers m s (f # fs)"

definition frame_ok :: "u32 \<Rightarrow> bytes \<Rightarrow> bool" where
  "frame_ok m f \<longleftrightarrow> (\<exists>mt. validate_bmp_header f m = Ok (length f, mt))"

lemma delivers_stream:
  "list_all (frame_ok m) fs \<Longrightarrow> delivers m \<lparr>pending = concat fs, behind = Closed\<rparr> fs"
proof (induction fs)
  case Nil
  show ?case by (rule delivers.end_of_stream) (simp add: read_bmp_frame_None_iff)
next
  case (Cons f fs)
  then show ?case
    by (intro delivers.next_frame [where s' = "\<lparr>pending = concat fs, behind = Closed\<rparr>"])
      (simp_all add: read_bmp_frame_Some_iff frame_ok_def)
qed

lemma delivers_sound: "delivers m s fs \<Longrightarrow> pending s = concat fs \<and> behind s = Closed \<and> list_all (frame_ok m) fs"
  by (induction rule: delivers.induct) (simp_all add: read_bmp_frame_None_iff read_bmp_frame_Some_iff frame_ok_def)

text \<open>C17: A closed stream is delivered frame by frame exactly when it is a sequence of well-formed frames, and then the
  frames delivered are the frames sent, in order: a collector that reads until the end loses nothing.\<close>

theorem stream_delivered: "delivers m \<lparr>pending = bs, behind = Closed\<rparr> fs \<longleftrightarrow> bs = concat fs \<and> list_all (frame_ok m) fs"
  using delivers_stream [of m fs] delivers_sound [of m "\<lparr>pending = bs, behind = Closed\<rparr>" fs] by auto

section \<open>The per-peer header\<close>

lemma peer_type_known: "(\<exists>pt. peer_type_try_from t = Ok pt) \<longleftrightarrow> unat t \<le> 3"
proof
  assume "unat t \<le> 3"
  then have "unat t = 0 \<or> unat t = 1 \<or> unat t = 2 \<or> unat t = 3" by linarith
  then show "\<exists>pt. peer_type_try_from t = Ok pt"
    by (elim disjE) (simp_all add: peer_type_try_from_def word_unat_eq_iff)
qed (auto simp: peer_type_try_from_def split: if_splits)

lemma peer_type_no_panic [panics]: "peer_type_try_from t \<noteq> Panic"
  by (simp add: peer_type_try_from_def)

lemma mul_u32_Panic_iff: "mul_u32 X a b = Panic \<longleftrightarrow> overflow_checks X \<and> 2 ^ 32 \<le> unat a * unat b"
  by (simp add: mul_u32_def)

lemma parse_peer_header_Panic:
  "parse_peer_header X buf = Panic \<Longrightarrow>
     42 \<le> length buf \<and> overflow_checks X \<and> 2 ^ 32 \<le> be_nat (take 4 (drop 38 buf)) * 1000"
  by (auto simp: parse_peer_header_def and_then_Panic_iff reads panics mul_u32_Panic_iff unat_from_be_bytes
      split: if_splits)

lemma parse_peer_header_rest: "parse_peer_header X buf = Ok (h, rest) \<Longrightarrow> 42 \<le> length buf \<and> rest = drop 42 buf"
  by (auto simp: parse_peer_header_def and_then_Ok_iff slice_from_def split: if_splits)

fun peer_type_code :: "peer_type \<Rightarrow> u8" where
  "peer_type_code GlobalInstance = 0"
| "peer_type_code RdInstance = 1"
| "peer_type_code LocalInstance = 2"
| "peer_type_code LocRibInstance = 3"

lemma peer_type_try_from_code [simp]: "peer_type_try_from (peer_type_code t) = Ok t"
  by (cases t) (simp_all add: peer_type_try_from_def)

definition peer_addr_wire :: "ip_addr \<Rightarrow> bytes" where
  "peer_addr_wire a = (case a of IpV4 v \<Rightarrow> replicate 12 0 @ to_be_bytes 4 v | IpV6 v \<Rightarrow> to_be_bytes 16 v)"

definition peer_header_wire :: "peer_header \<Rightarrow> u32 \<Rightarrow> u32 \<Rightarrow> bytes" where
  "peer_header_wire h secs micros = [peer_type_code (peer_type h), peer_flags h] @ peer_distinguisher h
     @ peer_addr_wire (peer_address h) @ to_be_bytes 4 (peer_as h) @ to_be_bytes 4 (peer_bgp_id h)
     @ to_be_bytes 4 secs @ to_be_bytes 4 micros"

definition peer_header_ok :: "peer_header \<Rightarrow> u32 \<Rightarrow> u32 \<Rightarrow> bool" where
  "peer_header_ok h secs micros \<longleftrightarrow> length (peer_distinguisher h) = 8 \<and> unat micros < 1000000
     \<and> (case peer_address h of IpV4 _ \<Rightarrow> peer_type h = LocRibInstance \<or> \<not> flag_ipv6 (peer_flags h)
        | IpV6 _ \<Rightarrow> peer_type h \<noteq> LocRibInstance \<and> flag_ipv6 (peer_flags h))
     \<and> hdr_timestamp h = int (unat secs) * 1000000000 + int (unat micros) * 1000
     \<and> hdr_rib_type h = rib_type_from_peer (peer_type h) (peer_flags h)"

lemma length_peer_header_wire: "peer_header_ok h secs micros \<Longrightarrow> length (peer_header_wire h secs micros) = 42"
  by (auto simp: peer_header_ok_def peer_header_wire_def peer_addr_wire_def split: ip_addr.splits)

lemma mul_u32_small: "unat a * 1000 < 2 ^ 32 \<Longrightarrow> mul_u32 X a 1000 = Ok (a * 1000)"
  by (simp add: mul_u32_def)

lemma unat_mul_1000: "unat (a :: u32) * 1000 < 2 ^ 32 \<Longrightarrow> unat (a * 1000) = unat a * 1000"
  by (simp add: unat_word_ariths)

lemma parse_peer_header_wire:
  assumes "chrono X" and "peer_header_ok h secs micros"
  shows "parse_peer_header X (peer_header_wire h secs micros @ r) = Ok (h, r)"
proof -
  have small: "unat micros * 1000 < 2 ^ 32" using assms(2) by (simp add: peer_header_ok_def)
  have n: "unat (micros * 1000) = unat micros * 1000" using small by (rule unat_mul_1000)
  have "timestamp_opt X (int (unat secs)) (micros * 1000) = Some (int (unat secs) * 1000000000 + int (unat (micros * 1000)))"
    by (rule chrono.timestamp_valid [OF assms(1)])
      (use n assms(2) unsigned_less [of secs, where 'a = int] in \<open>simp_all add: peer_header_ok_def\<close>)
  then have ts: "timestamp_opt X (int (unat secs)) (micros * 1000) = Some (hdr_timestamp h)"
    unfolding n using assms(2) by (simp add: peer_header_ok_def)
  have addr: "length (peer_addr_wire (peer_address h)) = 16"
    by (simp add: peer_addr_wire_def split: ip_addr.split)
  show ?thesis
    using assms(2) ts addr
    by (cases h; cases "peer_address h")
      (auto simp: mul_u32_small [OF small] parse_peer_header_def peer_header_wire_def peer_header_ok_def reads nth_append
        peer_addr_wire_def)
qed

section \<open>Messages\<close>

definition bmp_wire :: "u8 \<Rightarrow> bytes \<Rightarrow> bytes" where
  "bmp_wire t body = [3] @ to_be_bytes 4 (word_of_nat (6 + length body) :: u32) @ [t] @ body"

lemma bmp_wire_parse:
  assumes "6 + length body \<le> unat m" and "bmp_msg_type_try_from t = Ok mt"
  shows "parse_bmp_message_with_peer_context X (bmp_wire t body) sp m resolve = parse_bmp_body X resolve mt body"
proof -
  have n: "unat (word_of_nat (6 + length body) :: u32) = 6 + length body"
    by (rule unat_word_of_nat) (use assms(1) unsigned_less [of m, where 'a = nat] in simp)
  have len: "length (bmp_wire t body) = 6 + length body" by (simp add: bmp_wire_def)
  have "be_nat (take 4 (drop 1 (bmp_wire t body))) = unat (word_of_nat (6 + length body) :: u32)"
    by (simp add: bmp_wire_def flip: unat_from_be_bytes [where 'a = 32])
  then have v: "validate_bmp_header (bmp_wire t body) m = Ok (6 + length body, mt)"
    unfolding validate_bmp_header_Ok_iff n using assms len by (simp add: bmp_wire_def nth_append)
  have "slice (bmp_wire t body) 6 (6 + length body) = (Ok body :: bytes result)"
    unfolding slice_def len by (simp add: bmp_wire_def)
  with v len show ?thesis
    by (simp add: parse_bmp_message_with_peer_context_def)
qed

lemma tlv_loop_no_panic: "(\<And>t d st. h t d st \<noteq> Panic) \<Longrightarrow> tlv_loop n h st buf \<noteq> Panic"
  by (induction n h st buf rule: tlv_loop.induct) (auto simp: Let_def and_then_Panic_iff)

lemma parse_initiation_tlvs_no_panic [panics]: "parse_initiation_tlvs buf \<noteq> Panic"
  unfolding parse_initiation_tlvs_def by (rule tlv_loop_no_panic) (simp add: initiation_tlv_def)

lemma parse_initiation_no_panic [panics]: "parse_initiation buf \<noteq> Panic"
  by (auto simp: parse_initiation_def and_then_Panic_iff panics Let_def split: prod.splits)

lemma parse_termination_no_panic [panics]: "parse_termination buf \<noteq> Panic"
  unfolding parse_termination_def
  by (rule and_then_no_panic [OF tlv_loop_no_panic]) (auto simp: termination_tlv_def)

lemma parse_bgp_open_pdu_Ok:
  assumes "parse_bgp_open_pdu buf = Ok i"
  shows "\<exists>n. bgp_open_pdu_len buf = Ok n \<and> 29 \<le> n \<and> n \<le> length buf \<and> parse_bgp_open (take n buf) = Ok i"
  using assms by (auto simp: parse_bgp_open_pdu_def bgp_open_pdu_len_def Let_def and_then_Ok_iff slice_def
      split: if_splits)

lemma parse_bgp_open_pdu_no_panic [panics]: "parse_bgp_open_pdu buf \<noteq> Panic"
  by (auto simp: parse_bgp_open_pdu_def Let_def and_then_Panic_iff reads panics split: if_splits)

lemma bgp_open_pdu_len_no_panic [panics]: "bgp_open_pdu_len buf \<noteq> Panic"
  by (auto simp: bgp_open_pdu_len_def and_then_Panic_iff)

lemma peer_up_tail_no_panic:
  assumes "parse_bgp_open_pdu pdus = Ok i" "bgp_open_pdu_len pdus = Ok n"
  shows "n \<le> length pdus"
  using parse_bgp_open_pdu_Ok [OF assms(1)] assms(2) by auto

lemma parse_peer_up_Panic: "parse_peer_up X buf = Panic \<Longrightarrow> parse_peer_header X buf = Panic"
  unfolding parse_peer_up_def
  by (auto simp: and_then_Panic_iff panics reads dest!: peer_up_tail_no_panic split: if_splits)

lemma parse_peer_down_Panic: "parse_peer_down X buf = Panic \<Longrightarrow> parse_peer_header X buf = Panic"
  by (auto simp: parse_peer_down_def and_then_Panic_iff reads Suc_le_eq split: if_splits)

lemma stats_loop_no_panic [panics]: "stats_loop n k buf \<noteq> Panic"
  by (induction n k buf rule: stats_loop.induct) (auto simp: Let_def and_then_Panic_iff)

lemma parse_stats_report_Panic: "parse_stats_report X buf = Panic \<Longrightarrow> parse_peer_header X buf = Panic"
  by (auto simp: parse_stats_report_def and_then_Panic_iff panics reads Let_def split: if_splits)

lemma parse_route_mirroring_Panic: "parse_route_mirroring X buf = Panic \<Longrightarrow> parse_peer_header X buf = Panic"
  by (auto simp: parse_route_mirroring_def and_then_Panic_iff mirroring_tlv_def tlv_loop_no_panic)

lemma parse_route_monitoring_Panic:
  "parse_route_monitoring X buf resolve = Panic \<Longrightarrow> parse_peer_header X buf = Panic
    \<or> (\<exists>ctx. parse_bgp_update_with_context X (drop 42 buf) ctx = Panic)"
  by (auto simp: parse_route_monitoring_def and_then_Panic_iff Let_def split: if_splits
      dest!: parse_peer_header_rest)

lemma parse_bmp_body_Panic:
  "parse_bmp_body X resolve mt body = Panic \<Longrightarrow> parse_peer_header X body = Panic
    \<or> mt = RouteMonitoringType \<and> (\<exists>ctx. parse_bgp_update_with_context X (drop 42 body) ctx = Panic)"
  by (cases mt) (auto simp: panics dest: parse_peer_up_Panic parse_peer_down_Panic parse_stats_report_Panic
      parse_route_mirroring_Panic parse_route_monitoring_Panic)

lemma parse_bmp_message_cases:
  "parse_bmp_message_with_peer_context X buf sp m resolve = (case validate_bmp_header buf m of
     Ok (n, mt) \<Rightarrow> if length buf = n then parse_bmp_body X resolve mt (drop 6 buf)
       else if length buf < n then Err (UnexpectedEof n (length buf))
       else Err (BmpParse (''BMP buffer length '' @ dec (length buf) @ '' exceeds declared message length '' @ dec n))
   | Err e \<Rightarrow> Err e | Panic \<Rightarrow> Panic)"
proof (cases "validate_bmp_header buf m")
  case (Ok p)
  then obtain n mt where v: "validate_bmp_header buf m = Ok (n, mt)" by (cases p) simp
  from validate_bmp_header_min [OF v] v show ?thesis
    by (auto simp: parse_bmp_message_with_peer_context_def slice_def)
qed (simp_all add: parse_bmp_message_with_peer_context_def)

lemma parse_bmp_message_accepts:
  assumes "parse_bmp_message_with_peer_context X buf sp m resolve = Ok p"
  shows "length buf = be_nat (take 4 (drop 1 buf)) \<and> 6 \<le> length buf \<and> length buf \<le> unat m \<and> buf ! 0 = 3"
proof -
  obtain n mt where "validate_bmp_header buf m = Ok (n, mt)" "length buf = n"
    using assms unfolding parse_bmp_message_cases by (auto split: outcome.splits if_splits)
  then show ?thesis unfolding validate_bmp_header_Ok_iff by metis
qed

lemma parse_bmp_message_Panic:
  assumes "parse_bmp_message_with_peer_context X buf sp m resolve = Panic"
  shows "parse_peer_header X (drop 6 buf) = Panic
    \<or> buf ! 5 = 0 \<and> (\<exists>ctx. parse_bgp_update_with_context X (drop 48 buf) ctx = Panic)"
proof -
  obtain n mt where v: "validate_bmp_header buf m = Ok (n, mt)"
      and b: "parse_bmp_body X resolve mt (drop 6 buf) = Panic"
    using assms validate_bmp_header_no_panic [of buf m] unfolding parse_bmp_message_cases
    by (auto split: outcome.splits if_splits)
  have "mt = RouteMonitoringType \<Longrightarrow> buf ! 5 = 0"
    using v by (auto simp: validate_bmp_header_Ok_iff bmp_msg_type_try_from_def split: if_splits)
  with parse_bmp_body_Panic [OF b] show ?thesis by auto
qed

section \<open>Properties\<close>

text \<open>C19: A BMP message is accepted only when the buffer is exactly the message: version 3 and a declared length equal
  to the length of the buffer, at least 6 and at most the limit. Parsing can panic only in a message with a per-peer
  header whose microsecond field times 1000 overflows 32 bits, in a build with overflow checks, or in a Route
  Monitoring message whose UPDATE makes the UPDATE parser panic.\<close>

theorem bmp_message_framing_and_panics:
  "(\<forall>p. parse_bmp_message_with_peer_context X buf sp m resolve = Ok p \<longrightarrow>
      length buf = be_nat (take 4 (drop 1 buf)) \<and> 6 \<le> length buf \<and> length buf \<le> unat m \<and> buf ! 0 = 3)
   \<and> (parse_bmp_message_with_peer_context X buf sp m resolve = Panic \<longrightarrow>
      48 \<le> length buf \<and> overflow_checks X \<and> 2 ^ 32 \<le> be_nat (take 4 (drop 44 buf)) * 1000
      \<or> buf ! 5 = 0 \<and> (\<exists>ctx. parse_bgp_update_with_context X (drop 48 buf) ctx = Panic))"
proof (intro conjI allI impI)
  fix p assume "parse_bmp_message_with_peer_context X buf sp m resolve = Ok p"
  from parse_bmp_message_accepts [OF this]
  show "length buf = be_nat (take 4 (drop 1 buf))" "6 \<le> length buf" "length buf \<le> unat m" "buf ! 0 = 3"
    by blast+
next
  assume "parse_bmp_message_with_peer_context X buf sp m resolve = Panic"
  from parse_bmp_message_Panic [OF this]
  show "48 \<le> length buf \<and> overflow_checks X \<and> 2 ^ 32 \<le> be_nat (take 4 (drop 44 buf)) * 1000
      \<or> buf ! 5 = 0 \<and> (\<exists>ctx. parse_bgp_update_with_context X (drop 48 buf) ctx = Panic)"
  proof
    assume "parse_peer_header X (drop 6 buf) = Panic"
    from parse_peer_header_Panic [OF this]
    have "48 \<le> length buf" "overflow_checks X" "2 ^ 32 \<le> be_nat (take 4 (drop 44 buf)) * 1000" by auto
    then show ?thesis by blast
  qed blast
qed

theorem bmp_message_framing_and_panics_witness:
  "parse_bmp_message_with_peer_context documented_externals [3, 0, 0, 0, 6, 4] (IpV4 0) 65535 (\<lambda>_. default_context)
      = Ok (Initiation None None [])
   \<and> length [3, 0, 0, 0, 6, 4 :: u8] = be_nat (take 4 (drop 1 [3, 0, 0, 0, 6, 4]))"
proof -
  have "parse_bmp_message_with_peer_context documented_externals [3, 0, 0, 0, 6, 4] (IpV4 0) 65535 (\<lambda>_. default_context)
      = Ok (Initiation None None [])"
    by (simp add: parse_bmp_message_with_peer_context_def validate_bmp_header_def reads from_be_bytes_def be_nat_def
        bmp_msg_type_try_from_def parse_initiation_def parse_initiation_tlvs_def)
  moreover note bmp_message_framing_and_panics [of documented_externals "[3, 0, 0, 0, 6, 4]" "IpV4 0" 65535
      "\<lambda>_. default_context"]
  ultimately show ?thesis by blast
qed

lemma route_monitoring_wire:
  assumes "chrono X" and "peer_header_ok h secs micros"
    and "parse_bgp_update_with_context X upd (ctx\<lparr>four_byte_asn := \<not> flag_as2 (peer_flags h)\<rparr>) = Ok u"
    and "48 + length upd \<le> unat m"
  shows "parse_bmp_message_with_context X (bmp_wire 0 (peer_header_wire h secs micros @ upd)) sp m ctx
      = Ok (RouteMonitoring h u)"
proof -
  have "bmp_msg_type_try_from 0 = Ok RouteMonitoringType" by (simp add: bmp_msg_type_try_from_def)
  moreover have "6 + length (peer_header_wire h secs micros @ upd) \<le> unat m"
    using assms(4) length_peer_header_wire [OF assms(2)] by simp
  moreover have u: "23 \<le> length upd" "take 16 upd = replicate 16 0xFF"
    using parse_update_accepts [OF assms(3)] by blast+
  then have "find_path_status_tlv upd path_status_tlv_type = None"
    by (simp add: find_path_status_tlv_def list_all_iff)
  with u(1) have "parse_route_monitoring X (peer_header_wire h secs micros @ upd) (\<lambda>_. ctx) = Ok (RouteMonitoring h u)"
    by (simp add: parse_route_monitoring_def parse_peer_header_wire [OF assms(1, 2)] assms(3))
  ultimately show ?thesis
    by (simp only: parse_bmp_message_with_context_def bmp_wire_parse parse_bmp_body.simps)
qed

lemma open_pdu_front:
  assumes "parse_bgp_open p = Ok i"
  shows "parse_bgp_open_pdu (p @ r) = Ok i" "bgp_open_pdu_len (p @ r) = Ok (length p)"
proof -
  from parse_bgp_open_accepts [OF assms]
  have n: "length p = be_nat (take 2 (drop 16 p))" "29 \<le> length p" "length p \<le> 4096" by blast+
  have "be16_at (p @ r) 16 = (Ok (from_be_bytes (take 2 (drop 16 p))) :: u16 result)"
    using n(2) by (simp add: reads)
  moreover have "unat (from_be_bytes (take 2 (drop 16 p)) :: u16) = length p"
    by (rule trans [OF _ n(1) [symmetric]]) (simp add: unat_from_be_bytes)
  ultimately show "parse_bgp_open_pdu (p @ r) = Ok i" "bgp_open_pdu_len (p @ r) = Ok (length p)"
    using n(2, 3) assms by (simp_all add: parse_bgp_open_pdu_def bgp_open_pdu_len_def Let_def slice_def)
qed

lemma peer_up_wire:
  assumes "chrono X" and "peer_header_ok h secs micros"
    and "parse_bgp_open o1 = Ok i1" and "parse_bgp_open o2 = Ok i2" and "68 + length o1 + length o2 \<le> unat m"
    and "(case a of IpV4 _ \<Rightarrow> \<not> flag_ipv6 (peer_flags h) | IpV6 _ \<Rightarrow> flag_ipv6 (peer_flags h))"
  shows "parse_bmp_message_with_context X (bmp_wire 3 (peer_header_wire h secs micros @ peer_addr_wire a
        @ to_be_bytes 2 lp @ to_be_bytes 2 rp @ o1 @ o2)) sp m ctx
      = Ok (PeerUp \<lparr>pu_header = h, local_addr = a, local_port = lp, remote_port = rp, sent_open = i1, recv_open = i2\<rparr>)"
proof -
  have addr: "length (peer_addr_wire a) = 16" by (simp add: peer_addr_wire_def split: ip_addr.split)
  have "bmp_msg_type_try_from 3 = Ok PeerUpType" by (simp add: bmp_msg_type_try_from_def)
  moreover have "6 + length (peer_header_wire h secs micros @ peer_addr_wire a @ to_be_bytes 2 lp @ to_be_bytes 2 rp
      @ o1 @ o2) \<le> unat m" using assms(5) length_peer_header_wire [OF assms(2)] addr by simp
  moreover have "parse_peer_up X (peer_header_wire h secs micros @ peer_addr_wire a @ to_be_bytes 2 lp @ to_be_bytes 2 rp
      @ o1 @ o2) = Ok (PeerUp \<lparr>pu_header = h, local_addr = a, local_port = lp, remote_port = rp, sent_open = i1,
        recv_open = i2\<rparr>)"
    using assms(6) addr open_pdu_front [OF assms(3), of o2] open_pdu_front [OF assms(4), of "[]"]
    by (cases a) (simp_all add: parse_peer_up_def parse_peer_header_wire [OF assms(1, 2)] reads peer_addr_wire_def
        parse_initiation_tlvs_def)
  ultimately show ?thesis
    by (simp only: parse_bmp_message_with_context_def bmp_wire_parse parse_bmp_body.simps)
qed

text \<open>C15: Route Monitoring and Peer Up messages round-trip: behind the wire form of a per-peer header, an UPDATE that
  parses under the AS number width of the header's A flag, or two OPENs that parse, come out with the header, the
  addresses and the ports they were sent with.\<close>

theorem bmp_messages_roundtrip:
  assumes "chrono X" and "peer_header_ok h secs micros"
    and "parse_bgp_update_with_context X upd (ctx\<lparr>four_byte_asn := \<not> flag_as2 (peer_flags h)\<rparr>) = Ok u"
    and "48 + length upd \<le> unat m"
    and "parse_bgp_open o1 = Ok i1" and "parse_bgp_open o2 = Ok i2" and "68 + length o1 + length o2 \<le> unat m"
    and "(case a of IpV4 _ \<Rightarrow> \<not> flag_ipv6 (peer_flags h) | IpV6 _ \<Rightarrow> flag_ipv6 (peer_flags h))"
  shows "parse_bmp_message_with_context X (bmp_wire 0 (peer_header_wire h secs micros @ upd)) sp m ctx
      = Ok (RouteMonitoring h u)
   \<and> parse_bmp_message_with_context X (bmp_wire 3 (peer_header_wire h secs micros @ peer_addr_wire a
        @ to_be_bytes 2 lp @ to_be_bytes 2 rp @ o1 @ o2)) sp m ctx
      = Ok (PeerUp \<lparr>pu_header = h, local_addr = a, local_port = lp, remote_port = rp, sent_open = i1, recv_open = i2\<rparr>)"
  using route_monitoring_wire [OF assms(1-4)] peer_up_wire [OF assms(1, 2, 5-8)] by blast

text \<open>A header, an UPDATE and an OPEN to evaluate on.\<close>

definition sample_header :: peer_header where
  "sample_header = \<lparr>peer_type = GlobalInstance, peer_flags = 0, peer_distinguisher = replicate 8 0,
     peer_address = IpV4 0x0A000001, peer_as = 65001, peer_bgp_id = 1, hdr_timestamp = 5000007000,
     hdr_rib_type = AdjRibInPrePolicy\<rparr>"

definition sample_open :: bytes where
  "sample_open = replicate 16 0xFF @ [0, 29, 1, 4, 0, 1, 0, 90, 1, 1, 1, 1, 0]"

lemma sample_header_ok: "peer_header_ok sample_header 5 7"
  by (simp add: peer_header_ok_def sample_header_def rib_type_from_peer_def flag_ipv6_def flag_adj_rib_out_def
      flag_post_policy_def)

lemma sample_open_parse: "parse_bgp_open sample_open
    = Ok \<lparr>open_version = 4, open_asn = 1, hold_time = 90, bgp_id = 0x01010101, capabilities = []\<rparr>"
  by (simp add: sample_open_def parse_bgp_open_def reads Let_def from_be_bytes_def be_nat_def)

lemma sample_update_parse:
  "\<exists>u. parse_bgp_update_with_context X (update_message (prefixed [] @ prefixed [] @ [])) ctx = Ok u"
  using update_message_Ok [of "[]" "[]" "[]" X ctx "[]" default_attributes "[]"] by (simp add: attributes_none)

lemma length_empty_update: "length (update_message (prefixed [] @ prefixed [] @ [])) = 23"
  by (simp add: update_message_def prefixed_def)

theorem bmp_messages_roundtrip_witness:
  "\<exists>u i. parse_bmp_message_with_context documented_externals (bmp_wire 0 (peer_header_wire sample_header 5 7
        @ update_message (prefixed [] @ prefixed [] @ []))) (IpV4 1) 65535 default_context = Ok (RouteMonitoring sample_header u)
   \<and> parse_bmp_message_with_context documented_externals (bmp_wire 3 (peer_header_wire sample_header 5 7
        @ peer_addr_wire (IpV4 9) @ to_be_bytes 2 (179 :: u16) @ to_be_bytes 2 (40000 :: u16) @ sample_open @ sample_open)) (IpV4 1) 65535
        default_context
      = Ok (PeerUp \<lparr>pu_header = sample_header, local_addr = IpV4 9, local_port = 179, remote_port = 40000,
          sent_open = i, recv_open = i\<rparr>)"
proof -
  obtain u where u: "parse_bgp_update_with_context documented_externals (update_message (prefixed [] @ prefixed [] @ []))
      (default_context\<lparr>four_byte_asn := \<not> flag_as2 (peer_flags sample_header)\<rparr>) = Ok u"
    using sample_update_parse by blast
  have len: "48 + length (update_message (prefixed [] @ prefixed [] @ [])) \<le> unat (65535 :: u32)"
    "68 + length sample_open + length sample_open \<le> unat (65535 :: u32)"
    unfolding length_empty_update by (simp_all add: sample_open_def)
  have a: "case IpV4 9 of IpV4 _ \<Rightarrow> \<not> flag_ipv6 (peer_flags sample_header) | IpV6 _ \<Rightarrow> flag_ipv6 (peer_flags sample_header)"
    by (simp add: sample_header_def flag_ipv6_def)
  from bmp_messages_roundtrip [OF doc_chrono.chrono_axioms sample_header_ok u len(1) sample_open_parse sample_open_parse
      len(2) a, of "IpV4 1" 179 40000]
  show ?thesis by blast
qed

lemma parse_bmp_body_monitoring:
  assumes "parse_bmp_body X resolve mt body = Ok (RouteMonitoring h u)"
  shows "parse_route_monitoring X body resolve = Ok (RouteMonitoring h u)"
  using assms
  by (cases mt) (auto simp: parse_initiation_def parse_termination_def parse_peer_up_def parse_peer_down_def
      parse_stats_report_def parse_route_mirroring_def and_then_Ok_iff Let_def split_beta split: if_splits)

text \<open>C38: The Path Status TLV is never attached: an UPDATE that parses starts with the all-ones marker, which the TLV scan
  refuses to read, so every Route Monitoring message comes out without a path status.\<close>

theorem path_status_never_set:
  assumes "parse_bmp_message_with_peer_context X buf sp m resolve = Ok (RouteMonitoring h u)"
  shows "path_status (attributes u) = None"
proof -
  from assms obtain mt where "parse_bmp_body X resolve mt (drop 6 buf) = Ok (RouteMonitoring h u)"
    unfolding parse_bmp_message_cases by (auto split: outcome.splits if_splits)
  then have "parse_route_monitoring X (drop 6 buf) resolve = Ok (RouteMonitoring h u)"
    by (rule parse_bmp_body_monitoring)
  then obtain rest ctx v where v: "parse_bgp_update_with_context X rest ctx = Ok v"
      and u: "u = (case find_path_status_tlv rest path_status_tlv_type of
          Some ps \<Rightarrow> v\<lparr>attributes := (attributes v)\<lparr>path_status := Some ps\<rparr>\<rparr> | None \<Rightarrow> v)"
    by (auto simp: parse_route_monitoring_def and_then_Ok_iff Let_def split: if_splits)
  from parse_update_accepts [OF v]
  have "16 \<le> length rest" "take 16 rest = replicate 16 0xFF" "parse_update_body X (drop 19 rest) ctx = Ok v" by linarith+
  then have "find_path_status_tlv rest path_status_tlv_type = None"
    by (simp add: find_path_status_tlv_def list_all_iff)
  moreover have "path_status (attributes v) = None"
    by (rule parse_update_body_OkE [OF \<open>parse_update_body X (drop 19 rest) ctx = Ok v\<close>])
      (rule parse_path_attributes_status)
  ultimately show ?thesis using u by simp
qed

theorem path_status_never_set_witness:
  "\<exists>u. parse_bmp_message_with_peer_context documented_externals (bmp_wire 0 (peer_header_wire sample_header 5 7
        @ update_message (prefixed [] @ prefixed [] @ []))) (IpV4 1) 65535 (\<lambda>_. default_context)
      = Ok (RouteMonitoring sample_header u) \<and> path_status (attributes u) = None"
proof -
  obtain u where u: "parse_bgp_update_with_context documented_externals (update_message (prefixed [] @ prefixed [] @ []))
      (default_context\<lparr>four_byte_asn := \<not> flag_as2 (peer_flags sample_header)\<rparr>) = Ok u"
    using sample_update_parse by blast
  have "48 + length (update_message (prefixed [] @ prefixed [] @ [])) \<le> unat (65535 :: u32)"
    unfolding length_empty_update by simp
  from route_monitoring_wire [OF doc_chrono.chrono_axioms sample_header_ok u this, of "IpV4 1"]
  have p: "parse_bmp_message_with_peer_context documented_externals (bmp_wire 0 (peer_header_wire sample_header 5 7
        @ update_message (prefixed [] @ prefixed [] @ []))) (IpV4 1) 65535 (\<lambda>_. default_context)
      = Ok (RouteMonitoring sample_header u)"
    unfolding parse_bmp_message_with_context_def .
  with path_status_never_set [OF p] show ?thesis by blast
qed

end
