(* ===== verification/Journal.thy ===== *)
theory Journal
  imports Rib_Manager Bmp_Parser
begin

text \<open>
  \<open>crates/rbmp-store/src/journal.rs\<close>: the two append-only journals, one JSON record per line. The BMP journal keeps
  what was received and is replayed into a RIB manager after a restart; the event journal keeps what the manager
  emitted. A file is its contents and the error that reading or writing it meets, if any (\<open>journal_file\<close>); a missing
  file or a journal that is not configured is \<open>None\<close>. The crate \<open>serde_json\<close> is a parameter, the record \<open>json\<close>, and
  what the journals rely on is \<open>json_ok\<close>: a serialized record is one line of UTF-8 text with a brace at both ends, and
  reading the line gives the record back as its own kind. When a replay fails the caller gives up the manager, so a
  failed replay has no state.
\<close>

section \<open>Records\<close>

record journal_transport_gap =
  gap_speaker_addr :: ip_addr
  gap_session_epoch :: "u64 option"
  gap_disconnected_at :: timestamp
  gap_reason :: string

record bmp_journal_observation =
  obs_message :: bmp_message
  obs_session_epoch :: "u64 option"
  obs_raw_frame_hex :: "string option"

datatype bmp_journal_control_record =
  TransportDisconnect ip_addr "u64 option" timestamp string

datatype parsed_bmp_journal_line =
    Observation bmp_journal_observation
  | Control bmp_journal_control_record

record replay_report =
  applied_messages :: nat
  skipped_truncated_tail :: nat

record replay_outcome =
  report :: replay_report
  emitted_events :: "rib_event list"
  transport_gaps :: "(ip_addr, journal_transport_gap) hmap"
  decode_contexts :: "(peer_key, bgp_decode_context) hmap"

record json =
  observation_to_vec :: "bmp_journal_observation \<Rightarrow> string + bytes"
  control_to_vec :: "bmp_journal_control_record \<Rightarrow> string + bytes"
  event_to_vec :: "rib_event \<Rightarrow> string + bytes"
  observation_from_str :: "string \<Rightarrow> string + bmp_journal_observation"
  control_from_str :: "string \<Rightarrow> string + bmp_journal_control_record"
  event_from_str :: "string \<Rightarrow> string + rib_event"

section \<open>Text\<close>

text \<open>\<open>std::str::from_utf8\<close>: the text, or the index of the first byte that is not valid UTF-8.\<close>

fun utf8_check :: "nat \<Rightarrow> bytes \<Rightarrow> nat option" where
  "utf8_check i [] = None"
| "utf8_check i (b # rest) = (let (n, ok) = utf8_scan b rest in
     if ok then utf8_check (i + n) (drop (n - 1) rest) else Some i)"

definition from_utf8 :: "bytes \<Rightarrow> nat + string" where
  "from_utf8 bs = (case utf8_check 0 bs of Some i \<Rightarrow> Inl i | None \<Rightarrow> Inr (map byte_char bs))"

fun contains :: "string \<Rightarrow> string \<Rightarrow> bool" where
  "contains [] pat = (pat = [])"
| "contains (c # s) pat = (take (length pat) (c # s) = pat \<or> contains s pat)"

definition record_kind_key :: string where
  "record_kind_key = CHR 0x22 # ''record_kind'' @ [CHR 0x22]"

definition parse_bmp_journal_line :: "json \<Rightarrow> string \<Rightarrow> string + parsed_bmp_journal_line" where
  "parse_bmp_journal_line J line =
     (case (if contains line record_kind_key then control_from_str J line else Inl []) of
        Inr ctrl \<Rightarrow> Inr (Control ctrl)
      | Inl _ \<Rightarrow> map_sum id Observation (observation_from_str J line))"

definition bytes_to_hex :: "bytes \<Rightarrow> string" where
  "bytes_to_hex bs = concat (map hex2 bs)"

text \<open>\<open>char::to_digit(16)\<close>\<close>

definition to_digit16 :: "char \<Rightarrow> nat option" where
  "to_digit16 c = (let n = of_char c :: nat in
     if 48 \<le> n \<and> n \<le> 57 then Some (n - 48)
     else if 97 \<le> n \<and> n \<le> 102 then Some (n - 87)
     else if 65 \<le> n \<and> n \<le> 70 then Some (n - 55) else None)"

fun hex_pairs :: "string \<Rightarrow> bytes option" where
  "hex_pairs (h # l # s) = (case (to_digit16 h, to_digit16 l) of
      (Some hi, Some lo) \<Rightarrow> map_option ((#) (word_of_nat (hi * 16 + lo))) (hex_pairs s)
    | _ \<Rightarrow> None)"
| "hex_pairs _ = Some []"

definition hex_to_bytes :: "string \<Rightarrow> bytes option" where
  "hex_to_bytes hex_str = (let s = trim hex_str in if length s mod 2 \<noteq> 0 then None else hex_pairs s)"

section \<open>Transport gaps\<close>

definition is_end_of_rib :: "bmp_payload \<Rightarrow> bool" where
  "is_end_of_rib p = (case p of RouteMonitoring _ u \<Rightarrow> eor_afi_safi u \<noteq> None | _ \<Rightarrow> False)"

definition should_clear_transport_gap :: "u64 option \<Rightarrow> u64 option \<Rightarrow> bmp_payload \<Rightarrow> bool" where
  "should_clear_transport_gap gap_epoch incoming_epoch p =
     (if (case (gap_epoch, incoming_epoch) of (Some g, Some inc) \<Rightarrow> inc < g | _ \<Rightarrow> False) then False
      else if (case p of Termination _ _ \<Rightarrow> True | _ \<Rightarrow> False) then True
      else if is_end_of_rib p then True
      else if (case p of Initiation _ _ _ \<Rightarrow> True | PeerUp _ \<Rightarrow> True | _ \<Rightarrow> False) then
        (case (gap_epoch, incoming_epoch) of
           (Some g, Some inc) \<Rightarrow> g < inc
         | (None, Some _) \<Rightarrow> True
         | _ \<Rightarrow> False)
      else False)"

section \<open>Files\<close>

record journal_file =
  contents :: bytes
  read_error :: "string option"
  write_error :: "string option"

datatype journal_error =
    CorruptedUtf8 (line_no: nat) (valid_up_to: nat)
  | CorruptedRecord (line_no: nat) string
  | JsonError string
  | FileError string

definition file_write :: "(bytes \<Rightarrow> bytes) \<Rightarrow> journal_file \<Rightarrow> (journal_error, journal_file) outcome" where
  "file_write f jf = (case write_error jf of Some e \<Rightarrow> Err (FileError e) | None \<Rightarrow> Ok (jf\<lparr>contents := f (contents jf)\<rparr>))"

definition truncate_file_to_len :: "nat \<Rightarrow> journal_file \<Rightarrow> (journal_error, journal_file) outcome" where
  "truncate_file_to_len valid_len = file_write (take valid_len)"

definition append_newline_and_sync :: "journal_file \<Rightarrow> (journal_error, journal_file) outcome" where
  "append_newline_and_sync = file_write (\<lambda>c. c @ [10])"

section \<open>Scanning a journal\<close>

text \<open>The loop both journals share. A line that ends in a newline must be a record or blank; what stands behind the
  last newline is the tail, which is examined but not applied here. The position reached by the loop is the length of
  the lines, returned with the tail.\<close>

datatype 'l journal_tail = NoTail | BlankTail | RecordTail 'l | TornTail

fun newline_at :: "bytes \<Rightarrow> nat option" where
  "newline_at [] = None"
| "newline_at (b # bs) = (if b = 10 then Some 0 else map_option Suc (newline_at bs))"

definition read_line :: "(string \<Rightarrow> string + 'l) \<Rightarrow> nat \<Rightarrow> bytes \<Rightarrow> (journal_error, 'l option) outcome" where
  "read_line parse line_idx bs = (case from_utf8 bs of
     Inl i \<Rightarrow> Err (CorruptedUtf8 (line_idx + 1) i)
   | Inr s \<Rightarrow> if trim s = [] then Ok None else
       (case parse (trim s) of Inl e \<Rightarrow> Err (CorruptedRecord (line_idx + 1) e) | Inr l \<Rightarrow> Ok (Some l)))"

definition read_tail :: "(string \<Rightarrow> string + 'l) \<Rightarrow> bytes \<Rightarrow> 'l journal_tail" where
  "read_tail parse bs = (case from_utf8 bs of
     Inl _ \<Rightarrow> TornTail
   | Inr s \<Rightarrow> if trim s = [] then BlankTail else
       (case parse (trim s) of Inl _ \<Rightarrow> TornTail | Inr l \<Rightarrow> RecordTail l))"

lemma newline_at_less: "newline_at bs = Some n \<Longrightarrow> n < length bs"
  by (induction bs arbitrary: n) (auto split: if_splits)

function scan_lines ::
  "(string \<Rightarrow> string + 'l) \<Rightarrow> ('l \<Rightarrow> 's \<Rightarrow> (journal_error, 's) outcome) \<Rightarrow> nat \<Rightarrow> bytes \<Rightarrow> 's
    \<Rightarrow> (journal_error, 's \<times> nat \<times> 'l journal_tail) outcome" where
  "scan_lines parse apply_line line_idx bs st =
     (if bs = [] then Ok (st, 0, NoTail) else
      case newline_at bs of
        None \<Rightarrow> Ok (st, 0, read_tail parse bs)
      | Some n \<Rightarrow>
          and_then (read_line parse line_idx (take n bs)) (\<lambda>rec.
          and_then (case rec of None \<Rightarrow> Ok st | Some l \<Rightarrow> apply_line l st) (\<lambda>st.
          and_then (scan_lines parse apply_line (Suc line_idx) (drop (Suc n) bs) st) (\<lambda>(st, len, tail).
          Ok (st, Suc n + len, tail)))))"
  by pat_completeness auto
termination
  by (relation "measure (\<lambda>(p, a, i, bs, st). length bs)") (auto dest: newline_at_less)

declare scan_lines.simps [simp del]

section \<open>The BMP journal\<close>

definition append_bytes :: "string + bytes \<Rightarrow> journal_file option \<Rightarrow> (journal_error, journal_file option) outcome" where
  "append_bytes line f = (case f of
     None \<Rightarrow> Ok None
   | Some jf \<Rightarrow> (case line of
         Inl e \<Rightarrow> Err (JsonError e)
       | Inr bs \<Rightarrow> and_then (file_write (\<lambda>c. c @ bs @ [10]) jf) (\<lambda>jf. Ok (Some jf))))"

definition append_observation ::
  "json \<Rightarrow> bmp_message \<Rightarrow> u64 option \<Rightarrow> bytes option \<Rightarrow> journal_file option \<Rightarrow> (journal_error, journal_file option) outcome" where
  "append_observation J msg epoch raw_frame =
     append_bytes (observation_to_vec J \<lparr>obs_message = msg, obs_session_epoch = epoch,
       obs_raw_frame_hex = map_option bytes_to_hex raw_frame\<rparr>)"

definition bmp_append :: "json \<Rightarrow> bmp_message \<Rightarrow> journal_file option \<Rightarrow> (journal_error, journal_file option) outcome" where
  "bmp_append J msg = append_observation J msg None None"

definition append_transport_disconnect ::
  "json \<Rightarrow> journal_transport_gap \<Rightarrow> journal_file option \<Rightarrow> (journal_error, journal_file option) outcome" where
  "append_transport_disconnect J gap =
     append_bytes (control_to_vec J (TransportDisconnect (gap_speaker_addr gap) (gap_session_epoch gap)
       (gap_disconnected_at gap) (gap_reason gap)))"

text \<open>What a replay threads through the lines.\<close>

record replay_state =
  rs_rib :: rib_manager
  rs_applied :: nat
  rs_events :: "rib_event list"
  rs_gaps :: "(ip_addr, journal_transport_gap) hmap"
  rs_contexts :: "(peer_key, bgp_decode_context) hmap"

definition DEFAULT_MAX_FRAME :: u32 where
  "DEFAULT_MAX_FRAME = 65535"

text \<open>The context a frame is decoded in: that of the peer for a Route Monitoring frame.\<close>

definition frame_context ::
  "externals \<Rightarrow> ip_addr \<Rightarrow> bytes \<Rightarrow> (peer_key, bgp_decode_context) hmap \<Rightarrow> (error, bgp_decode_context) outcome" where
  "frame_context X speaker frame ctxs =
     (if 48 \<le> length frame \<and> frame ! 0 = 3 \<and> frame ! 5 = 0
      then (case parse_peer_header X (drop 6 frame) of
          Ok (hdr, _) \<Rightarrow> Ok (case hm_get ctxs (peer_key_from_header speaker hdr) of
              Some ctx \<Rightarrow> ctx | None \<Rightarrow> context_new (flag_four_byte_asn (peer_flags hdr)))
        | Err _ \<Rightarrow> Ok default_context
        | Panic \<Rightarrow> Panic)
      else Ok default_context)"

definition redecode ::
  "externals \<Rightarrow> string option \<Rightarrow> (peer_key, bgp_decode_context) hmap \<Rightarrow> bmp_message \<Rightarrow> (journal_error, bmp_message) outcome" where
  "redecode X raw_frame ctxs msg = (case Option.bind raw_frame hex_to_bytes of
     None \<Rightarrow> Ok msg
   | Some frame \<Rightarrow> (case and_then (frame_context X (speaker_addr msg) frame ctxs)
          (parse_bmp_message_with_context X frame (speaker_addr msg) DEFAULT_MAX_FRAME) of
        Ok p \<Rightarrow> Ok (msg\<lparr>payload := p\<rparr>)
      | Err _ \<Rightarrow> Ok msg
      | Panic \<Rightarrow> Panic))"

text \<open>\<open>decode_contexts.insert\<close> for a Peer Up message.\<close>

definition learn_context ::
  "ip_addr \<Rightarrow> bmp_payload \<Rightarrow> (peer_key, bgp_decode_context) hmap \<Rightarrow> (peer_key, bgp_decode_context) hmap" where
  "learn_context speaker p ctxs = (case p of
     PeerUp pu \<Rightarrow> hm_insert (peer_key_from_header speaker (pu_header pu))
       (from_negotiated_open (flag_four_byte_asn (peer_flags (pu_header pu)))
         (capabilities (sent_open pu)) (capabilities (recv_open pu))) ctxs
   | _ \<Rightarrow> ctxs)"

definition speaker_epoch :: "rib_manager \<Rightarrow> ip_addr \<Rightarrow> u64 option" where
  "speaker_epoch m a = map_option (\<lambda>s. session_epoch (bs_source s)) (speaker_of a m)"

definition clear_gap ::
  "ip_addr \<Rightarrow> u64 option \<Rightarrow> bmp_payload \<Rightarrow> (ip_addr, journal_transport_gap) hmap \<Rightarrow> (ip_addr, journal_transport_gap) hmap" where
  "clear_gap speaker epoch p gaps = (case hm_get gaps speaker of
     Some g \<Rightarrow> if should_clear_transport_gap (gap_session_epoch g) epoch p then hm_remove speaker gaps else gaps
   | None \<Rightarrow> gaps)"

definition or_else :: "'a option \<Rightarrow> 'a option \<Rightarrow> 'a option" where
  "or_else a b = (case a of Some _ \<Rightarrow> a | None \<Rightarrow> b)"

definition apply_observation ::
  "externals \<Rightarrow> filter_externals \<Rightarrow> bmp_journal_observation \<Rightarrow> replay_state \<Rightarrow> (journal_error, replay_state) outcome" where
  "apply_observation X E obs st =
     and_then (redecode X (obs_raw_frame_hex obs) (rs_contexts st) (obs_message obs)) (\<lambda>msg.
     let speaker = speaker_addr msg;
         ctxs = learn_context speaker (payload msg) (rs_contexts st);
         epoch = or_else (obs_session_epoch obs) (speaker_epoch (rs_rib st) speaker);
         gaps = clear_gap speaker epoch (payload msg) (rs_gaps st);
         (events, rib) = process_for_epoch E msg (obs_session_epoch obs) (rs_rib st)
     in Ok \<lparr>rs_rib = rib, rs_applied = rs_applied st + 1, rs_events = rs_events st @ events,
            rs_gaps = gaps, rs_contexts = ctxs\<rparr>)"

definition stale_disconnect :: "u64 option \<Rightarrow> u64 option \<Rightarrow> bool" where
  "stale_disconnect disc active = (case (disc, active) of (Some d, Some a) \<Rightarrow> d < a | _ \<Rightarrow> False)"

fun apply_control :: "bmp_journal_control_record \<Rightarrow> replay_state \<Rightarrow> replay_state" where
  "apply_control (TransportDisconnect speaker epoch disconnected_at0 reason0) st =
     (let active = speaker_epoch (rs_rib st) speaker in
      if stale_disconnect epoch active then st
      else st\<lparr>rs_rib := clear_speaker_eor speaker (rs_rib st),
              rs_gaps := hm_insert speaker \<lparr>gap_speaker_addr = speaker, gap_session_epoch = or_else epoch active,
                gap_disconnected_at = disconnected_at0, gap_reason = reason0\<rparr> (rs_gaps st)\<rparr>)"

fun apply_parsed_line ::
  "externals \<Rightarrow> filter_externals \<Rightarrow> parsed_bmp_journal_line \<Rightarrow> replay_state \<Rightarrow> (journal_error, replay_state) outcome" where
  "apply_parsed_line X E (Observation obs) st = apply_observation X E obs st"
| "apply_parsed_line X E (Control c) st = Ok (apply_control c st)"

definition replay_start :: "rib_manager \<Rightarrow> replay_state" where
  "replay_start m = \<lparr>rs_rib = m, rs_applied = 0, rs_events = [], rs_gaps = hm_empty, rs_contexts = hm_empty\<rparr>"

definition outcome_of :: "nat \<Rightarrow> replay_state \<Rightarrow> replay_outcome" where
  "outcome_of skipped st = \<lparr>report = \<lparr>applied_messages = rs_applied st, skipped_truncated_tail = skipped\<rparr>,
     emitted_events = rs_events st, transport_gaps = rs_gaps st, decode_contexts = rs_contexts st\<rparr>"

text \<open>The result, the manager and the repaired file.\<close>

definition replay_into_with_state ::
  "externals \<Rightarrow> filter_externals \<Rightarrow> json \<Rightarrow> journal_file \<Rightarrow> rib_manager
    \<Rightarrow> (journal_error, replay_outcome \<times> rib_manager \<times> journal_file) outcome" where
  "replay_into_with_state X E J jf m = (case read_error jf of
     Some e \<Rightarrow> Err (FileError e)
   | None \<Rightarrow>
      if contents jf = [] then Ok (outcome_of 0 (replay_start m), m, jf) else
      and_then (scan_lines (parse_bmp_journal_line J) (apply_parsed_line X E) 0 (contents jf) (replay_start m))
        (\<lambda>(st, valid_len, tail). case tail of
           NoTail \<Rightarrow> Ok (outcome_of 0 st, rs_rib st, jf)
         | BlankTail \<Rightarrow> and_then (truncate_file_to_len valid_len jf) (\<lambda>jf. Ok (outcome_of 0 st, rs_rib st, jf))
         | RecordTail l \<Rightarrow>
             and_then (append_newline_and_sync jf) (\<lambda>jf.
             and_then (apply_parsed_line X E l st) (\<lambda>st. Ok (outcome_of 0 st, rs_rib st, jf)))
         | TornTail \<Rightarrow> and_then (truncate_file_to_len valid_len jf) (\<lambda>jf. Ok (outcome_of 1 st, rs_rib st, jf))))"

definition replay_into ::
  "externals \<Rightarrow> filter_externals \<Rightarrow> json \<Rightarrow> journal_file \<Rightarrow> rib_manager
    \<Rightarrow> (journal_error, replay_report \<times> rib_manager \<times> journal_file) outcome" where
  "replay_into X E J jf m =
     and_then (replay_into_with_state X E J jf m) (\<lambda>(out, m, jf). Ok (report out, m, jf))"

definition new_file :: journal_file where
  "new_file = \<lparr>contents = [], read_error = None, write_error = None\<rparr>"

text \<open>Opening replays an existing file into a manager of its own, for the repair of the tail. The argument tells whether
  a path is configured, and the file at that path if there is one.\<close>

definition bmp_journal_open ::
  "externals \<Rightarrow> filter_externals \<Rightarrow> json \<Rightarrow> journal_file option option \<Rightarrow> (journal_error, journal_file option) outcome" where
  "bmp_journal_open X E J path = (case path of
     None \<Rightarrow> Ok None
   | Some None \<Rightarrow> Ok (Some new_file)
   | Some (Some jf) \<Rightarrow> and_then (replay_into_with_state X E J jf rib_manager_new) (\<lambda>(_, _, jf). Ok (Some jf)))"

section \<open>The event journal\<close>

record rib_event_journal =
  rj_file :: "journal_file option"
  rj_events :: "rib_event list"

text \<open>A file that cannot be read counts as empty.\<close>

definition scan_events :: "json \<Rightarrow> journal_file \<Rightarrow> (journal_error, rib_event list \<times> journal_file) outcome" where
  "scan_events J jf =
     (let raw_frame = (if read_error jf = None then contents jf else []) in
      and_then (scan_lines (event_from_str J) (\<lambda>ev evs. Ok (evs @ [ev])) 0 raw_frame []) (\<lambda>(evs, valid_len, tail).
      case tail of
        NoTail \<Rightarrow> Ok (evs, jf)
      | BlankTail \<Rightarrow> and_then (truncate_file_to_len valid_len jf) (\<lambda>jf. Ok (evs, jf))
      | RecordTail ev \<Rightarrow> and_then (append_newline_and_sync jf) (\<lambda>jf. Ok (evs @ [ev], jf))
      | TornTail \<Rightarrow> and_then (truncate_file_to_len valid_len jf) (\<lambda>jf. Ok (evs, jf))))"

definition event_journal_open ::
  "json \<Rightarrow> journal_file option option \<Rightarrow> (journal_error, rib_event_journal) outcome" where
  "event_journal_open J path = (case path of
     None \<Rightarrow> Ok \<lparr>rj_file = None, rj_events = []\<rparr>
   | Some None \<Rightarrow> Ok \<lparr>rj_file = Some new_file, rj_events = []\<rparr>
   | Some (Some jf) \<Rightarrow> and_then (scan_events J jf) (\<lambda>(evs, jf). Ok \<lparr>rj_file = Some jf, rj_events = evs\<rparr>))"

fun batch_bytes :: "json \<Rightarrow> rib_event list \<Rightarrow> string + bytes" where
  "batch_bytes J [] = Inr []"
| "batch_bytes J (ev # evs) = (case event_to_vec J ev of
     Inl e \<Rightarrow> Inl e
   | Inr bs \<Rightarrow> map_sum id (\<lambda>rest. bs @ [10] @ rest) (batch_bytes J evs))"

definition append_batch ::
  "json \<Rightarrow> rib_event list \<Rightarrow> rib_event_journal \<Rightarrow> (journal_error, rib_event_journal) outcome" where
  "append_batch J evs j =
     (if evs = [] then Ok j else
      and_then (case rj_file j of
          None \<Rightarrow> Ok None
        | Some jf \<Rightarrow> (case batch_bytes J evs of
              Inl e \<Rightarrow> Err (JsonError e)
            | Inr bs \<Rightarrow> and_then (file_write (\<lambda>c. c @ bs) jf) (\<lambda>jf. Ok (Some jf)))) (\<lambda>f.
      Ok \<lparr>rj_file = f, rj_events = rj_events j @ evs\<rparr>))"

definition event_append :: "json \<Rightarrow> rib_event \<Rightarrow> rib_event_journal \<Rightarrow> (journal_error, rib_event_journal) outcome" where
  "event_append J ev = append_batch J [ev]"

definition existing_sequences :: "rib_event_journal \<Rightarrow> u64 set" where
  "existing_sequences j = (\<lambda>e. ek_sequence (ev_key e)) ` set (rj_events j)"

definition latest_seq :: "rib_event_journal \<Rightarrow> u64" where
  "latest_seq j = (if rj_events j = [] then 0 else ek_sequence (ev_key (last (rj_events j))))"

definition total_events :: "rib_event_journal \<Rightarrow> nat" where
  "total_events j = length (rj_events j)"

definition events_after_seq :: "u64 \<Rightarrow> nat \<Rightarrow> rib_event_journal \<Rightarrow> rib_event list" where
  "events_after_seq after_seq limit j = take limit (filter (\<lambda>e. after_seq < ek_sequence (ev_key e)) (rj_events j))"

section \<open>Prefix history\<close>

record prefix_history_item =
  ph_sequence :: u64
  ph_event_id :: "128 word"
  ph_occurred_at :: timestamp
  ph_speaker_addr :: ip_addr
  ph_peer_addr :: ip_addr
  ph_peer_as :: u32
  ph_peer_distinguisher :: string
  ph_rib_type :: string
  ph_action :: string
  ph_prefix :: string
  ph_path_id :: "u32 option"
  before_attributes :: "path_attributes option"
  after_attributes :: "path_attributes option"

fun debug_rib_type :: "rib_type \<Rightarrow> string" where
  "debug_rib_type AdjRibInPrePolicy = ''AdjRibInPrePolicy''"
| "debug_rib_type AdjRibInPostPolicy = ''AdjRibInPostPolicy''"
| "debug_rib_type LocRib = ''LocRib''"
| "debug_rib_type LocRibFiltered = ''LocRibFiltered''"
| "debug_rib_type AdjRibOutPrePolicy = ''AdjRibOutPrePolicy''"
| "debug_rib_type AdjRibOutPostPolicy = ''AdjRibOutPostPolicy''"

text \<open>A filter that is absent or blank matches everything.\<close>

definition text_filter :: "string option \<Rightarrow> string \<Rightarrow> bool" where
  "text_filter flt s = (case flt of None \<Rightarrow> True | Some t \<Rightarrow> trim t = [] \<or> s = trim t)"

definition after_change :: "route_change \<Rightarrow> path_attributes option" where
  "after_change rc = (case rch_action rc of Announce \<Rightarrow> rch_attributes rc | Withdraw \<Rightarrow> None)"

definition history_item ::
  "rib_event \<Rightarrow> route_change \<Rightarrow> string \<Rightarrow> path_attributes option \<Rightarrow> prefix_history_item" where
  "history_item ev rc pfx prev = \<lparr>ph_sequence = ek_sequence (ev_key ev), ph_event_id = ev_id ev,
     ph_occurred_at = ev_occurred_at ev, ph_speaker_addr = ev_speaker ev,
     ph_peer_addr = peer_address (rch_peer_header rc), ph_peer_as = peer_as (rch_peer_header rc),
     ph_peer_distinguisher = distinguisher_string (rch_peer_key rc), ph_rib_type = debug_rib_type (rch_rib_type rc),
     ph_action = (case rch_action rc of Announce \<Rightarrow> ''announce'' | Withdraw \<Rightarrow> ''withdraw''),
     ph_prefix = pfx, ph_path_id = rch_path_id rc, before_attributes = prev, after_attributes = after_change rc\<rparr>"

text \<open>The loop over the events: the attributes each route last had, and the items so far. Printing the prefix is where
  the loop can panic.\<close>

fun history_loop ::
  "string \<Rightarrow> string option \<Rightarrow> string option \<Rightarrow> rib_event list \<Rightarrow> (route_key, path_attributes option) hmap
    \<Rightarrow> prefix_history_item list result" where
  "history_loop pfx spk rd [] lasts = Ok []"
| "history_loop pfx spk rd (ev # evs) lasts = (case ev_payload ev of
     RouteChangeEvent rc \<Rightarrow>
       and_then (prefix_string (rch_prefix rc)) (\<lambda>p.
       let prev = Option.bind (hm_get lasts (rch_route_key rc)) (\<lambda>a. a);
           lasts' = hm_insert (rch_route_key rc) (after_change rc) lasts
       in and_then (history_loop pfx spk rd evs lasts') (\<lambda>items.
          if p = pfx \<and> text_filter spk (ip_string (ev_speaker ev))
             \<and> text_filter rd (distinguisher_string (rch_peer_key rc))
          then Ok (history_item ev rc p prev # items) else Ok items))
   | _ \<Rightarrow> history_loop pfx spk rd evs lasts)"

definition prefix_history_filtered ::
  "string \<Rightarrow> string option \<Rightarrow> string option \<Rightarrow> nat \<Rightarrow> rib_event_journal \<Rightarrow> prefix_history_item list result" where
  "prefix_history_filtered pfx spk rd limit j =
     and_then (history_loop pfx spk rd (rj_events j) hm_empty) (\<lambda>items. Ok (take limit (rev items)))"

definition prefix_history :: "string \<Rightarrow> nat \<Rightarrow> rib_event_journal \<Rightarrow> prefix_history_item list result" where
  "prefix_history pfx limit j = prefix_history_filtered pfx None None limit j"

end
