(* ===== verification/Journal_Laws.thy ===== *)
theory Journal_Laws
  imports Journal
begin

text \<open>
  What the journals guarantee. \<open>line_codec\<close> is what a journal needs of its record format: a record is one line, a line
  is read back as its record, and no proper prefix of a line is a record. It follows from \<open>json_ok\<close> for both journals.
  The laws are about a file that holds the lines of some records, perhaps followed by what was written of another one
  when the process died: a replay is the application of the records in order, and it leaves a file that holds exactly
  the lines of the records it applied.
\<close>

section \<open>The record format\<close>

definition json_line :: "bytes \<Rightarrow> bool" where
  "json_line bs \<longleftrightarrow> bs \<noteq> [] \<and> 10 \<notin> set bs \<and> utf8_check 0 bs = None \<and> hd bs = 0x7B \<and> last bs = 0x7D"

definition line_codec :: "('l \<Rightarrow> string + bytes) \<Rightarrow> (string \<Rightarrow> string + 'l) \<Rightarrow> bool" where
  "line_codec enc parse \<longleftrightarrow> (\<forall>l bs. enc l = Inr bs \<longrightarrow> json_line bs \<and> parse (map byte_char bs) = Inr l
     \<and> (\<forall>k < length bs. isl (parse (map byte_char (take k bs)))))"

fun line_bytes :: "json \<Rightarrow> parsed_bmp_journal_line \<Rightarrow> string + bytes" where
  "line_bytes J (Observation obs) = observation_to_vec J obs"
| "line_bytes J (Control c) = control_to_vec J c"

text \<open>A tagged record is told from an observation by its tag, and an unfinished JSON object is an error.\<close>

definition json_ok :: "json \<Rightarrow> bool" where
  "json_ok J \<longleftrightarrow>
     (\<forall>obs bs. observation_to_vec J obs = Inr bs \<longrightarrow> json_line bs
        \<and> observation_from_str J (map byte_char bs) = Inr obs \<and> isl (control_from_str J (map byte_char bs)))
   \<and> (\<forall>c bs. control_to_vec J c = Inr bs \<longrightarrow> json_line bs
        \<and> contains (map byte_char bs) record_kind_key \<and> control_from_str J (map byte_char bs) = Inr c)
   \<and> (\<forall>ev bs. event_to_vec J ev = Inr bs \<longrightarrow> json_line bs \<and> event_from_str J (map byte_char bs) = Inr ev)
   \<and> (\<forall>l bs k. line_bytes J l = Inr bs \<longrightarrow> k < length bs \<longrightarrow>
        isl (observation_from_str J (map byte_char (take k bs))) \<and> isl (control_from_str J (map byte_char (take k bs))))
   \<and> (\<forall>ev bs k. event_to_vec J ev = Inr bs \<longrightarrow> k < length bs \<longrightarrow> isl (event_from_str J (map byte_char (take k bs))))"

lemma isl_iff: "isl x \<longleftrightarrow> (\<exists>e. x = Inl e)"
  by (cases x) auto

lemma bmp_line_codec:
  assumes "json_ok J"
  shows "line_codec (line_bytes J) (parse_bmp_journal_line J)"
  unfolding line_codec_def
proof (intro allI impI)
  fix l bs
  assume l: "line_bytes J l = Inr bs"
  have "isl (parse_bmp_journal_line J (map byte_char (take k bs)))" if "k < length bs" for k
  proof -
    from assms l that obtain e e' where "observation_from_str J (map byte_char (take k bs)) = Inl e"
      "control_from_str J (map byte_char (take k bs)) = Inl e'"
      unfolding json_ok_def isl_iff by meson
    then show ?thesis by (simp add: parse_bmp_journal_line_def isl_iff)
  qed
  moreover have "json_line bs \<and> parse_bmp_journal_line J (map byte_char bs) = Inr l"
  proof (cases l)
    case (Observation obs)
    with assms l obtain e where "json_line bs" "observation_from_str J (map byte_char bs) = Inr obs"
      "control_from_str J (map byte_char bs) = Inl e"
      unfolding json_ok_def isl_iff by (metis line_bytes.simps(1))
    with Observation show ?thesis by (simp add: parse_bmp_journal_line_def)
  next
    case (Control c)
    with assms l show ?thesis by (simp add: json_ok_def parse_bmp_journal_line_def)
  qed
  ultimately show "json_line bs \<and> parse_bmp_journal_line J (map byte_char bs) = Inr l
      \<and> (\<forall>k < length bs. isl (parse_bmp_journal_line J (map byte_char (take k bs))))"
    by blast
qed

lemma event_line_codec: "json_ok J \<Longrightarrow> line_codec (event_to_vec J) (event_from_str J)"
  by (simp add: json_ok_def line_codec_def)

section \<open>Text\<close>

lemma strip_one_drop:
  "strip_one ws s = Some s' \<Longrightarrow> \<exists>n \<le> length s. s' = drop n s \<and> (\<forall>c \<in> set (take n s). \<exists>w \<in> set ws. c \<in> set w)"
proof (induction ws)
  case (Cons w ws)
  show ?case
  proof (cases "w \<noteq> [] \<and> take (length w) s = w")
    case True
    with Cons.prems have "s' = drop (length w) s" by simp
    moreover from True have "length w \<le> length s" by (metis length_take min.absorb_iff2 min.commute)
    ultimately show ?thesis using True by (intro exI [of _ "length w"]) auto
  next
    case False
    with Cons obtain n where "n \<le> length s" "s' = drop n s" "\<forall>c \<in> set (take n s). \<exists>w \<in> set ws. c \<in> set w"
      by auto
    then show ?thesis by (intro exI [of _ n]) auto
  qed
qed simp

lemma strip_all_drop:
  "\<exists>n \<le> length s. strip_all ws s = drop n s \<and> (\<forall>c \<in> set (take n s). \<exists>w \<in> set ws. c \<in> set w)"
proof (induction ws s rule: strip_all.induct)
  case (1 ws s)
  show ?case
  proof (cases "strip_one ws s")
    case None
    then show ?thesis by (subst strip_all.simps) (auto intro: exI [of _ 0])
  next
    case (Some s')
    from strip_one_drop [OF Some] obtain n where n: "n \<le> length s" "s' = drop n s"
      "\<forall>c \<in> set (take n s). \<exists>w \<in> set ws. c \<in> set w" by blast
    from "1" [OF Some] obtain n' where n': "n' \<le> length s'" "strip_all ws s' = drop n' s'"
      "\<forall>c \<in> set (take n' s'). \<exists>w \<in> set ws. c \<in> set w" by blast
    from n n' have "take (n + n') s = take n s @ take n' s'" by (simp add: take_add)
    with Some n n' show ?thesis
      by (subst strip_all.simps) (auto intro!: exI [of _ "n + n'"] simp: add.commute)
  qed
qed

lemma white_space_not_graphic: "w \<in> set white_space \<Longrightarrow> c \<in> set w \<Longrightarrow> \<not> graphic c"
proof -
  have "list_all (list_all (\<lambda>c. \<not> graphic c)) white_space"
    by (simp add: white_space_def graphic_def upt_conv_Cons)
  then show "w \<in> set white_space \<Longrightarrow> c \<in> set w \<Longrightarrow> \<not> graphic c" by (auto simp: list_all_iff)
qed

lemma trim_prefix:
  assumes "s \<noteq> []" "graphic (hd s)"
  shows "\<exists>k. 0 < k \<and> k \<le> length s \<and> trim s = take k s"
proof -
  have left: "strip_all white_space s = s"
    using assms by (intro strip_all_same) (simp_all add: white_space_ends)
  obtain n where n: "n \<le> length s" "strip_all (map rev white_space) (rev s) = drop n (rev s)"
    and ws: "\<forall>c \<in> set (take n (rev s)). \<exists>w \<in> set (map rev white_space). c \<in> set w"
    using strip_all_drop [of "rev s" "map rev white_space"] by auto
  have "n < length s"
  proof (rule ccontr)
    assume "\<not> n < length s"
    with n(1) assms(1) have "hd s \<in> set (take n (rev s))" by simp
    with ws obtain w where "w \<in> set white_space" "hd s \<in> set w" by auto
    with assms(2) white_space_not_graphic show False by blast
  qed
  with n show ?thesis
    by (intro exI [of _ "length s - n"]) (simp add: trim_def left rev_drop)
qed

lemma brace_graphic: "graphic (byte_char 0x7B)" "graphic (byte_char 0x7D)"
  by (simp_all add: graphic_def byte_char_def)

lemma json_line_text:
  assumes "json_line bs"
  shows "from_utf8 bs = Inr (map byte_char bs)" "trim (map byte_char bs) = map byte_char bs" "map byte_char bs \<noteq> []"
  using assms brace_graphic
  by (auto simp: json_line_def from_utf8_def hd_map last_map intro!: trim_same)

lemma newline_at_line: "10 \<notin> set bs \<Longrightarrow> newline_at (bs @ 10 # rest) = Some (length bs)"
  by (induction bs) auto

lemma newline_at_None: "10 \<notin> set bs \<Longrightarrow> newline_at bs = None"
  by (induction bs) auto

section \<open>Scanning lines\<close>

fun lines :: "('l \<Rightarrow> string + bytes) \<Rightarrow> 'l list \<Rightarrow> bytes option" where
  "lines enc [] = Some []"
| "lines enc (l # ls) = (case enc l of
     Inl _ \<Rightarrow> None
   | Inr bs \<Rightarrow> map_option (\<lambda>rest. bs @ [10] @ rest) (lines enc ls))"

fun apply_all :: "('l \<Rightarrow> 's \<Rightarrow> ('e, 's) outcome) \<Rightarrow> 'l list \<Rightarrow> 's \<Rightarrow> ('e, 's) outcome" where
  "apply_all f [] st = Ok st"
| "apply_all f (l # ls) st = and_then (f l st) (apply_all f ls)"

lemma apply_all_append: "apply_all f (ls @ ls') st = and_then (apply_all f ls st) (apply_all f ls')"
proof (induction ls arbitrary: st)
  case (Cons l ls)
  then show ?case by (cases "f l st") simp_all
qed simp

lemma lines_append: "lines enc ls = Some a \<Longrightarrow> lines enc ls' = Some b \<Longrightarrow> lines enc (ls @ ls') = Some (a @ b)"
  by (induction ls arbitrary: a) (auto split: sum.splits)

lemma scan_lines_written:
  assumes codec: "line_codec enc parse" and "lines enc ls = Some bs"
  shows "scan_lines parse f i (bs @ rest) st =
    and_then (apply_all f ls st) (\<lambda>st. and_then (scan_lines parse f (i + length ls) rest st)
      (\<lambda>(st, len, tail). Ok (st, length bs + len, tail)))"
  using assms(2)
proof (induction ls arbitrary: bs i st)
  case Nil
  then show ?case by (cases "scan_lines parse f i rest st") auto
next
  case (Cons l ls)
  then obtain b bs' where b: "enc l = Inr b" and bs': "lines enc ls = Some bs'" and bs: "bs = b @ [10] @ bs'"
    by (auto split: sum.splits)
  from codec b have jl: "json_line b" and p: "parse (map byte_char b) = Inr l"
    by (auto simp: line_codec_def)
  have nl: "newline_at (bs @ rest) = Some (length b)"
    using jl newline_at_line [of b "bs' @ rest"] by (simp add: bs json_line_def)
  have rl: "read_line parse i (take (length b) (bs @ rest)) = Ok (Some l)"
    using json_line_text [OF jl] p by (simp add: read_line_def bs)
  have more: "drop (Suc (length b)) (bs @ rest) = bs' @ rest" "bs @ rest \<noteq> []"
    by (simp_all add: bs)
  have "scan_lines parse f i (bs @ rest) st =
      and_then (f l st) (\<lambda>st. and_then (scan_lines parse f (Suc i) (bs' @ rest) st)
        (\<lambda>(st, len, tail). Ok (st, Suc (length b) + len, tail)))"
    by (subst scan_lines.simps) (simp only: nl rl more if_False option.case and_then.simps)
  also have "\<dots> = and_then (apply_all f (l # ls) st) (\<lambda>st. and_then (scan_lines parse f (i + length (l # ls)) rest st)
      (\<lambda>(st, len, tail). Ok (st, length bs + len, tail)))"
    by (cases "f l st") (simp_all add: Cons.IH [OF bs'] and_then_assoc bs case_prod_unfold add.assoc)
  finally show ?case .
qed

lemma scan_no_newline:
  "10 \<notin> set rest \<Longrightarrow> scan_lines parse f i rest st = Ok (st, 0, if rest = [] then NoTail else read_tail parse rest)"
  by (subst scan_lines.simps) (simp add: newline_at_None)

text \<open>What is left of a line that was not finished.\<close>

lemma read_tail_torn:
  assumes "line_codec enc parse" "enc l = Inr bs" "0 < k" "k < length bs"
  shows "read_tail parse (take k bs) = TornTail"
proof (cases "utf8_check 0 (take k bs)")
  case None
  from assms(1, 2) have jl: "json_line bs" by (simp add: line_codec_def)
  let ?s = "map byte_char (take k bs)"
  have s: "?s \<noteq> []" "graphic (hd ?s)"
    using assms(3, 4) jl brace_graphic by (auto simp: json_line_def hd_map hd_take)
  then obtain k' where k': "0 < k'" "k' \<le> length ?s" "trim ?s = take k' ?s"
    using trim_prefix by blast
  then have t: "trim ?s = map byte_char (take k' bs)" "k' < length bs" "trim ?s \<noteq> []"
    using assms(4) s by (auto simp: take_map min_def)
  with assms(1, 2) have "isl (parse (trim ?s))" by (simp add: line_codec_def)
  with None t(3) show ?thesis
    by (auto simp: read_tail_def from_utf8_def isl_iff)
qed (simp add: read_tail_def from_utf8_def)

lemma read_tail_record: "line_codec enc parse \<Longrightarrow> enc l = Inr bs \<Longrightarrow> read_tail parse bs = RecordTail l"
  using json_line_text [of bs] by (auto simp: line_codec_def read_tail_def)

text \<open>A journal cut behind the lines of some records and inside that of another one.\<close>

lemma scan_cut:
  assumes codec: "line_codec enc parse" and "lines enc ls = Some bs" and r: "enc r = Inr b" and k: "k \<le> length b"
  shows "scan_lines parse f 0 (bs @ take k b) st =
    and_then (apply_all f ls st) (\<lambda>st. Ok (st, length bs,
      if k = 0 then NoTail else if k < length b then TornTail else RecordTail r))"
proof -
  from codec r have jl: "json_line b" by (simp add: line_codec_def)
  then have nl: "10 \<notin> set (take k b)" and b: "b \<noteq> []"
    by (auto simp: json_line_def dest: in_set_takeD)
  have "(if take k b = [] then NoTail else read_tail parse (take k b)) =
      (if k = 0 then NoTail else if k < length b then TornTail else RecordTail r)"
    using read_tail_torn [OF codec r, of k] read_tail_record [OF codec r] k b by auto
  then show ?thesis
    by (simp add: scan_lines_written [OF assms(1, 2)] scan_no_newline [OF nl])
qed

section \<open>Replaying the BMP journal\<close>

text \<open>A file without I/O errors.\<close>

definition file_of :: "bytes \<Rightarrow> journal_file" where
  "file_of c = \<lparr>contents = c, read_error = None, write_error = None\<rparr>"

lemma file_of_ops [simp]:
  "contents (file_of c) = c" "read_error (file_of c) = None"
  "truncate_file_to_len n (file_of c) = Ok (file_of (take n c))"
  "append_newline_and_sync (file_of c) = Ok (file_of (c @ [10]))"
  "file_write f (file_of c) = Ok (file_of (f c))"
  by (simp_all add: file_of_def truncate_file_to_len_def append_newline_and_sync_def file_write_def)

lemma replay_lines:
  assumes "json_ok J" and ls: "lines (line_bytes J) ls = Some bs"
  shows "replay_into_with_state X E J (file_of bs) m =
    and_then (apply_all (apply_parsed_line X E) ls (replay_start m)) (\<lambda>st. Ok (outcome_of 0 st, rs_rib st, file_of bs))"
proof (cases ls)
  case Nil
  with ls show ?thesis by (simp add: replay_into_with_state_def replay_start_def)
next
  case (Cons l ls')
  with ls have "bs \<noteq> []" by (auto split: sum.splits)
  then show ?thesis
    using scan_lines_written [OF bmp_line_codec [OF assms(1)] ls, of "apply_parsed_line X E" 0 "[]" "replay_start m"]
    by (cases "apply_all (apply_parsed_line X E) ls (replay_start m)")
      (simp_all add: replay_into_with_state_def scan_no_newline)
qed

lemma replay_cut:
  assumes ok: "json_ok J" and ls: "lines (line_bytes J) ls = Some bs" and r: "line_bytes J r = Inr b"
    and k: "k \<le> length b" and st: "apply_all (apply_parsed_line X E) ls (replay_start m) = Ok st"
  shows "replay_into_with_state X E J (file_of (bs @ take k b)) m =
    (if k = length b
     then and_then (apply_parsed_line X E r st) (\<lambda>st. Ok (outcome_of 0 st, rs_rib st, file_of (bs @ b @ [10])))
     else Ok (outcome_of (if k = 0 then 0 else 1) st, rs_rib st, file_of bs))"
proof -
  have b: "b \<noteq> []"
    using bmp_line_codec [OF ok] r by (auto simp: line_codec_def json_line_def)
  have scan: "scan_lines (parse_bmp_journal_line J) (apply_parsed_line X E) 0 (bs @ take k b) (replay_start m) =
      Ok (st, length bs, if k = 0 then NoTail else if k < length b then TornTail else RecordTail r)"
    using scan_cut [OF bmp_line_codec [OF ok] ls r k, of "apply_parsed_line X E" "replay_start m"] st by simp
  consider "k = 0" | "k = length b" | "0 < k" "k < length b"
    using k by linarith
  then show ?thesis
  proof cases
    case 1
    with b st show ?thesis by (simp add: replay_lines [OF ok ls])
  next
    case 2
    with b scan show ?thesis by (simp add: replay_into_with_state_def)
  next
    case 3
    with b scan show ?thesis by (simp add: replay_into_with_state_def)
  qed
qed


text \<open>Damage inside the journal is never repaired silently: when a line that ends in a newline is neither blank nor
  a record, the replay stops with an error that carries its line number, whatever stands behind it.\<close>

theorem corrupted_line_reported:
  assumes "json_ok J" and "lines (line_bytes J) ls = Some bs"
    and "apply_all (apply_parsed_line X E) ls (replay_start m) = Ok st"
    and "10 \<notin> set bad" and "from_utf8 bad = Inr s" and "trim s \<noteq> []"
    and "parse_bmp_journal_line J (trim s) = Inl e"
  shows "replay_into_with_state X E J (file_of (bs @ bad @ 10 # rest)) m = Err (CorruptedRecord (length ls + 1) e)"
proof -
  have "scan_lines (parse_bmp_journal_line J) (apply_parsed_line X E) (length ls) (bad @ 10 # rest) st
      = Err (CorruptedRecord (length ls + 1) e)"
    using assms(5-7) by (subst scan_lines.simps) (simp add: newline_at_line [OF assms(4)] read_line_def)
  then have "scan_lines (parse_bmp_journal_line J) (apply_parsed_line X E) 0 (bs @ bad @ 10 # rest) (replay_start m)
      = Err (CorruptedRecord (length ls + 1) e)"
    using scan_lines_written [OF bmp_line_codec [OF assms(1)] assms(2),
        of "apply_parsed_line X E" 0 "bad @ 10 # rest" "replay_start m"] assms(3)
    by simp
  then show ?thesis
    by (simp add: replay_into_with_state_def)
qed

section \<open>Raw frames\<close>

lemma to_digit16_digit: "d < 16 \<Longrightarrow> to_digit16 (digit_char d) = Some d"
  by (simp add: to_digit16_def digit_char_def)

lemma hex_pairs_hex: "hex_pairs (bytes_to_hex bs) = Some bs"
proof (induction bs)
  case (Cons b bs)
  have d: "unat b div 16 < 16" "unat b mod 16 < 16"
    using unat_u8_less [of b] by (simp_all add: less_mult_imp_div_less)
  have "word_of_nat (unat b div 16 * 16 + unat b mod 16) = b" by simp
  with Cons d show ?case
    by (simp add: bytes_to_hex_def hex2_def to_digit16_digit)
qed (simp add: bytes_to_hex_def)

lemma length_bytes_to_hex: "length (bytes_to_hex bs) = 2 * length bs"
  by (induction bs) (simp_all add: bytes_to_hex_def hex2_def)

lemma digit_char_graphic: "d < 16 \<Longrightarrow> graphic (digit_char d)"
  by (simp add: graphic_def digit_char_def)

lemma bytes_to_hex_graphic: "list_all graphic (bytes_to_hex bs)"
proof (induction bs)
  case (Cons b bs)
  have "unat b div 16 < 16" "unat b mod 16 < 16"
    using unat_u8_less [of b] by (simp_all add: less_mult_imp_div_less)
  with Cons show ?case by (simp add: bytes_to_hex_def hex2_def digit_char_graphic)
qed (simp add: bytes_to_hex_def)

text \<open>The wire bytes of an observation survive the journal.\<close>

lemma hex_roundtrip: "hex_to_bytes (bytes_to_hex bs) = Some bs"
proof -
  have "trim (bytes_to_hex bs) = bytes_to_hex bs"
    using bytes_to_hex_graphic [of bs] by (intro trim_same) (auto simp: list_all_iff)
  then show ?thesis
    by (simp add: hex_to_bytes_def hex_pairs_hex length_bytes_to_hex)
qed

section \<open>The event journal\<close>

text \<open>The file of an event journal holds the lines of its events.\<close>

definition event_journal_ok :: "json \<Rightarrow> rib_event_journal \<Rightarrow> bool" where
  "event_journal_ok J j \<longleftrightarrow> (\<exists>bs. lines (event_to_vec J) (rj_events j) = Some bs \<and> rj_file j = Some (file_of bs))"

lemma lines_batch_bytes:
  "lines (event_to_vec J) evs = (case batch_bytes J evs of Inl _ \<Rightarrow> None | Inr bs \<Rightarrow> Some bs)"
  by (induction evs) (auto split: sum.splits)

lemma batch_bytes_lines: "batch_bytes J evs = Inr bs \<longleftrightarrow> lines (event_to_vec J) evs = Some bs"
  by (auto simp: lines_batch_bytes split: sum.splits)

lemma append_batch_ok:
  assumes "event_journal_ok J j" "append_batch J evs j = Ok j'"
  shows "event_journal_ok J j' \<and> rj_events j' = rj_events j @ evs"
  using assms by (auto simp: append_batch_def event_journal_ok_def and_then_Ok_iff batch_bytes_lines lines_append
    split: if_splits sum.splits)

lemma apply_all_snoc: "apply_all (\<lambda>ev evs. Ok (evs @ [ev])) es acc = Ok (acc @ es)"
  by (induction es arbitrary: acc) simp_all

lemma scan_events_cut:
  assumes ok: "json_ok J" and bs: "lines (event_to_vec J) evs = Some bs" and b: "event_to_vec J ev = Inr b" and k: "k \<le> length b"
  shows "scan_events J (file_of (bs @ take k b)) =
    Ok (if k = length b then (evs @ [ev], file_of (bs @ b @ [10])) else (evs, file_of bs))"
proof -
  have "b \<noteq> []"
    using event_line_codec [OF ok] b by (auto simp: line_codec_def json_line_def)
  then show ?thesis
    using scan_cut [OF event_line_codec [OF ok] bs b k, of "\<lambda>ev evs. Ok (evs @ [ev])" "[]"] k
    by (auto simp: scan_events_def apply_all_snoc Let_def)
qed

text \<open>The event journal is durable. A journal whose file holds its events keeps doing so when a batch is appended, the
  batch stands behind the older events, and after a crash that left any part of a further event's line, reopening
  gives all these events back, and that further one exactly when its line was complete.\<close>

theorem event_journal_durable:
  assumes "json_ok J" and "event_journal_ok J j" and "append_batch J evs j = Ok j'"
    and "event_to_vec J ev = Inr b" and "k \<le> length b" and "rj_file j' = Some jf"
  shows "\<exists>f. event_journal_open J (Some (Some (file_of (contents jf @ take k b))))
      = Ok \<lparr>rj_file = Some f, rj_events = rj_events j @ evs @ (if k = length b then [ev] else [])\<rparr>
    \<and> event_journal_ok J \<lparr>rj_file = Some f, rj_events = rj_events j @ evs @ (if k = length b then [ev] else [])\<rparr>"
proof -
  from append_batch_ok [OF assms(2, 3)] assms(6) obtain bs
    where bs: "lines (event_to_vec J) (rj_events j') = Some bs" and jf: "jf = file_of bs"
      and ev: "rj_events j' = rj_events j @ evs"
    by (auto simp: event_journal_ok_def)
  have "lines (event_to_vec J) (rj_events j' @ [ev]) = Some (bs @ b @ [10])"
    using lines_append [OF bs, of "[ev]"] assms(4) by simp
  with bs show ?thesis
    using scan_events_cut [OF assms(1) bs assms(4, 5)] unfolding ev
    by (auto simp: event_journal_open_def jf event_journal_ok_def)
qed

section \<open>Prefix history\<close>

text \<open>What a route had after a sequence of events: the attributes of its last change.\<close>

definition route_change_in :: "rib_event \<Rightarrow> route_change option" where
  "route_change_in ev = (case ev_payload ev of RouteChangeEvent rc \<Rightarrow> Some rc | _ \<Rightarrow> None)"

definition attributes_after :: "rib_event list \<Rightarrow> route_key \<Rightarrow> path_attributes option" where
  "attributes_after evs rk = 
     (case rev (filter (\<lambda>rc. rch_route_key rc = rk) (List.map_filter route_change_in evs)) of
        [] \<Rightarrow> None | rc # _ \<Rightarrow> after_change rc)"

fun history_spec ::
  "string \<Rightarrow> string option \<Rightarrow> string option \<Rightarrow> rib_event list \<Rightarrow> rib_event list \<Rightarrow> prefix_history_item list" where
  "history_spec pfx spk rd past [] = []"
| "history_spec pfx spk rd past (ev # evs) = (case route_change_in ev of
     Some rc \<Rightarrow> (if prefix_string (rch_prefix rc) = Ok pfx \<and> text_filter spk (ip_string (ev_speaker ev))
          \<and> text_filter rd (distinguisher_string (rch_peer_key rc))
        then [history_item ev rc pfx (attributes_after past (rch_route_key rc))] else [])
   | None \<Rightarrow> []) @ history_spec pfx spk rd (past @ [ev]) evs"

lemma attributes_after_snoc:
  "attributes_after (past @ [ev]) rk = (case route_change_in ev of
     Some rc \<Rightarrow> if rch_route_key rc = rk then after_change rc else attributes_after past rk
   | None \<Rightarrow> attributes_after past rk)"
  by (auto simp: attributes_after_def List.map_filter_def split: option.splits list.splits)

lemma history_loop_spec:
  assumes "\<And>rk. Option.bind (hm_get lasts rk) (\<lambda>a. a) = attributes_after past rk"
    and "history_loop pfx spk rd evs lasts = Ok items"
  shows "items = history_spec pfx spk rd past evs"
  using assms
proof (induction evs arbitrary: lasts past items)
  case (Cons ev evs)
  show ?case
  proof (cases "route_change_in ev")
    case None
    with Cons.prems(2) have loop: "history_loop pfx spk rd evs lasts = Ok items"
      by (auto simp: route_change_in_def split: rib_event_payload.splits)
    have "Option.bind (hm_get lasts rk) (\<lambda>a. a) = attributes_after (past @ [ev]) rk" for rk
      using Cons.prems(1) None by (simp add: attributes_after_snoc)
    from Cons.IH [OF this loop] None show ?thesis by simp
  next
    case (Some rc)
    then have pl: "ev_payload ev = RouteChangeEvent rc"
      by (auto simp: route_change_in_def split: rib_event_payload.splits)
    let ?l = "hm_insert (rch_route_key rc) (after_change rc) lasts"
    from Cons.prems(2) pl obtain p items' where p: "prefix_string (rch_prefix rc) = Ok p"
      and loop: "history_loop pfx spk rd evs ?l = Ok items'"
      and items: "items = (if p = pfx \<and> text_filter spk (ip_string (ev_speaker ev))
          \<and> text_filter rd (distinguisher_string (rch_peer_key rc))
        then [history_item ev rc p (Option.bind (hm_get lasts (rch_route_key rc)) (\<lambda>a. a))] else []) @ items'"
      by (auto simp: and_then_Ok_iff Let_def split: if_splits)
    have "Option.bind (hm_get ?l rk) (\<lambda>a. a) = attributes_after (past @ [ev]) rk" for rk
      using Cons.prems(1) Some by (simp add: attributes_after_snoc hm_gets)
    from Cons.IH [OF this loop] show ?thesis
      using Some p items Cons.prems(1) by auto
  qed
qed simp

text \<open>Prefix history reports each change of the prefix that passes the filters, newest first and at most \<open>limit\<close> of them;
  the attributes it shows before a change are those after the previous change of the same route, even when the
  filters hide that change.\<close>

theorem prefix_history_correct:
  "prefix_history_filtered pfx spk rd limit j = Ok items \<Longrightarrow>
    items = take limit (rev (history_spec pfx spk rd [] (rj_events j)))"
  using history_loop_spec [of hm_empty "[]" pfx spk rd "rj_events j"]
  by (auto simp: prefix_history_filtered_def and_then_Ok_iff hm_gets attributes_after_def List.map_filter_def)

section \<open>Witnesses\<close>

text \<open>A codec that writes one observation and one event, each as the line \<open>{}\<close> of its own journal.\<close>

definition sample_journal_message :: bmp_message where
  "sample_journal_message = \<lparr>msg_id = 7, received_at = 0, speaker_addr = IpV4 0x0A000001,
     payload = Initiation (Some ''edge-a'') None []\<rparr>"

definition sample_observation :: bmp_journal_observation where
  "sample_observation = \<lparr>obs_message = sample_journal_message, obs_session_epoch = Some 1, obs_raw_frame_hex = None\<rparr>"

definition sample_event :: rib_event where
  "sample_event = \<lparr>ev_schema_version = 2, ev_key = event_key_new (observation_source_new (IpV4 0x0A000001) 1) 1,
     ev_id = 9, ev_occurred_at = 0, ev_speaker = IpV4 0x0A000001, ev_payload = SpeakerDownEvent ''bye''\<rparr>"

definition braces :: bytes where
  "braces = [0x7B, 0x7D]"

definition sample_json :: json where
  "sample_json = \<lparr>
     observation_to_vec = (\<lambda>obs. if obs = sample_observation then Inr braces else Inl ''unknown''),
     control_to_vec = (\<lambda>c. Inl ''unknown''),
     event_to_vec = (\<lambda>ev. if ev = sample_event then Inr braces else Inl ''unknown''),
     observation_from_str = (\<lambda>s. if s = map byte_char braces then Inr sample_observation else Inl ''expected value''),
     control_from_str = (\<lambda>s. Inl ''missing field `record_kind`''),
     event_from_str = (\<lambda>s. if s = map byte_char braces then Inr sample_event else Inl ''expected value'')\<rparr>"

lemma braces_line: "json_line braces"
  by (simp add: json_line_def braces_def utf8_scan_def utf8_width_def)

lemma braces_prefix: "k < length braces \<Longrightarrow> map byte_char (take k braces) \<noteq> map byte_char braces"
  by (metis length_map length_take min_less_iff_conj nat_less_le)

lemma sample_json_ok: "json_ok sample_json"
proof -
  have cut: "isl (observation_from_str sample_json (map byte_char (take k bs)))
      \<and> isl (control_from_str sample_json (map byte_char (take k bs)))"
    if "line_bytes sample_json l = Inr bs" "k < length bs" for l bs k
    using that braces_prefix [of k] by (cases l) (auto simp: sample_json_def split: if_splits)
  show ?thesis
    unfolding json_ok_def
    using cut braces_line braces_prefix by (auto simp: sample_json_def split: if_splits)
qed

definition sample_replayed :: replay_state where
  "sample_replayed = \<lparr>rs_rib = snd (process_for_epoch sample_filter_externals sample_journal_message (Some 1) rib_manager_new),
     rs_applied = 1, rs_events = fst (process_for_epoch sample_filter_externals sample_journal_message (Some 1) rib_manager_new),
     rs_gaps = [], rs_contexts = []\<rparr>"

lemma sample_apply:
  "apply_parsed_line documented_externals sample_filter_externals (Observation sample_observation) (replay_start rib_manager_new)
     = Ok sample_replayed"
  by (simp add: apply_observation_def sample_observation_def redecode_def replay_start_def Let_def learn_context_def
      sample_journal_message_def clear_gap_def hm_gets sample_replayed_def case_prod_unfold hm_empty_def hm_get_def)

lemma sample_line: "line_bytes sample_json (Observation sample_observation) = Inr braces"
  by (simp add: sample_json_def)

text \<open>Applying it a second time.\<close>

lemma sample_apply_again:
  "\<exists>st'. apply_parsed_line documented_externals sample_filter_externals (Observation sample_observation) sample_replayed = Ok st'"
  by (simp add: apply_observation_def sample_observation_def redecode_def Let_def case_prod_unfold)


theorem corrupted_line_reported_witness:
  "replay_into_with_state documented_externals sample_filter_externals sample_json
      (file_of [0x7B, 0x7D, 10, 0x7B, 10, 0x7B, 0x7D, 10]) rib_manager_new
    = Err (CorruptedRecord 2 ''expected value'')"
proof -
  have ls: "lines (line_bytes sample_json) [Observation sample_observation] = Some [0x7B, 0x7D, 10]"
    by (simp add: sample_json_def braces_def)
  have st: "apply_all (apply_parsed_line documented_externals sample_filter_externals) [Observation sample_observation]
      (replay_start rib_manager_new) = Ok sample_replayed"
    by (simp add: sample_apply del: apply_parsed_line.simps)
  have nl: "10 \<notin> set [0x7B :: u8]" by simp
  have utf: "from_utf8 [0x7B] = Inr [byte_char 0x7B]"
    by (simp add: from_utf8_def utf8_scan_def utf8_width_def)
  have tr: "trim [byte_char 0x7B] = [byte_char 0x7B]"
    using brace_graphic by (intro trim_same) simp
  have ne: "trim [byte_char 0x7B] \<noteq> []" by (simp add: tr)
  have p: "parse_bmp_journal_line sample_json (trim [byte_char 0x7B]) = Inl ''expected value''"
    by (simp add: tr parse_bmp_journal_line_def sample_json_def braces_def)
  show ?thesis
    using corrupted_line_reported [OF sample_json_ok ls st nl utf ne p, of "[0x7B, 0x7D, 10]"] by simp
qed

theorem event_journal_durable_witness:
  "\<exists>f. event_journal_open sample_json (Some (Some (file_of [0x7B, 0x7D, 10, 0x7B])))
      = Ok \<lparr>rj_file = Some f, rj_events = [sample_event]\<rparr>"
proof -
  let ?j = "\<lparr>rj_file = Some (file_of []), rj_events = []\<rparr>"
  let ?j' = "\<lparr>rj_file = Some (file_of [0x7B, 0x7D, 10]), rj_events = [sample_event]\<rparr>"
  have j: "event_journal_ok sample_json ?j"
    by (simp add: event_journal_ok_def)
  have j': "append_batch sample_json [sample_event] ?j = Ok ?j'"
    by (simp add: append_batch_def sample_json_def braces_def)
  have b: "event_to_vec sample_json sample_event = Inr braces"
    by (simp add: sample_json_def)
  have k: "1 \<le> length braces" "(1 = length braces) = False" "take 1 braces = [0x7B]"
    by (simp_all add: braces_def)
  show ?thesis
    using event_journal_durable [OF sample_json_ok j j' b k(1), of "file_of [0x7B, 0x7D, 10]"]
    unfolding k(2, 3) by auto
qed

definition sample_change :: "route_action \<Rightarrow> rib_event" where
  "sample_change act = sample_event\<lparr>ev_payload := RouteChangeEvent (route_change_of act (IpV4 0x0A000001)
     \<lparr>peer_type = GlobalInstance, peer_flags = 0, peer_distinguisher = replicate 8 0, peer_address = IpV4 9,
       peer_as = 65001, peer_bgp_id = 1, hdr_timestamp = 0, hdr_rib_type = AdjRibInPrePolicy\<rparr>
     (PrefixV4 (Ipv4Net 0x0A000000 8)) None (if act = Announce then Some default_attributes else None))\<rparr>"

theorem prefix_history_correct_witness:
  "\<exists>pfx items. prefix_history_filtered pfx None None 1
        \<lparr>rj_file = None, rj_events = [sample_change Announce, sample_change Withdraw]\<rparr> = Ok items
     \<and> map before_attributes items = [Some default_attributes] \<and> map ph_action items = [''withdraw'']"
proof -
  let ?n = "Ipv4Net 0x0A000000 8"
  let ?pfx = "ipv4_string (v4_addr ?n) @ ''/'' @ dec (unat (v4_prefix_len ?n))"
  let ?j = "\<lparr>rj_file = None, rj_events = [sample_change Announce, sample_change Withdraw]\<rparr>"
  have pl: "ev_payload (sample_change act) = RouteChangeEvent (route_change_of act (IpV4 0x0A000001)
     \<lparr>peer_type = GlobalInstance, peer_flags = 0, peer_distinguisher = replicate 8 0, peer_address = IpV4 9,
       peer_as = 65001, peer_bgp_id = 1, hdr_timestamp = 0, hdr_rib_type = AdjRibInPrePolicy\<rparr>
     (PrefixV4 ?n) None (if act = Announce then Some default_attributes else None))" for act
    by (simp add: sample_change_def)
  have ok: "prefix_history_filtered ?pfx None None 1 ?j = Ok (take 1 (rev (history_spec ?pfx None None [] (rj_events ?j))))"
  proof -
    have "\<exists>items. prefix_history_filtered ?pfx None None 1 ?j = Ok items"
      by (simp add: prefix_history_filtered_def pl route_change_of_def Let_def text_filter_def case_prod_unfold)
    then show ?thesis using prefix_history_correct by blast
  qed
  moreover have "map before_attributes (take 1 (rev (history_spec ?pfx None None [] (rj_events ?j)))) = [Some default_attributes]"
    "map ph_action (take 1 (rev (history_spec ?pfx None None [] (rj_events ?j)))) = [''withdraw'']"
    by (simp_all add: route_change_in_def pl route_change_of_def Let_def text_filter_def case_prod_unfold
        attributes_after_def List.map_filter_def after_change_def history_item_def)
  ultimately show ?thesis by (intro exI conjI)
qed

end
