(* ===== verification/Rib_Laws.thy ===== *)
theory Rib_Laws
  imports Rib_Manager
begin

text \<open>
  The laws of the RIB manager: its invariant over every reachable state, what a Route Monitoring message does to the
  table of its peer, the isolation of speakers, the fencing of old connections, and the numbering of events.
\<close>

section \<open>The invariant\<close>

definition peer_of :: "rib_manager \<Rightarrow> peer_key \<Rightarrow> peer_session option" where
  "peer_of m k = (case hm_get (speakers m) (pk_speaker k) of None \<Rightarrow> None | Some s \<Rightarrow> hm_get (peers s) k)"

definition counts_of :: "rib_manager \<Rightarrow> peer_key \<Rightarrow> (rib_type, nat) hmap" where
  "counts_of m k = (case hm_get (ribs m) k of Some T \<Rightarrow> rib_counts T | None \<Rightarrow> hm_empty)"

definition session_ok :: "ip_addr \<Rightarrow> bmp_session \<Rightarrow> bool" where
  "session_ok a s \<longleftrightarrow> hm_ok (peers s) \<and> bs_speaker s = a \<and> exporter_addr (bs_source s) = a \<and>
     (\<forall>k p. hm_get (peers s) k = Some p \<longrightarrow> ps_key p = k \<and> pk_speaker k = a)"

text \<open>The invariant, but for the route counts of the peers in \<open>K\<close>: between changing a table and the final
  \<open>sync_peer_route_counts\<close> the counts of one peer are behind.\<close>

definition manager_ok_except :: "peer_key set \<Rightarrow> rib_manager \<Rightarrow> bool" where
  "manager_ok_except K m \<longleftrightarrow> hm_ok (speakers m) \<and> hm_ok (ribs m)
     \<and> (\<forall>a s. hm_get (speakers m) a = Some s \<longrightarrow> session_ok a s)
     \<and> (\<forall>k T. hm_get (ribs m) k = Some T \<longrightarrow> rib_ok T \<and> peer_of m k \<noteq> None)
     \<and> (\<forall>k p. peer_of m k = Some p \<longrightarrow> k \<notin> K \<longrightarrow> route_counts p = counts_of m k)"

definition manager_ok :: "rib_manager \<Rightarrow> bool" where
  "manager_ok m \<longleftrightarrow> manager_ok_except {} m"

text \<open>The public operations that change the manager.\<close>

inductive rib_step :: "externals \<Rightarrow> filter_externals \<Rightarrow> rib_manager \<Rightarrow> rib_manager \<Rightarrow> bool" for X E where
  step_process: "rib_step X E m (snd (process_for_epoch E msg epoch m))"
| step_open: "rib_step X E m (snd (open_speaker_session a now m))"
| step_clear_eor: "rib_step X E m (clear_speaker_eor a m)"
| step_expire_key: "rib_step X E m (snd (expire_stale_for_peer_key X k secs m))"
| step_expire: "rib_step X E m (snd (expire_stale_for_peer X a secs m))"
| step_min_seq: "rib_step X E m (ensure_min_event_seq n m)"
| step_set_filter: "rib_step X E m (set_filter engine m)"
| step_clear_filter: "rib_step X E m (clear_filter m)"
| step_set_roto: "rib_step X E m (set_roto_filter roto m)"

inductive reachable :: "externals \<Rightarrow> filter_externals \<Rightarrow> rib_manager \<Rightarrow> bool" for X E where
  reach_new: "reachable X E rib_manager_new"
| reach_step: "reachable X E m \<Longrightarrow> rib_step X E m m' \<Longrightarrow> reachable X E m'"

section \<open>Preservation\<close>

lemma ok_mono: "manager_ok_except K m \<Longrightarrow> K \<subseteq> L \<Longrightarrow> manager_ok_except L m"
  unfolding manager_ok_except_def by blast

lemma ok_new: "manager_ok rib_manager_new"
  by (simp add: manager_ok_def manager_ok_except_def rib_manager_new_def hm_gets hm_oks peer_of_def)

text \<open>Fields the invariant does not read.\<close>

lemma ok_other_fields:
  "speakers m' = speakers m \<Longrightarrow> ribs m' = ribs m \<Longrightarrow> manager_ok_except K m' \<longleftrightarrow> manager_ok_except K m"
  by (simp add: manager_ok_except_def peer_of_def counts_of_def)

lemma emit_state:
  "speakers (snd (emit_with_source i a src now pl e)) = speakers (snd e)"
  "ribs (snd (emit_with_source i a src now pl e)) = ribs (snd e)"
  "rm_filter (snd (emit_with_source i a src now pl e)) = rm_filter (snd e)"
  "roto_filter (snd (emit_with_source i a src now pl e)) = roto_filter (snd e)"
  by (simp_all add: emit_with_source_def split_beta Let_def)

lemma ok_emit [simp]: "manager_ok_except K (snd (emit_with_source i a src now pl e)) \<longleftrightarrow> manager_ok_except K (snd e)"
  by (rule ok_other_fields) (simp_all add: emit_state)

lemma ok_parts:
  assumes "manager_ok_except K m"
  shows "hm_ok (speakers m)" "hm_ok (ribs m)"
    and "hm_get (speakers m) a = Some s \<Longrightarrow> session_ok a s"
    and "hm_get (ribs m) k = Some T \<Longrightarrow> rib_ok T"
    and "hm_get (ribs m) k = Some T \<Longrightarrow> peer_of m k \<noteq> None"
    and "peer_of m k = Some p \<Longrightarrow> k \<notin> K \<Longrightarrow> route_counts p = counts_of m k"
  using assms unfolding manager_ok_except_def by blast+

lemma ok_I:
  assumes "hm_ok (speakers m)" "hm_ok (ribs m)"
    and "\<And>a s. hm_get (speakers m) a = Some s \<Longrightarrow> session_ok a s"
    and "\<And>k T. hm_get (ribs m) k = Some T \<Longrightarrow> rib_ok T \<and> peer_of m k \<noteq> None"
    and "\<And>k p. peer_of m k = Some p \<Longrightarrow> k \<notin> K \<Longrightarrow> route_counts p = counts_of m k"
  shows "manager_ok_except K m"
  using assms unfolding manager_ok_except_def by blast

text \<open>Replacing the session of one speaker.\<close>

lemma ok_sessions:
  assumes ok: "manager_ok_except K m" and ss: "hm_ok ss"
    and same: "\<And>b. b \<noteq> a \<Longrightarrow> hm_get ss b = hm_get (speakers m) b"
    and sess: "hm_get ss a = Some s'" "session_ok a s'"
    and more: "\<And>k. pk_speaker k = a \<Longrightarrow> peer_of m k \<noteq> None \<Longrightarrow> hm_get (peers s') k \<noteq> None"
    and counts: "\<And>k p. hm_get (peers s') k = Some p \<Longrightarrow> pk_speaker k = a \<Longrightarrow> k \<notin> K \<Longrightarrow> route_counts p = counts_of m k"
  shows "manager_ok_except K (m\<lparr>next_session_epoch := n, speakers := ss\<rparr>)"
proof -
  have peer: "peer_of (m\<lparr>next_session_epoch := n, speakers := ss\<rparr>) k =
      (if pk_speaker k = a then hm_get (peers s') k else peer_of m k)" for k
    using same sess(1) by (simp add: peer_of_def)
  have c: "counts_of (m\<lparr>next_session_epoch := n, speakers := ss\<rparr>) = counts_of m"
    by (simp add: counts_of_def fun_eq_iff)
  show ?thesis
  proof (rule ok_I, goal_cases)
    case (3 b s)
    then show ?case using sess same ok_parts(3) [OF ok] by (cases "b = a") auto
  next
    case (4 k T)
    then have "hm_get (ribs m) k = Some T" by simp
    then show ?case using ok_parts(4,5) [OF ok, of k T] more [of k] peer [of k] by (cases "pk_speaker k = a") auto
  next
    case (5 k p)
    then show ?case using counts [of k p] ok_parts(6) [OF ok, of k p] peer [of k] c
      by (cases "pk_speaker k = a") auto
  qed (use ss ok_parts(2) [OF ok] in simp_all)
qed

lemma ok_session_modify:
  assumes ok: "manager_ok_except K m"
    and g: "\<And>s. hm_get (speakers m) a = Some s \<Longrightarrow> session_ok a s \<Longrightarrow> session_ok a (g s)"
    and more: "\<And>s k. hm_get (speakers m) a = Some s \<Longrightarrow> hm_get (peers s) k \<noteq> None \<Longrightarrow> hm_get (peers (g s)) k \<noteq> None"
    and counts: "\<And>s k p. hm_get (speakers m) a = Some s \<Longrightarrow> hm_get (peers (g s)) k = Some p \<Longrightarrow> pk_speaker k = a \<Longrightarrow>
       k \<notin> K \<Longrightarrow> route_counts p = counts_of m k"
  shows "manager_ok_except K (m\<lparr>next_session_epoch := n, speakers := hm_modify a g (speakers m)\<rparr>)"
proof (cases "hm_get (speakers m) a")
  case None
  then have "hm_get (hm_modify a g (speakers m)) b = hm_get (speakers m) b" for b
    by (simp add: hm_gets)
  with ok show ?thesis by (simp add: manager_ok_except_def peer_of_def counts_of_def)
next
  case (Some s)
  with ok have "session_ok a s" "hm_ok (speakers m)" by (auto simp: manager_ok_except_def)
  with Some g more counts show ?thesis
    by (intro ok_sessions [OF ok, where a = a and s' = "g s"]) (auto simp: hm_gets peer_of_def)
qed

text \<open>The invariant after replacing only the sessions: the epoch counter keeps its value.\<close>

lemma ok_session_modify':
  "manager_ok_except K m \<Longrightarrow>
   (\<And>s. hm_get (speakers m) a = Some s \<Longrightarrow> session_ok a s \<Longrightarrow> session_ok a (g s)) \<Longrightarrow>
   (\<And>s k. hm_get (speakers m) a = Some s \<Longrightarrow> hm_get (peers s) k \<noteq> None \<Longrightarrow> hm_get (peers (g s)) k \<noteq> None) \<Longrightarrow>
   (\<And>s k p. hm_get (speakers m) a = Some s \<Longrightarrow> hm_get (peers (g s)) k = Some p \<Longrightarrow> pk_speaker k = a \<Longrightarrow> k \<notin> K \<Longrightarrow>
       route_counts p = counts_of m k) \<Longrightarrow>
   manager_ok_except K (m\<lparr>speakers := hm_modify a g (speakers m)\<rparr>)"
  by (subst ok_other_fields [symmetric, where m' = "m\<lparr>next_session_epoch := next_session_epoch m,
      speakers := hm_modify a g (speakers m)\<rparr>"]) (simp, simp, rule ok_session_modify)

lemma ok_counts: "manager_ok_except K m \<Longrightarrow> hm_get (speakers m) (pk_speaker k) = Some s \<Longrightarrow> hm_get (peers s) k = Some p \<Longrightarrow>
    k \<notin> K \<Longrightarrow> route_counts p = counts_of m k"
  by (auto simp: manager_ok_except_def peer_of_def)

lemma ok_no_peer: "manager_ok_except K m \<Longrightarrow> peer_of m k = None \<Longrightarrow> hm_get (ribs m) k = None"
  using ok_parts(5) [of K m k] by (cases "hm_get (ribs m) k") simp_all

lemma ok_restrict:
  assumes "manager_ok_except K m"
    and "\<And>k p. peer_of m k = Some p \<Longrightarrow> k \<in> K \<Longrightarrow> k \<notin> L \<Longrightarrow> route_counts p = counts_of m k"
  shows "manager_ok_except L m"
proof -
  have "route_counts p = counts_of m k" if "peer_of m k = Some p" "k \<notin> L" for k p
    using that assms(2) ok_parts(6) [OF assms(1)] by (cases "k \<in> K") simp_all
  with assms(1) show ?thesis unfolding manager_ok_except_def by blast
qed

lemma ok_update_peer:
  assumes "manager_ok_except K m" "\<And>p. ps_key (f p) = ps_key p"
    and "k \<in> K \<or> (\<forall>p. route_counts (f p) = route_counts p)"
  shows "manager_ok_except K (update_peer k f m)"
  unfolding update_peer_def
proof (rule ok_session_modify' [OF assms(1)], goal_cases)
  case (1 s)
  then show ?case using assms(2) by (auto simp: session_ok_def hm_gets split: if_splits)
next
  case (2 s k')
  then show ?case by (auto simp: hm_gets)
next
  case (3 s k' p)
  then show ?case using assms(3) ok_counts [OF assms(1), of k' s]
    by (auto simp: hm_gets split: if_splits)
qed

lemma peer_of_update: "peer_of (update_peer k f m) k' = (if k' = k then map_option f (peer_of m k) else peer_of m k')"
  by (auto simp: peer_of_def update_peer_def hm_gets split: option.splits)

lemma ribs_update_peer [simp]: "ribs (update_peer k f m) = ribs m"
  by (simp add: update_peer_def)

lemma session_ok_or_insert:
  assumes "session_ok a s"
  shows "session_ok a (s\<lparr>peers := hm_or_insert (peer_key_from_header a hdr) (new_for_speaker a hdr) (peers s)\<rparr>)"
proof -
  have "ps_key p = k \<and> pk_speaker k = a"
    if "hm_get (hm_or_insert (peer_key_from_header a hdr) (new_for_speaker a hdr) (peers s)) k = Some p" for k p
  proof (cases "hm_get (peers s) k")
    case None
    with that have "p = new_for_speaker a hdr" "k = peer_key_from_header a hdr"
      by (simp_all add: hm_get_or_insert split: if_splits)
    then show ?thesis by (simp add: new_for_speaker_def peer_key_from_header_def)
  next
    case (Some p')
    with that assms show ?thesis by (auto simp: hm_get_or_insert session_ok_def split: if_splits)
  qed
  with assms show ?thesis by (simp add: session_ok_def hm_ok_or_insert)
qed

lemma ok_ensure_peer:
  assumes "manager_ok_except K m"
  shows "manager_ok_except K (ensure_peer a hdr m)"
  unfolding ensure_peer_def
proof (rule ok_session_modify' [OF assms], goal_cases)
  case (1 s)
  then show ?case by (simp add: session_ok_or_insert)
next
  case (2 s k')
  then show ?case by (auto simp: hm_gets split: option.splits)
next
  case (3 s k' p)
  show ?case
  proof (cases "hm_get (peers s) k'")
    case None
    with 3 have "p = new_for_speaker a hdr" by (auto simp: hm_gets split: if_splits)
    moreover from None 3 have "hm_get (ribs m) k' = None"
      by (intro ok_no_peer [OF assms]) (simp add: peer_of_def)
    ultimately show ?thesis by (simp add: new_for_speaker_def counts_of_def)
  next
    case (Some p')
    with 3 ok_counts [OF assms, of k' s] show ?thesis by (auto simp: hm_gets split: if_splits)
  qed
qed

lemma peer_of_ensure: "hm_get (speakers m) a = Some s \<Longrightarrow> peer_of (ensure_peer a hdr m) (peer_key_from_header a hdr) \<noteq> None"
  by (simp add: peer_of_def ensure_peer_def hm_gets peer_key_from_header_def)

lemma ribs_ensure_peer [simp]: "ribs (ensure_peer a hdr m) = ribs m"
  by (simp add: ensure_peer_def)

text \<open>Changing the table of a peer whose counts are allowed to lag.\<close>

lemma ok_ribs:
  assumes "manager_ok_except K m" "k \<in> K" "hm_ok rs"
    and "\<And>k'. k' \<noteq> k \<Longrightarrow> hm_get rs k' = hm_get (ribs m) k'"
    and "\<And>T. hm_get rs k = Some T \<Longrightarrow> rib_ok T \<and> peer_of m k \<noteq> None"
  shows "manager_ok_except K (m\<lparr>ribs := rs\<rparr>)"
proof -
  have "peer_of (m\<lparr>ribs := rs\<rparr>) = peer_of m" by (simp add: peer_of_def fun_eq_iff)
  moreover have "counts_of (m\<lparr>ribs := rs\<rparr>) k' = counts_of m k'" if "k' \<notin> K" for k'
    using that assms(2) by (subst (1 2) counts_of_def) (simp, metis assms(4))
  moreover have "rib_ok T \<and> peer_of m k' \<noteq> None" if "hm_get rs k' = Some T" for k' T
    using that assms(1,4,5) by (cases "k' = k") (auto simp: manager_ok_except_def)
  ultimately show ?thesis using assms(1,3) by (auto simp: manager_ok_except_def)
qed

lemma ok_update_rib:
  assumes "manager_ok_except K m" "k \<in> K" "peer_of m k \<noteq> None" "\<And>T. rib_ok T \<Longrightarrow> rib_ok (f T)"
  shows "manager_ok_except K (update_rib k f m)"
  unfolding update_rib_def
  by (rule ok_ribs [OF assms(1,2)])
     (use assms in \<open>auto simp: hm_gets hm_oks manager_ok_except_def split: option.splits\<close>)

lemma ok_modify_rib:
  assumes "manager_ok_except K m" "k \<in> K" "\<And>T. rib_ok T \<Longrightarrow> rib_ok (f T)"
  shows "manager_ok_except K (m\<lparr>ribs := hm_modify k f (ribs m)\<rparr>)"
  by (rule ok_ribs [OF assms(1,2)])
     (use assms in \<open>auto simp: hm_gets hm_oks manager_ok_except_def split: option.splits\<close>)

lemma peer_of_update_rib [simp]: "peer_of (update_rib k f m) = peer_of m" "peer_of (m\<lparr>ribs := rs\<rparr>) = peer_of m"
  by (simp_all add: peer_of_def update_rib_def fun_eq_iff)

lemma ok_sync:
  assumes "manager_ok_except K m"
  shows "manager_ok_except (K - {k}) (sync_peer_route_counts k m)"
proof (rule ok_restrict)
  show ok: "manager_ok_except (insert k K) (sync_peer_route_counts k m)"
    unfolding sync_peer_route_counts_def Let_def
    by (rule ok_update_peer) (use ok_mono [OF assms] in auto)
next
  fix k' p
  assume "peer_of (sync_peer_route_counts k m) k' = Some p" "k' \<in> insert k K" "k' \<notin> K - {k}"
  then show "route_counts p = counts_of (sync_peer_route_counts k m) k'"
    by (auto simp: sync_peer_route_counts_def Let_def peer_of_update counts_of_def)
qed

text \<open>A session put in place of the old one, or of none, with the same peers up to changes that keep the counts.\<close>

lemma ok_put_session:
  assumes "manager_ok_except K m" "hm_ok ss"
    and "\<And>b. b \<noteq> a \<Longrightarrow> hm_get ss b = hm_get (speakers m) b"
    and "hm_get ss a = Some s'" "session_ok a s'"
    and peers: "\<And>k. pk_speaker k = a \<Longrightarrow> hm_get (peers s') k = map_option f (peer_of m k)"
    and f: "\<And>p. route_counts (f p) = route_counts p"
  shows "manager_ok_except K (m\<lparr>next_session_epoch := n, speakers := ss\<rparr>)"
proof (rule ok_sessions [OF assms(1-5)])
  fix k p
  assume k: "hm_get (peers s') k = Some p" "pk_speaker k = a" "k \<notin> K"
  then obtain p' where "peer_of m k = Some p'" "p = f p'" using peers [of k] by auto
  with k(3) show "route_counts p = counts_of m k" using ok_parts(6) [OF assms(1)] f by simp
qed (use peers in auto)

lemma session_ok_with_source [simp]: "session_ok a (with_source (observation_source_new a e) now)"
  by (simp add: session_ok_def with_source_def observation_source_new_def hm_gets hm_oks)

lemma session_ok_map_peers:
  assumes "session_ok a s" "\<And>p. ps_key (f p) = ps_key p" "bs_speaker s' = bs_speaker s"
    and "exporter_addr (bs_source s') = a" "peers s' = hm_map_values f (peers s)"
  shows "session_ok a s'"
  using assms by (auto simp: session_ok_def hm_gets)

lemma clear_eor_keeps [simp]: "route_counts (clear_eor p) = route_counts p" "ps_key (clear_eor p) = ps_key p"
  by (simp_all add: clear_eor_def)

lemma peer_of_session: "hm_get (speakers m) a = Some s \<Longrightarrow> pk_speaker k = a \<Longrightarrow> peer_of m k = hm_get (peers s) k"
  "hm_get (speakers m) a = None \<Longrightarrow> pk_speaker k = a \<Longrightarrow> peer_of m k = None"
  by (auto simp: peer_of_def)

lemma ok_insert_session:
  assumes ok: "manager_ok_except K m" and none: "hm_get (speakers m) a = None"
  shows "manager_ok_except K (m\<lparr>next_session_epoch := n,
    speakers := hm_insert a (with_source (observation_source_new a e) now) (speakers m)\<rparr>)"
  by (rule ok_put_session [OF ok _ _ _ session_ok_with_source [of a e now], where f = id])
     (use none in \<open>auto simp: hm_gets hm_oks ok_parts(1) [OF ok] peer_of_session with_source_def\<close>)

lemma ok_open_session: "manager_ok_except K m \<Longrightarrow> manager_ok_except K (snd (open_speaker_session a now m))"
proof (cases "hm_get (speakers m) a")
  case None
  assume ok: "manager_ok_except K m"
  with None show ?thesis by (simp add: open_speaker_session_def Let_def ok_insert_session)
next
  case (Some s)
  assume ok: "manager_ok_except K m"
  let ?s = "s\<lparr>bs_source := observation_source_new a (next_session_epoch m), connected_at := now,
      peers := hm_map_values clear_eor (peers s)\<rparr>"
  let ?ss = "hm_modify a (\<lambda>s. s\<lparr>bs_source := observation_source_new a (next_session_epoch m), connected_at := now,
      peers := hm_map_values clear_eor (peers s)\<rparr>) (speakers m)"
  have "session_ok a ?s"
    by (rule session_ok_map_peers [OF ok_parts(3) [OF ok Some]]) (simp_all add: observation_source_new_def)
  then have "manager_ok_except K (m\<lparr>next_session_epoch := next_session_epoch m + 1, speakers := ?ss\<rparr>)"
    by (rule ok_put_session [OF ok, where f = clear_eor, rotated 3])
       (auto simp: Some hm_gets hm_oks ok_parts(1) [OF ok] peer_of_session(1) [OF Some])
  then show ?thesis by (simp add: open_speaker_session_def Let_def Some)
qed

lemma ok_session_source:
  assumes ok: "manager_ok_except K m"
  shows "manager_ok_except K (snd (session_source a now e m)) \<and>
    (\<exists>s. hm_get (speakers (snd (session_source a now e m))) a = Some s \<and> bs_source s = fst (session_source a now e m))"
proof (cases e)
  case None
  show ?thesis
  proof (cases "hm_get (speakers m) a")
    case None': None
    with ok None show ?thesis
      by (simp add: session_source_def ensure_speaker_source_def Let_def ok_insert_session hm_gets)
        (simp add: with_source_def)
  qed (use ok None in \<open>simp add: session_source_def ensure_speaker_source_def\<close>)
next
  case (Some epoch)
  define s0 where "s0 = (case hm_get (speakers m) a of Some s \<Rightarrow> s
     | None \<Rightarrow> with_source (observation_source_new a epoch) now)"
  define f where "f = (if session_epoch (bs_source s0) < epoch then clear_eor else id)"
  define s' where "s' = (if session_epoch (bs_source s0) < epoch
      then s0\<lparr>bs_source := (bs_source s0)\<lparr>session_epoch := epoch\<rparr>, connected_at := now,
        peers := hm_map_values clear_eor (peers s0)\<rparr> else s0)"
  let ?g = "\<lambda>s. if session_epoch (bs_source s) < epoch
      then s\<lparr>bs_source := (bs_source s)\<lparr>session_epoch := epoch\<rparr>, connected_at := now,
        peers := hm_map_values clear_eor (peers s)\<rparr> else s"
  let ?ss = "hm_modify a ?g (hm_or_insert a (with_source (observation_source_new a epoch) now) (speakers m))"
  have s0: "session_ok a s0" using ok_parts(3) [OF ok] by (simp add: s0_def split: option.splits)
  have "exporter_addr (bs_source s0) = a" using s0 by (simp add: session_ok_def)
  then have s': "session_ok a s'"
    using s0 session_ok_map_peers [OF s0, of clear_eor s'] by (cases "session_epoch (bs_source s0) < epoch") (simp_all add: s'_def)
  have get: "hm_get ?ss b = (if b = a then Some s' else hm_get (speakers m) b)" for b
    by (simp add: hm_gets s0_def s'_def split: option.splits)
  have "peer_of m k = hm_get (peers s0) k" if "pk_speaker k = a" for k
    using that by (auto simp: s0_def peer_of_def with_source_def hm_gets split: option.splits)
  then have peers: "hm_get (peers s') k = map_option f (peer_of m k)" if "pk_speaker k = a" for k
    using that by (simp add: s'_def f_def hm_gets option.map_id)
  have "manager_ok_except K (m\<lparr>next_session_epoch := n, speakers := ?ss\<rparr>)" for n
    by (rule ok_put_session [OF ok _ _ _ s' peers]) (simp_all add: get hm_oks ok_parts(1) [OF ok] f_def)
  then show ?thesis
    by (simp add: session_source_def Some Let_def get split del: if_split)
qed

lemma ok_initiation: "manager_ok_except K m \<Longrightarrow> manager_ok_except K (on_initiation a n d m)"
  unfolding on_initiation_def
  by (rule ok_session_modify') (auto simp: session_ok_def intro: ok_counts)

lemma ok_clear_speaker_eor: "manager_ok_except K m \<Longrightarrow> manager_ok_except K (clear_speaker_eor a m)"
  unfolding clear_speaker_eor_def
  by (rule ok_session_modify') (auto simp: session_ok_def hm_gets intro: ok_counts)

text \<open>After a termination nothing of the speaker is left, and nothing else has changed.\<close>

lemma termination_lookup:
  assumes ok: "manager_ok_except K m"
  shows "hm_get (speakers (on_termination a m)) b = (if b = a then None else hm_get (speakers m) b)"
    and "hm_get (ribs (on_termination a m)) k = (if pk_speaker k = a then None else hm_get (ribs m) k)"
proof -
  show "hm_get (speakers (on_termination a m)) b = (if b = a then None else hm_get (speakers m) b)"
    by (auto simp: on_termination_def Let_def hm_gets split: option.splits)
  have own: "pk_speaker k = a" if "hm_get (speakers m) a = Some s" "k \<in> set (hm_keys (peers s))" for s
    using ok_parts(3) [OF ok that(1)] that(2) by (auto simp: session_ok_def hm.in_keys_iff)
  show "hm_get (ribs (on_termination a m)) k = (if pk_speaker k = a then None else hm_get (ribs m) k)"
    using own ok_parts(2) [OF ok]
    by (auto simp: on_termination_def Let_def hm.get_keep hm.invar_del_all hm.get_del_all split: option.splits)
qed

lemma ok_termination:
  assumes ok: "manager_ok_except K m"
  shows "manager_ok_except K (on_termination a m)"
proof (rule ok_I)
  show "hm_ok (speakers (on_termination a m))" "hm_ok (ribs (on_termination a m))"
    using ok_parts(1,2) [OF ok]
    by (auto simp: on_termination_def Let_def hm_oks hm.invar_del_all split: option.splits)
  have peer: "peer_of (on_termination a m) k = (if pk_speaker k = a then None else peer_of m k)" for k
    by (simp add: peer_of_def termination_lookup [OF ok])
  show "session_ok b s" if "hm_get (speakers (on_termination a m)) b = Some s" for b s
    using that ok_parts(3) [OF ok] by (auto simp: termination_lookup [OF ok] split: if_splits)
  show "rib_ok T \<and> peer_of (on_termination a m) k \<noteq> None" if "hm_get (ribs (on_termination a m)) k = Some T" for k T
    using that ok_parts(4,5) [OF ok, of k T] by (auto simp: termination_lookup [OF ok] peer split: if_splits)
  show "route_counts p = counts_of (on_termination a m) k"
    if "peer_of (on_termination a m) k = Some p" "k \<notin> K" for k p
    using that ok_parts(6) [OF ok, of k p]
    by (auto simp: counts_of_def termination_lookup [OF ok] peer split: if_splits)
qed

lemma on_up_keeps [simp]:
  "ps_key (on_up_with_header hdr l h c ts p) = ps_key p" "route_counts (on_up_with_header hdr l h c ts p) = route_counts p"
  by (simp_all add: on_up_with_header_def on_up_def Let_def)

lemma ok_peer_up: "manager_ok m \<Longrightarrow> manager_ok (on_peer_up a now pu m)"
  unfolding manager_ok_def on_peer_up_def Let_def
  by (rule ok_sync [where K = "{}", simplified], intro ok_update_peer ok_ensure_peer) simp_all

lemma ok_peer_down:
  assumes "manager_ok m"
  shows "manager_ok (on_peer_down a now hdr m)"
proof -
  let ?k = "peer_key_from_header a hdr"
  have ok: "manager_ok_except {?k} m" using assms ok_mono by (auto simp: manager_ok_def)
  have "manager_ok_except {?k} (update_peer ?k (on_down now) m)"
    by (rule ok_update_peer [OF ok]) (simp_all add: on_down_def)
  then have "manager_ok_except {?k} ((update_peer ?k (on_down now) m)\<lparr>ribs := hm_modify ?k f (ribs m)\<rparr>)"
    if "\<And>T. rib_ok T \<Longrightarrow> rib_ok (f T)" for f
    using ok_modify_rib [of "{?k}" "update_peer ?k (on_down now) m" ?k f] that by simp
  from ok_sync [OF this, of _ ?k] show ?thesis
    by (auto simp: manager_ok_def on_peer_down_def Let_def rib_ok_mark rib_ok_clear)
qed

text \<open>The loops of a Route Monitoring message: the table of the peer changes, the peer stays known.\<close>

definition loop_ok :: "peer_key \<Rightarrow> emission \<Rightarrow> bool" where
  "loop_ok k e \<longleftrightarrow> manager_ok_except {k} (snd e) \<and> peer_of (snd e) k \<noteq> None"

lemma peer_of_emit [simp]: "peer_of (snd (emit_with_source i a src now pl e)) = peer_of (snd e)"
  by (simp add: peer_of_def emit_state fun_eq_iff)

lemma loop_ok_withdraw:
  "loop_ok (peer_key_from_header a hdr) e \<Longrightarrow> loop_ok (peer_key_from_header a hdr) (withdraw_route i a src now hdr w e)"
  by (auto simp: loop_ok_def withdraw_route_def split_beta intro!: ok_update_rib rib_ok_remove)

lemma loop_ok_announce:
  "loop_ok (peer_key_from_header a hdr) e \<Longrightarrow>
     loop_ok (peer_key_from_header a hdr) (announce_route E i a src now hdr attrs n e)"
  by (auto simp: loop_ok_def announce_route_def split_beta Let_def intro!: ok_update_rib rib_ok_insert rib_ok_best)

lemma fold_inv: "P e \<Longrightarrow> (\<And>x e. P e \<Longrightarrow> P (f x e)) \<Longrightarrow> P (fold f xs e)"
  by (induction xs arbitrary: e) simp_all

lemma ok_route_monitoring:
  assumes "manager_ok m" "hm_get (speakers m) a = Some s"
  shows "manager_ok (snd (on_route_monitoring E i a src now hdr u m))"
proof (cases "eor_afi_safi u")
  case None
  let ?k = "peer_key_from_header a hdr"
  have "manager_ok_except {?k} (ensure_peer a hdr m)"
    using assms(1) ok_mono [OF ok_ensure_peer] by (auto simp: manager_ok_def)
  then have "loop_ok ?k ([], ensure_peer a hdr m)"
    using peer_of_ensure [OF assms(2)] by (simp add: loop_ok_def)
  then have "loop_ok ?k (fold (announce_route E i a src now hdr (attributes u)) (all_announced_with_path_id u)
      (fold (withdraw_route i a src now hdr) (all_withdrawn_with_path_id u) ([], ensure_peer a hdr m)))"
    by (intro fold_inv [where P = "loop_ok ?k"] loop_ok_announce loop_ok_withdraw)
  with ok_sync [of "{?k}" _ ?k] None show ?thesis
    by (simp add: on_route_monitoring_def Let_def split_beta loop_ok_def manager_ok_def)
next
  case (Some f)
  have "manager_ok_except {} (update_peer (peer_key_from_header a hdr) (mark_eor (hdr_rib_type hdr) f) (ensure_peer a hdr m))"
    using assms(1) by (intro ok_update_peer ok_ensure_peer) (simp_all add: manager_ok_def mark_eor_def)
  with Some show ?thesis
    by (simp add: on_route_monitoring_def Let_def manager_ok_def)
qed

lemma ok_process: "manager_ok m \<Longrightarrow> manager_ok (snd (process_for_epoch E msg epoch m))"
proof -
  assume ok: "manager_ok m"
  define m1 where "m1 = snd (session_source (speaker_addr msg) (received_at msg) epoch m)"
  have m1: "manager_ok m1" "\<exists>s. hm_get (speakers m1) (speaker_addr msg) = Some s"
    using ok ok_session_source [of "{}" m "speaker_addr msg" "received_at msg" epoch]
    by (auto simp: m1_def manager_ok_def)
  then show ?thesis
    using ok by (auto simp: process_for_epoch_def Let_def split_beta manager_ok_def ok_initiation ok_termination
        ok_peer_up [unfolded manager_ok_def] ok_peer_down [unfolded manager_ok_def]
        ok_route_monitoring [unfolded manager_ok_def] simp flip: m1_def split: bmp_payload.splits)
qed

lemma ok_expire_key: "manager_ok m \<Longrightarrow> manager_ok (snd (expire_stale_for_peer_key X k secs m))"
proof -
  assume "manager_ok m"
  then have ok: "manager_ok_except {k} m" using ok_mono by (auto simp: manager_ok_def)
  have T: "rib_ok (snd (drain_deleted_stale X now secs T))" if "hm_get (ribs m) k = Some T" for now T
    using rib_ok_drain ok_parts(4) [OF ok that] by blast
  have "manager_ok_except {k} (m\<lparr>ribs := hm_modify k (\<lambda>_. snd (drain_deleted_stale X now secs T)) (ribs m)\<rparr>)"
    if "hm_get (ribs m) k = Some T" for now T
    by (rule ok_modify_rib [OF ok]) (simp_all add: T [OF that])
  with ok_sync [of "{k}" _ k] ok show ?thesis
    by (auto simp: manager_ok_def expire_stale_for_peer_key_def split_beta Let_def split: option.splits)
qed

lemma ok_expire_keys: "manager_ok m \<Longrightarrow> manager_ok (snd (expire_keys X ks secs m))"
  by (induction ks arbitrary: m) (simp_all add: split_beta Let_def ok_expire_key)

lemma ok_step: "rib_step X E m m' \<Longrightarrow> manager_ok m \<Longrightarrow> manager_ok m'"
proof (induction rule: rib_step.induct)
  case (step_open m a now)
  then show ?case by (simp add: manager_ok_def ok_open_session)
next
  case (step_clear_eor m a)
  then show ?case by (simp add: manager_ok_def ok_clear_speaker_eor)
qed (simp_all add: ok_process ok_expire_key expire_stale_for_peer_def ok_expire_keys,
    auto simp: ensure_min_event_seq_def set_filter_def clear_filter_def set_roto_filter_def manager_ok_def
    intro: ok_other_fields [THEN iffD2])

lemma reachable_ok: "reachable X E m \<Longrightarrow> manager_ok m"
  by (induction rule: reachable.induct) (auto intro: ok_new ok_step)

section \<open>What a Route Monitoring message does to the table\<close>

definition table_of :: "rib_manager \<Rightarrow> peer_key \<Rightarrow> rib_table" where
  "table_of m k = (case hm_get (ribs m) k of Some T \<Rightarrow> T | None \<Rightarrow> rib_table_new)"

lemma table_of_ok: "manager_ok_except K m \<Longrightarrow> rib_ok (table_of m k)"
  by (auto simp: table_of_def dest: ok_parts(4) split: option.splits)

lemma table_of_same_ribs: "ribs m' = ribs m \<Longrightarrow> table_of m' = table_of m"
  by (simp add: table_of_def fun_eq_iff)

lemma table_of_update_rib: "table_of (update_rib k f m) k = f (table_of m k)"
  by (simp add: table_of_def update_rib_def hm_gets split: option.splits)

lemma fold_hom: "(\<And>x e. g (f x e) = h x (g e)) \<Longrightarrow> g (fold f xs e) = fold h xs (g e)"
  by (induction xs arbitrary: e) simp_all

lemma table_of_withdraws:
  "table_of (snd (fold (withdraw_route i a src now hdr) ws e)) (peer_key_from_header a hdr) =
     fold (\<lambda>(p, pid) T. snd (remove_with_path_id (hdr_rib_type hdr) p pid T)) ws
       (table_of (snd e) (peer_key_from_header a hdr))"
  by (rule fold_hom [where g = "\<lambda>e. table_of (snd e) (peer_key_from_header a hdr)"])
     (simp add: withdraw_route_def split_beta emit_state table_of_update_rib
       table_of_same_ribs [where m' = "snd (emit_with_source _ _ _ _ _ _)"])

lemma filters_update_rib [simp]: "rm_filter (update_rib k f m) = rm_filter m" "roto_filter (update_rib k f m) = roto_filter m"
  by (simp_all add: update_rib_def)

lemma filters_withdraws:
  "rm_filter (snd (fold (withdraw_route i a src now hdr) ws e)) = rm_filter (snd e)"
  "roto_filter (snd (fold (withdraw_route i a src now hdr) ws e)) = roto_filter (snd e)"
  by (induction ws arbitrary: e) (simp_all add: withdraw_route_def split_beta emit_state)

lemma verdict_cong: "rm_filter m' = rm_filter m \<Longrightarrow> roto_filter m' = roto_filter m \<Longrightarrow>
    filter_verdict_of E hdr attrs p m' = filter_verdict_of E hdr attrs p m"
  unfolding filter_verdict_of_def by (simp only:)

text \<open>The announcements that pass the filters, as the entries they make.\<close>

definition accepted :: "filter_externals \<Rightarrow> rib_manager \<Rightarrow> peer_header \<Rightarrow> bgp_update \<Rightarrow> (prefix \<times> u32 option) list" where
  "accepted E m hdr u = filter (\<lambda>(p, pid). filter_verdict_of E hdr (attributes u) p m \<noteq> Deny) (all_announced_with_path_id u)"

lemma table_of_announces:
  "table_of (snd (fold (announce_route E i a src now hdr attrs) ns e)) (peer_key_from_header a hdr) =
     fold (\<lambda>e T. if re_path_id e \<noteq> None
         then recompute_best_path (hdr_rib_type hdr) (re_prefix e) (snd (rib_insert (hdr_rib_type hdr) e T))
         else snd (rib_insert (hdr_rib_type hdr) e T))
       (map (\<lambda>(p, pid). new_entry now hdr attrs p pid)
         (filter (\<lambda>(p, pid). filter_verdict_of E hdr attrs p (snd e) \<noteq> Deny) ns))
       (table_of (snd e) (peer_key_from_header a hdr))"
proof (induction ns arbitrary: e)
  case (Cons n ns)
  obtain p pid where n: "n = (p, pid)" by force
  let ?e = "announce_route E i a src now hdr attrs n e"
  have "rm_filter (snd ?e) = rm_filter (snd e)" "roto_filter (snd ?e) = roto_filter (snd e)"
    by (simp_all add: announce_route_def split_beta Let_def emit_state)
  then have "filter_verdict_of E hdr attrs q (snd ?e) = filter_verdict_of E hdr attrs q (snd e)" for q
    by (rule verdict_cong)
  moreover have "table_of (snd ?e) (peer_key_from_header a hdr) =
      (if filter_verdict_of E hdr attrs p (snd e) = Deny then table_of (snd e) (peer_key_from_header a hdr)
       else let T1 = snd (rib_insert (hdr_rib_type hdr) (new_entry now hdr attrs p pid) (table_of (snd e) (peer_key_from_header a hdr)))
         in if pid \<noteq> None then recompute_best_path (hdr_rib_type hdr) p T1 else T1)"
    by (simp add: n announce_route_def split_beta Let_def emit_state table_of_update_rib
        table_of_same_ribs [where m' = "snd (emit_with_source _ _ _ _ _ _)"])
  ultimately show ?case
    using Cons [of ?e] by (simp add: n new_entry_def Let_def)
qed simp

lemma monitoring_table:
  assumes ok: "manager_ok m" and u: "eor_afi_safi u = None"
    and k_def: "k = peer_key_from_header a hdr" and r_def: "r = hdr_rib_type hdr"
  shows "map_option bare_entry (route_map (table_of (snd (on_route_monitoring E i a src now hdr u m)) k) (r', key)) =
    (case if r' = r then find (\<lambda>e. entry_key e = key) (rev (map (\<lambda>(p, pid). new_entry now hdr (attributes u) p pid) (accepted E m hdr u)))
          else None of
       Some e \<Rightarrow> Some (bare_entry e)
     | None \<Rightarrow> if (r', key) \<in> (\<lambda>(p, pid). (r, table_route_key_from_prefix p pid)) ` set (all_withdrawn_with_path_id u)
         then None else map_option bare_entry (route_map (table_of m k) (r', key)))"
proof -
  define T0 where "T0 = fold (\<lambda>(p, pid) T. snd (remove_with_path_id r p pid T)) (all_withdrawn_with_path_id u) (table_of m k)"
  have "rib_ok T0" unfolding T0_def
    using ok table_of_ok store.invar_dels by (auto simp: manager_ok_def)
  define e1 where "e1 = fold (withdraw_route i a src now hdr) (all_withdrawn_with_path_id u) ([], ensure_peer a hdr m)"
  have "rm_filter (snd e1) = rm_filter m" "roto_filter (snd e1) = roto_filter m"
    by (simp_all add: e1_def filters_withdraws ensure_peer_def)
  then have verdict: "filter_verdict_of E hdr (attributes u) q (snd e1) = filter_verdict_of E hdr (attributes u) q m" for q
    by (rule verdict_cong)
  have e1: "table_of (snd e1) k = T0"
    by (simp add: e1_def T0_def k_def r_def table_of_withdraws table_of_same_ribs [where m' = "ensure_peer a hdr m" and m = m])
  have "table_of (snd (on_route_monitoring E i a src now hdr u m)) k =
      table_of (snd (fold (announce_route E i a src now hdr (attributes u)) (all_announced_with_path_id u) e1)) k"
    using u by (simp add: on_route_monitoring_def Let_def split_beta e1_def sync_peer_route_counts_def
        table_of_same_ribs [where m' = "update_peer _ _ _"])
  also have "\<dots> = fold (\<lambda>e T. if re_path_id e \<noteq> None then recompute_best_path r (re_prefix e) (snd (rib_insert r e T))
      else snd (rib_insert r e T)) (map (\<lambda>(p, pid). new_entry now hdr (attributes u) p pid) (accepted E m hdr u)) T0"
    unfolding k_def table_of_announces r_def by (simp add: verdict accepted_def e1 [unfolded k_def])
  finally have table: "table_of (snd (on_route_monitoring E i a src now hdr u m)) k = \<dots>" .
  have "map_option bare_entry (route_map T0 (r', key)) =
      (if (r', key) \<in> (\<lambda>(p, pid). (r, table_route_key_from_prefix p pid)) ` set (all_withdrawn_with_path_id u)
       then None else map_option bare_entry (route_map (table_of m k) (r', key)))"
    by (simp add: T0_def store.lookup_dels)
  then show ?thesis unfolding table store.lookup_anns [OF \<open>rib_ok T0\<close>] by (simp only:)
qed

section \<open>Other speakers\<close>

text \<open>Two managers that differ at most in what they hold of one speaker.\<close>

definition same_but :: "ip_addr \<Rightarrow> rib_manager \<Rightarrow> rib_manager \<Rightarrow> bool" where
  "same_but a m m' \<longleftrightarrow> (\<forall>b. b \<noteq> a \<longrightarrow> hm_get (speakers m') b = hm_get (speakers m) b)
     \<and> (\<forall>k. pk_speaker k \<noteq> a \<longrightarrow> hm_get (ribs m') k = hm_get (ribs m) k)"

lemma same_but_refl [simp]: "same_but a m m"
  by (simp add: same_but_def)

lemma same_but_trans [trans]: "same_but a m m1 \<Longrightarrow> same_but a m1 m2 \<Longrightarrow> same_but a m m2"
  by (simp add: same_but_def)

lemma same_but_emit [simp]: "same_but a m (snd (emit_with_source i b src now pl e)) \<longleftrightarrow> same_but a m (snd e)"
  by (simp add: same_but_def emit_state)

lemma same_but_ops [simp]:
  "same_but a m (snd (session_source a now ep m))"
  "same_but a m (on_initiation a n d m)"
  "same_but a m (ensure_peer a hdr m)"
  "pk_speaker k = a \<Longrightarrow> same_but a m (update_peer k f m)"
  "pk_speaker k = a \<Longrightarrow> same_but a m (update_rib k g m)"
  "pk_speaker k = a \<Longrightarrow> same_but a m (sync_peer_route_counts k m)"
  "pk_speaker k = a \<Longrightarrow> same_but a m (m\<lparr>ribs := hm_modify k g (ribs m)\<rparr>)"
  by (auto simp: same_but_def session_source_def ensure_speaker_source_def on_initiation_def ensure_peer_def
      update_peer_def update_rib_def sync_peer_route_counts_def Let_def hm_gets split: option.splits)

lemma pk_speaker_from_header [simp]: "pk_speaker (peer_key_from_header a hdr) = a"
  by (simp add: peer_key_from_header_def)

lemma same_but_peer_up: "same_but a m (on_peer_up a now pu m)"
  unfolding on_peer_up_def Let_def
  by (rule same_but_trans [OF same_but_trans [OF same_but_ops(3) same_but_ops(4)] same_but_ops(6)]) simp_all

lemma same_but_peer_down: "same_but a m (on_peer_down a now hdr m)"
  unfolding on_peer_down_def Let_def
  by (rule same_but_trans [OF same_but_trans [OF same_but_ops(4) same_but_ops(7)] same_but_ops(6)]) simp_all

lemma same_but_termination: "manager_ok m \<Longrightarrow> same_but a m (on_termination a m)"
  unfolding manager_ok_def by (simp add: same_but_def termination_lookup)

lemma same_but_withdraw: "same_but a m (snd e) \<Longrightarrow> same_but a m (snd (withdraw_route i a src now hdr w e))"
  by (auto simp: withdraw_route_def split_beta intro: same_but_trans)

lemma same_but_announce: "same_but a m (snd e) \<Longrightarrow> same_but a m (snd (announce_route E i a src now hdr attrs n e))"
  by (auto simp: announce_route_def split_beta Let_def intro: same_but_trans)

lemma same_but_monitoring: "same_but a m (snd (on_route_monitoring E i a src now hdr u m))"
proof (cases "eor_afi_safi u")
  case None
  let ?e = "fold (announce_route E i a src now hdr (attributes u)) (all_announced_with_path_id u)
      (fold (withdraw_route i a src now hdr) (all_withdrawn_with_path_id u) ([], ensure_peer a hdr m))"
  have "same_but a m (snd ?e)"
    by (intro fold_inv [where P = "\<lambda>e. same_but a m (snd e)"] same_but_announce same_but_withdraw) simp
  then have "same_but a m (sync_peer_route_counts (peer_key_from_header a hdr) (snd ?e))"
    by (rule same_but_trans) simp
  with None show ?thesis by (simp add: on_route_monitoring_def Let_def split_beta)
next
  case (Some f)
  then show ?thesis
    by (simp add: on_route_monitoring_def Let_def) (rule same_but_trans [OF same_but_ops(3) same_but_ops(4)], simp)
qed

lemma same_but_process:
  assumes "manager_ok m"
  shows "same_but (speaker_addr msg) m (snd (process_for_epoch E msg epoch m))"
proof -
  define m1 where "m1 = snd (session_source (speaker_addr msg) (received_at msg) epoch m)"
  have m1: "same_but (speaker_addr msg) m m1" by (simp add: m1_def)
  have ok: "manager_ok m1"
    using assms ok_session_source [of "{}" m "speaker_addr msg" "received_at msg" epoch] by (simp add: m1_def manager_ok_def)
  show ?thesis
    by (auto simp: process_for_epoch_def Let_def split_beta m1 simp flip: m1_def split: bmp_payload.splits
        intro: same_but_trans [OF m1] same_but_peer_up same_but_peer_down same_but_termination [OF ok] same_but_monitoring)
qed

section \<open>Event numbers\<close>

text \<open>An emission that started with the event number \<open>n\<close> and the channel contents \<open>tx\<close>.\<close>

definition numbered :: "128 word \<Rightarrow> ip_addr \<Rightarrow> observation_source \<Rightarrow> u64 \<Rightarrow> rib_event list \<Rightarrow> emission \<Rightarrow> bool" where
  "numbered i a src n tx e \<longleftrightarrow> next_event_seq (snd e) = n + word_of_nat (length (fst e)) \<and> event_tx (snd e) = tx @ fst e
     \<and> (\<forall>j < length (fst e). let ev = fst e ! j; seq = n + word_of_nat j in
          ev_key ev = event_key_new src seq \<and> ev_speaker ev = a \<and> ev_id ev = deterministic_event_uuid i seq (word_of_nat j))"

lemma numbered_start: "next_event_seq m = n \<Longrightarrow> event_tx m = tx \<Longrightarrow> numbered i a src n tx ([], m)"
  by (simp add: numbered_def)

lemma numbered_emit: "numbered i a src n tx e \<Longrightarrow> numbered i a src n tx (emit_with_source i a src now pl e)"
  by (auto simp: numbered_def emit_with_source_def split_beta Let_def nth_append less_Suc_eq add.assoc)

lemma numbered_cong:
  "numbered i a src n tx e \<Longrightarrow> fst e' = fst e \<Longrightarrow> next_event_seq (snd e') = next_event_seq (snd e) \<Longrightarrow>
     event_tx (snd e') = event_tx (snd e) \<Longrightarrow> numbered i a src n tx e'"
  by (simp add: numbered_def)

lemma quiet_ops [simp]:
  "next_event_seq (update_rib k g m) = next_event_seq m" "event_tx (update_rib k g m) = event_tx m"
  "next_event_seq (update_peer k f m) = next_event_seq m" "event_tx (update_peer k f m) = event_tx m"
  "next_event_seq (ensure_peer a hdr m) = next_event_seq m" "event_tx (ensure_peer a hdr m) = event_tx m"
  "next_event_seq (sync_peer_route_counts k m) = next_event_seq m" "event_tx (sync_peer_route_counts k m) = event_tx m"
  "next_event_seq (on_initiation a nm d m) = next_event_seq m" "event_tx (on_initiation a nm d m) = event_tx m"
  "next_event_seq (on_termination a m) = next_event_seq m" "event_tx (on_termination a m) = event_tx m"
  "next_event_seq (snd (session_source a now ep m)) = next_event_seq m"
  "event_tx (snd (session_source a now ep m)) = event_tx m"
  by (auto simp: update_rib_def update_peer_def ensure_peer_def sync_peer_route_counts_def on_initiation_def
      on_termination_def session_source_def ensure_speaker_source_def Let_def split: option.splits)

lemma quiet_peer [simp]:
  "next_event_seq (on_peer_up a now pu m) = next_event_seq m" "event_tx (on_peer_up a now pu m) = event_tx m"
  "next_event_seq (on_peer_down a now hdr m) = next_event_seq m" "event_tx (on_peer_down a now hdr m) = event_tx m"
  by (simp_all add: on_peer_up_def on_peer_down_def Let_def)

lemma numbered_withdraw:
  "numbered i a src n tx e \<Longrightarrow> numbered i a src n tx (withdraw_route i a src now hdr w e)"
  by (auto simp: withdraw_route_def split_beta intro!: numbered_emit elim: numbered_cong)

lemma numbered_announce:
  "numbered i a src n tx e \<Longrightarrow> numbered i a src n tx (announce_route E i a src now hdr attrs w e)"
  by (auto simp: announce_route_def split_beta Let_def intro!: numbered_emit elim: numbered_cong)

lemma numbered_monitoring:
  "numbered i a src (next_event_seq m) (event_tx m) (on_route_monitoring E i a src now hdr u m)"
proof (cases "eor_afi_safi u")
  case None
  let ?e = "fold (announce_route E i a src now hdr (attributes u)) (all_announced_with_path_id u)
      (fold (withdraw_route i a src now hdr) (all_withdrawn_with_path_id u) ([], ensure_peer a hdr m))"
  have "numbered i a src (next_event_seq m) (event_tx m) ?e"
    by (intro fold_inv [where P = "numbered i a src (next_event_seq m) (event_tx m)"]
        numbered_announce numbered_withdraw numbered_start) simp_all
  with None show ?thesis
    by (auto simp: on_route_monitoring_def Let_def split_beta elim: numbered_cong)
qed (simp add: on_route_monitoring_def Let_def numbered_emit numbered_start)

lemma numbered_process:
  "numbered (msg_id msg) (speaker_addr msg) (fst (session_source (speaker_addr msg) (received_at msg) epoch m))
     (next_event_seq m) (event_tx m) (process_for_epoch E msg epoch m)"
  using numbered_monitoring [of "msg_id msg" "speaker_addr msg" _
      "snd (session_source (speaker_addr msg) (received_at msg) epoch m)"]
  by (auto simp: process_for_epoch_def Let_def split_beta split: bmp_payload.splits
      intro!: numbered_emit numbered_start)

section \<open>Two consequences\<close>

text \<open>A manager with the Roto engine of the default build denies nothing, whatever filters are configured.\<close>

lemma roto_noop_bypasses_filters: "roto_filter m = Some roto_noop \<Longrightarrow> accepted E m hdr u = all_announced_with_path_id u"
  by (simp add: accepted_def filter_verdict_of_def roto_noop_def case_prod_beta)

text \<open>A labeled route is removed only by a withdrawal with the same label stack.\<close>

lemma labeled_withdrawal_misses:
  "ls \<noteq> ls' \<Longrightarrow> route_map (snd (remove_with_path_id r (Labeled p ls') i T)) (r, table_route_key_from_prefix (Labeled p ls) i) =
     route_map T (r, table_route_key_from_prefix (Labeled p ls) i)"
  by (simp add: route_map_remove table_route_key_from_prefix_def)

end
