(* ===== verification/Rib_Properties.thy ===== *)
theory Rib_Properties
  imports Rib_Laws
begin

text \<open>
  The properties of the RIB manager, each an application of the laws, with sample states for the witnesses.
\<close>

section \<open>Sessions keep their epoch\<close>

definition source_of :: "rib_manager \<Rightarrow> ip_addr \<Rightarrow> observation_source option" where
  "source_of m a = map_option bs_source (hm_get (speakers m) a)"

lemma source_of_ops [simp]:
  "source_of (on_initiation b n d m) a = source_of m a"
  "source_of (ensure_peer b hdr m) a = source_of m a"
  "source_of (update_peer k f m) a = source_of m a"
  "source_of (update_rib k g m) a = source_of m a"
  "source_of (m\<lparr>ribs := rs\<rparr>) a = source_of m a"
  "source_of (sync_peer_route_counts k m) a = source_of m a"
  "source_of (snd (emit_with_source i b src now pl e)) a = source_of (snd e) a"
  by (auto simp: source_of_def on_initiation_def ensure_peer_def update_peer_def update_rib_def
      sync_peer_route_counts_def Let_def hm_gets emit_state option.map_comp comp_def split: option.splits)

lemma source_of_peer [simp]:
  "source_of (on_peer_up b now pu m) a = source_of m a" "source_of (on_peer_down b now hdr m) a = source_of m a"
  by (simp_all add: on_peer_up_def on_peer_down_def Let_def)

lemma source_of_monitoring [simp]: "source_of (snd (on_route_monitoring E i b src now hdr u m)) a = source_of m a"
proof -
  have "source_of (snd (fold (withdraw_route i b src now hdr) ws e)) a = source_of (snd e) a" for ws e
    by (induction ws arbitrary: e) (simp_all add: withdraw_route_def split_beta)
  moreover have "source_of (snd (fold (announce_route E i b src now hdr attrs) ns e)) a = source_of (snd e) a" for attrs ns e
    by (induction ns arbitrary: e) (simp_all add: announce_route_def split_beta Let_def)
  ultimately show ?thesis
    by (simp add: on_route_monitoring_def Let_def split_beta split: option.splits)
qed

lemma session_source_epoch:
  "source_of m a = Some src \<Longrightarrow> \<exists>src'. source_of (snd (session_source a now ep m)) a = Some src'
     \<and> session_epoch src \<le> session_epoch src'"
  by (auto simp: source_of_def session_source_def ensure_speaker_source_def Let_def hm_gets split: option.splits)

definition is_termination :: "bmp_message \<Rightarrow> bool" where
  "is_termination msg = (case payload msg of Termination _ _ \<Rightarrow> True | _ \<Rightarrow> False)"

lemma process_keeps_epoch:
  assumes "manager_ok m" "source_of m a = Some src" "\<not> (speaker_addr msg = a \<and> is_termination msg)"
  shows "\<exists>src'. source_of (snd (process_for_epoch E msg ep m)) a = Some src' \<and> session_epoch src \<le> session_epoch src'"
proof (cases "speaker_addr msg = a")
  case True
  let ?m1 = "snd (session_source a (received_at msg) ep m)"
  have "source_of (snd (process_for_epoch E msg ep m)) a = source_of ?m1 a"
    using True assms(3)
    by (auto simp: process_for_epoch_def stale_termination_def is_termination_def Let_def split_beta split: bmp_payload.splits)
  with session_source_epoch [OF assms(2)] show ?thesis by metis
next
  case False
  with same_but_process [OF assms(1), of msg E ep] assms(2) show ?thesis
    by (auto simp: same_but_def source_of_def)
qed

definition run_messages :: "filter_externals \<Rightarrow> (bmp_message \<times> u64 option) list \<Rightarrow> rib_manager \<Rightarrow> rib_manager" where
  "run_messages E msgs m = fold (\<lambda>(msg, ep) m. snd (process_for_epoch E msg ep m)) msgs m"

lemma run_keeps_epoch:
  "manager_ok m \<Longrightarrow> source_of m a = Some src \<Longrightarrow>
   (\<And>msg ep. (msg, ep) \<in> set msgs \<Longrightarrow> \<not> (speaker_addr msg = a \<and> is_termination msg)) \<Longrightarrow>
   \<exists>src'. source_of (run_messages E msgs m) a = Some src' \<and> session_epoch src \<le> session_epoch src'"
proof (induction msgs arbitrary: m src)
  case (Cons x msgs)
  obtain msg ep where x: "x = (msg, ep)" by force
  obtain src1 where "source_of (snd (process_for_epoch E msg ep m)) a = Some src1" "session_epoch src \<le> session_epoch src1"
    using process_keeps_epoch [OF Cons.prems(1,2), of msg E ep] Cons.prems(3) [of msg ep] x by auto
  with Cons.IH [OF ok_process [OF Cons.prems(1)] this(1)] Cons.prems(3) show ?case
    by (fastforce simp: run_messages_def x)
qed (simp add: run_messages_def)

lemma open_session_source: "source_of (snd (open_speaker_session a now m)) a = Some (observation_source_new a (next_session_epoch m))"
  by (simp add: source_of_def open_speaker_session_def Let_def hm_gets with_source_def split: option.splits)

section \<open>Properties\<close>

text \<open>C2: In every state the RIB manager can reach, each session stands under its own speaker address, each peer under
  its own key and under its own speaker, every route table is well formed and belongs to a known peer, and the
  published route counts of a peer are the numbers of routes its tables hold.\<close>

theorem manager_invariant:
  assumes "reachable X E m"
  shows "(\<forall>a s. hm_get (speakers m) a = Some s \<longrightarrow> bs_speaker s = a \<and> exporter_addr (bs_source s) = a
      \<and> (\<forall>k p. hm_get (peers s) k = Some p \<longrightarrow> ps_key p = k \<and> pk_speaker k = a
          \<and> (\<forall>r. unwrap_or 0 (hm_get (route_counts p) r) = card {key. route_map (table_of m k) (r, key) \<noteq> None})))
    \<and> (\<forall>k T. hm_get (ribs m) k = Some T \<longrightarrow> rib_ok T
      \<and> (\<exists>s. hm_get (speakers m) (pk_speaker k) = Some s \<and> hm_get (peers s) k \<noteq> None))"
proof -
  from reachable_ok [OF assms] have ok: "manager_ok_except {} m" by (simp add: manager_ok_def)
  have counts: "unwrap_or 0 (hm_get (counts_of m k) r) = card {key. route_map (table_of m k) (r, key) \<noteq> None}" for k r
  proof -
    have "hm_get (rib_counts T) r = map_option length (hm_get (tables T) r)" for T
      by (simp add: rib_counts_def hm_get_def map_of_map)
    then have "unwrap_or 0 (hm_get (counts_of m k) r) = rib_count r (table_of m k)"
      by (auto simp: counts_of_def table_of_def rib_count_def unwrap_or_def rib_table_new_def hm_gets split: option.splits)
    with rib_count_card [OF table_of_ok [OF ok]] show ?thesis by simp
  qed
  have "bs_speaker s = a \<and> exporter_addr (bs_source s) = a \<and> (\<forall>k p. hm_get (peers s) k = Some p \<longrightarrow> ps_key p = k
      \<and> pk_speaker k = a \<and> route_counts p = counts_of m k)" if s: "hm_get (speakers m) a = Some s" for a s
    using ok_parts(3) [OF ok s] ok_counts [OF ok _ _ empty_iff [THEN iffD1, THEN notI]] s
    by (auto simp: session_ok_def)
  moreover have "rib_ok T \<and> (\<exists>s. hm_get (speakers m) (pk_speaker k) = Some s \<and> hm_get (peers s) k \<noteq> None)"
    if "hm_get (ribs m) k = Some T" for k T
    using ok_parts(4,5) [OF ok that] by (auto simp: peer_of_def split: option.splits)
  ultimately show ?thesis using counts by simp
qed

text \<open>C4: A message of one speaker changes nothing the manager holds of any other speaker: sessions, peers and route
  tables of all others are as before.\<close>

theorem speaker_isolation:
  assumes "reachable X E m" "b \<noteq> speaker_addr msg"
  shows "hm_get (speakers (snd (process_for_epoch E msg ep m))) b = hm_get (speakers m) b
    \<and> (pk_speaker k = b \<longrightarrow> hm_get (ribs (snd (process_for_epoch E msg ep m))) k = hm_get (ribs m) k)"
  using same_but_process [OF reachable_ok [OF assms(1)], of msg E ep] assms(2)
  by (auto simp: same_but_def)

text \<open>C5: A connection that closes late cannot tear down its successor. Once a speaker has opened a new session, the
  Termination of an older epoch changes nothing and emits nothing, whatever other messages were processed in
  between; a Termination that is not fenced off removes the session and all tables of the speaker.\<close>

theorem stale_termination_fenced:
  assumes "reachable X E m" "old < next_session_epoch m"
    and "m2 = run_messages E msgs (snd (open_speaker_session a now m))"
    and "\<And>msg ep. (msg, ep) \<in> set msgs \<Longrightarrow> \<not> (speaker_addr msg = a \<and> is_termination msg)"
    and "payload t = Termination code txt" "speaker_addr t = a"
  shows "process_for_epoch E t (Some old) m2 = ([], m2)
    \<and> (\<not> stale_termination t ep m2 \<longrightarrow>
         hm_get (speakers (snd (process_for_epoch E t ep m2))) a = None
         \<and> (pk_speaker k = a \<longrightarrow> hm_get (ribs (snd (process_for_epoch E t ep m2))) k = None))"
proof -
  let ?m1 = "snd (open_speaker_session a now m)"
  have ok1: "manager_ok ?m1"
    using reachable_ok [OF assms(1)] ok_open_session by (simp add: manager_ok_def)
  have "manager_ok (run_messages E ms m0)" if "manager_ok m0" for ms m0
    using that unfolding run_messages_def by (rule fold_inv) (auto simp: ok_process)
  then have ok2: "manager_ok m2" using ok1 assms(3) by simp
  have "\<exists>src. source_of m2 a = Some src \<and> session_epoch (observation_source_new a (next_session_epoch m)) \<le> session_epoch src"
    unfolding assms(3) by (rule run_keeps_epoch [OF ok1 open_session_source]) (rule assms(4))
  then obtain src where src: "source_of m2 a = Some src" "next_session_epoch m \<le> session_epoch src"
    by (auto simp: observation_source_new_def)
  with assms(2,5,6) have "stale_termination t (Some old) m2"
    by (auto simp: stale_termination_def source_of_def)
  moreover have "manager_ok_except {} (snd (session_source a (received_at t) ep m2))"
    using ok2 ok_session_source by (simp add: manager_ok_def)
  ultimately show ?thesis
    using assms(5,6) by (auto simp: process_for_epoch_def Let_def split_beta emit_state termination_lookup)
qed

lemma table_of_ops:
  "table_of (update_peer k f m) = table_of m" "table_of (ensure_peer a hdr m) = table_of m"
  "table_of (sync_peer_route_counts k m) = table_of m"
  "table_of (snd (session_source a now ep m)) = table_of m"
  by (rule table_of_same_ribs, simp add: sync_peer_route_counts_def session_source_def ensure_speaker_source_def
      Let_def split: option.splits)+

text \<open>C1: What the table of a peer holds after a Route Monitoring message that is not an End-of-RIB marker: at every key
  the last announcement of the message that passed the filters, with the attributes of the UPDATE; nothing where
  the message only withdrew the route; and what was there before everywhere else, up to the best-path flag.\<close>

theorem route_monitoring_effect:
  assumes "reachable X E m" "payload msg = RouteMonitoring hdr u" "eor_afi_safi u = None"
    and "k = peer_key_from_header (speaker_addr msg) hdr"
  shows "map_option bare_entry (route_map (table_of (snd (process_for_epoch E msg ep m)) k) (r, key)) =
    (case if r = hdr_rib_type hdr then find (\<lambda>e. entry_key e = key)
          (rev (map (\<lambda>(p, pid). new_entry (received_at msg) hdr (attributes u) p pid) (accepted E m hdr u))) else None of
       Some e \<Rightarrow> Some (bare_entry e)
     | None \<Rightarrow> if (r, key) \<in> (\<lambda>(p, pid). (hdr_rib_type hdr, table_route_key_from_prefix p pid)) ` set (all_withdrawn_with_path_id u)
         then None else map_option bare_entry (route_map (table_of m k) (r, key)))"
proof -
  let ?ss = "session_source (speaker_addr msg) (received_at msg) ep m"
  have "manager_ok (snd ?ss)"
    using reachable_ok [OF assms(1)] ok_session_source by (simp add: manager_ok_def)
  note effect = monitoring_table [OF this assms(3,4) refl, of E "msg_id msg" "fst ?ss" "received_at msg" r key]
  have "rm_filter (snd ?ss) = rm_filter m" "roto_filter (snd ?ss) = roto_filter m"
    by (simp_all add: session_source_def ensure_speaker_source_def Let_def split: option.splits)
  then have "accepted E (snd ?ss) hdr u = accepted E m hdr u"
    unfolding accepted_def by (simp only: verdict_cong [of "snd ?ss" m])
  moreover have "process_for_epoch E msg ep m =
      on_route_monitoring E (msg_id msg) (speaker_addr msg) (fst ?ss) (received_at msg) hdr u (snd ?ss)"
    using assms(2) by (simp add: process_for_epoch_def stale_termination_def Let_def split_beta)
  ultimately show ?thesis using effect by (simp only: table_of_ops)
qed

text \<open>Every operation of the manager only appends to the events it has sent, with the numbers from its counter on. The counter
  moves by what was sent, or is raised by the recovery.\<close>

abbreviation ev_seq :: "rib_event \<Rightarrow> u64" where
  "ev_seq ev \<equiv> ek_sequence (ev_key ev)"

definition appends :: "rib_manager \<Rightarrow> rib_event list \<Rightarrow> rib_manager \<Rightarrow> bool" where
  "appends m evs m' \<longleftrightarrow> event_tx m' = event_tx m @ evs
     \<and> map ev_seq evs = map (\<lambda>j. next_event_seq m + word_of_nat j) [0..<length evs]
     \<and> (next_event_seq m' = next_event_seq m + word_of_nat (length evs)
        \<or> evs = [] \<and> next_event_seq m < next_event_seq m' \<and> m' = ensure_min_event_seq (next_event_seq m') m)"

lemma quiet_steps:
  "next_event_seq (snd (open_speaker_session a now m)) = next_event_seq m" "event_tx (snd (open_speaker_session a now m)) = event_tx m"
  "next_event_seq (snd (expire_stale_for_peer_key X k secs m)) = next_event_seq m"
  "event_tx (snd (expire_stale_for_peer_key X k secs m)) = event_tx m"
  by (auto simp: open_speaker_session_def expire_stale_for_peer_key_def Let_def split_beta split: option.splits)

lemma quiet_expire:
  "next_event_seq (snd (expire_keys X ks secs m)) = next_event_seq m \<and> event_tx (snd (expire_keys X ks secs m)) = event_tx m"
  by (induction ks arbitrary: m) (simp_all add: split_beta quiet_steps)

lemma step_appends: "rib_step X E m m' \<Longrightarrow> \<exists>evs. appends m evs m'"
proof (induction rule: rib_step.induct)
  case (step_process m msg ep)
  show ?case using numbered_process [of msg ep m E]
    by (intro exI [of _ "fst (process_for_epoch E msg ep m)"])
      (auto simp: appends_def numbered_def Let_def event_key_new_def intro!: nth_equalityI)
qed (rule exI [of _ "[]"], auto simp: appends_def quiet_steps quiet_expire clear_speaker_eor_def expire_stale_for_peer_def
      ensure_min_event_seq_def set_filter_def clear_filter_def set_roto_filter_def)+

text \<open>The runs of the manager in which the 64-bit counter does not wrap.\<close>

inductive counted :: "externals \<Rightarrow> filter_externals \<Rightarrow> rib_manager \<Rightarrow> bool" for X E where
  counted_new: "counted X E rib_manager_new"
| counted_step: "counted X E m \<Longrightarrow> rib_step X E m m' \<Longrightarrow>
    unat (next_event_seq m) + (length (event_tx m') - length (event_tx m)) < 2 ^ 64 \<Longrightarrow> counted X E m'"

definition ascending :: "rib_manager \<Rightarrow> bool" where
  "ascending m \<longleftrightarrow> sorted_wrt (<) (map ev_seq (event_tx m)) \<and> (\<forall>ev\<in>set (event_tx m). ev_seq ev < next_event_seq m)"

lemma sorted_upt_words:
  "unat (n :: u64) + k < 2 ^ 64 \<Longrightarrow> sorted_wrt (<) (map (\<lambda>j. n + word_of_nat j) [0..<k])
     \<and> (\<forall>j < k. n \<le> n + word_of_nat j \<and> n + word_of_nat j < n + word_of_nat k)"
proof -
  assume *: "unat n + k < 2 ^ 64"
  then have u: "unat (n + word_of_nat j) = unat n + j" if "j \<le> k" for j
    using that by (simp add: unat_word_ariths unat_of_nat)
  then have "n + word_of_nat i < n + word_of_nat j" if "i < j" "j \<le> k" for i j
    using that by (simp add: word_less_nat_alt)
  moreover have "n \<le> n + word_of_nat j" if "j < k" for j
    using u [of j] that by (simp add: word_le_nat_alt)
  ultimately show ?thesis by (simp add: sorted_wrt_iff_nth_less)
qed

lemma ascending_step:
  assumes "ascending m" "appends m evs m'" "unat (next_event_seq m) + length evs < 2 ^ 64"
  shows "ascending m'"
proof -
  let ?n = "next_event_seq m" and ?k = "length evs"
  from sorted_upt_words [OF assms(3)] have s: "sorted_wrt (<) (map ev_seq evs)"
      and b: "\<forall>x\<in>set (map ev_seq evs). ?n \<le> x \<and> x < ?n + word_of_nat ?k"
    using assms(2) by (auto simp: appends_def)
  have n: "?n \<le> next_event_seq m'" "\<forall>x\<in>set (map ev_seq evs). x < next_event_seq m'"
    using assms(2) b unat_word_ariths(1) [of ?n "word_of_nat ?k"] assms(3)
    by (auto simp: appends_def word_le_nat_alt word_less_nat_alt unat_of_nat)
  from assms(1) have o: "\<forall>x\<in>set (map ev_seq (event_tx m)). x < ?n" by (simp add: ascending_def)
  have "sorted_wrt (<) (map ev_seq (event_tx m) @ map ev_seq evs)"
    unfolding sorted_wrt_append using assms(1) s o b by (auto simp: ascending_def intro: less_le_trans)
  moreover have "\<forall>x\<in>set (map ev_seq (event_tx m) @ map ev_seq evs). x < next_event_seq m'"
    using o n by (auto intro: less_le_trans)
  moreover have "event_tx m' = event_tx m @ evs" using assms(2) by (simp add: appends_def)
  ultimately show ?thesis by (auto simp: ascending_def)
qed

lemma counted_ascending: "counted X E m \<Longrightarrow> ascending m"
proof (induction rule: counted.induct)
  case (counted_step m m')
  then obtain evs where evs: "appends m evs m'" using step_appends by blast
  then have "event_tx m' = event_tx m @ evs" unfolding appends_def by (rule conjunct1)
  with counted_step.hyps(3) show ?case by (intro ascending_step [OF counted_step.IH evs]) simp
qed (simp add: ascending_def rib_manager_new_def)

text \<open>C8: The events of a manager are numbered in the order in which they are sent, under every operation the manager has
  and not only message processing. An operation never touches the events sent before; those it adds carry consecutive
  numbers from the counter on; and the counter moves by exactly that many, except that recovery may raise it, which sends nothing.
  So in every run in which the 64-bit counter has not wrapped the numbers are strictly ascending, hence distinct, and
  all below the counter.\<close>

theorem events_numbered:
  assumes "counted X E m" and "rib_step X E m m'"
  shows "(\<exists>evs. event_tx m' = event_tx m @ evs
      \<and> map (\<lambda>ev. ek_sequence (ev_key ev)) evs = map (\<lambda>j. next_event_seq m + word_of_nat j) [0..<length evs]
      \<and> (next_event_seq m' = next_event_seq m + word_of_nat (length evs)
         \<or> evs = [] \<and> next_event_seq m < next_event_seq m' \<and> m' = ensure_min_event_seq (next_event_seq m') m))
    \<and> sorted_wrt (<) (map (\<lambda>ev. ek_sequence (ev_key ev)) (event_tx m))
    \<and> (\<forall>ev\<in>set (event_tx m). ek_sequence (ev_key ev) < next_event_seq m)"
  using step_appends [OF assms(2)] counted_ascending [OF assms(1)] unfolding appends_def ascending_def by blast

text \<open>C39: Withdrawing the best of several Add-Path routes leaves a prefix that has routes but no best one: selection
  runs only on announcements, so none of the remaining routes is promoted until the next announcement.\<close>

theorem withdrawn_best_not_replaced:
  assumes "payload msg = RouteMonitoring hdr u" "eor_afi_safi u = None"
    and "all_announced_with_path_id u = []" "all_withdrawn_with_path_id u = [(p, pid)]"
    and "k = peer_key_from_header (speaker_addr msg) hdr" "r = hdr_rib_type hdr"
    and "\<And>key e. route_map (table_of m k) (r, key) = Some e \<Longrightarrow> key_matches_prefix key p \<Longrightarrow>
       key \<noteq> table_route_key_from_prefix p pid \<Longrightarrow> \<not> re_is_best e"
  shows "routes_of r p (route_map (table_of (snd (process_for_epoch E msg ep m)) k)) =
      routes_of r p (route_map (table_of m k)) - {table_route_key_from_prefix p pid}
    \<and> (\<forall>key e. route_map (table_of (snd (process_for_epoch E msg ep m)) k) (r, key) = Some e \<longrightarrow>
         key_matches_prefix key p \<longrightarrow> \<not> re_is_best e)"
proof -
  let ?ss = "session_source (speaker_addr msg) (received_at msg) ep m"
  have "snd (process_for_epoch E msg ep m) = sync_peer_route_counts k
      (snd (fold (withdraw_route (msg_id msg) (speaker_addr msg) (fst ?ss) (received_at msg) hdr) [(p, pid)]
        ([], ensure_peer (speaker_addr msg) hdr (snd ?ss))))"
    using assms(1-5) by (simp add: process_for_epoch_def stale_termination_def Let_def split_beta on_route_monitoring_def)
  then have "table_of (snd (process_for_epoch E msg ep m)) k = snd (remove_with_path_id r p pid (table_of m k))"
    unfolding assms(5,6) using table_of_withdraws [of "msg_id msg" "speaker_addr msg" "fst ?ss" "received_at msg" hdr
        "[(p, pid)]" "([], ensure_peer (speaker_addr msg) hdr (snd ?ss))"] by (simp add: table_of_ops)
  then show ?thesis using assms(7) by (auto simp: route_map_remove routes_of_def split: if_splits)
qed

section \<open>A sample run\<close>

definition rib_header :: peer_header where
  "rib_header = \<lparr>peer_type = GlobalInstance, peer_flags = 0, peer_distinguisher = replicate 8 0, peer_address = IpV4 9,
     peer_as = 65001, peer_bgp_id = 1, hdr_timestamp = 0, hdr_rib_type = AdjRibInPrePolicy\<rparr>"

definition rib_prefix :: prefix where
  "rib_prefix = PrefixV4 (Ipv4Net 0x0A000000 8)"

definition rib_message :: "bmp_payload \<Rightarrow> bmp_message" where
  "rib_message pl = \<lparr>msg_id = 7, received_at = 100, speaker_addr = IpV4 1, payload = pl\<rparr>"

definition announce_message :: bmp_message where
  "announce_message = rib_message (RouteMonitoring rib_header
     \<lparr>withdrawn = [], withdrawn_path_ids = [], attributes = default_attributes, announced = [rib_prefix], announced_path_ids = []\<rparr>)"

definition withdraw_message :: bmp_message where
  "withdraw_message = rib_message (RouteMonitoring rib_header
     \<lparr>withdrawn = [rib_prefix], withdrawn_path_ids = [Some 2], attributes = default_attributes, announced = [], announced_path_ids = []\<rparr>)"

abbreviation rib_key :: peer_key where
  "rib_key \<equiv> peer_key_from_header (IpV4 1) rib_header"

abbreviation announced_state :: rib_manager where
  "announced_state \<equiv> snd (process_for_epoch sample_filter_externals announce_message None rib_manager_new)"

lemmas rib_samples = rib_message_def announce_message_def withdraw_message_def

lemma announced_reachable: "reachable documented_externals sample_filter_externals announced_state"
  by (rule reach_step [OF reach_new step_process])

lemma announce_update: "payload announce_message = RouteMonitoring rib_header u \<Longrightarrow> eor_afi_safi u = None
    \<and> all_announced_with_path_id u = [(rib_prefix, None)] \<and> all_withdrawn_with_path_id u = []"
  by (auto simp: rib_samples eor_afi_safi_def all_announced_with_path_id_def all_withdrawn_with_path_id_def zip_ids_def
      default_attributes_def Let_def)

lemma announced_peer:
  "\<exists>s p T. hm_get (speakers announced_state) (IpV4 1) = Some s \<and> hm_get (peers s) rib_key = Some p
     \<and> hm_get (ribs announced_state) rib_key = Some T"
proof -
  have "hm_get (ribs announced_state) rib_key \<noteq> None"
    using announce_update
    by (simp add: process_for_epoch_def rib_samples stale_termination_def session_source_def ensure_speaker_source_def
        rib_manager_new_def on_route_monitoring_def announce_route_def filter_verdict_of_def Let_def split_beta
        hm_gets ensure_peer_def sync_peer_route_counts_def emit_state update_rib_def update_peer_def)
  then show ?thesis
    using ok_parts(5) [of "{}" announced_state rib_key] reachable_ok [OF announced_reachable]
    by (auto simp: manager_ok_def peer_of_def split: option.splits)
qed

theorem manager_invariant_witness:
  "\<exists>s p T. hm_get (speakers announced_state) (IpV4 1) = Some s \<and> bs_speaker s = IpV4 1
     \<and> hm_get (peers s) rib_key = Some p \<and> ps_key p = rib_key \<and> hm_get (ribs announced_state) rib_key = Some T \<and> rib_ok T
     \<and> unwrap_or 0 (hm_get (route_counts p) AdjRibInPrePolicy) =
         card {key. route_map (table_of announced_state rib_key) (AdjRibInPrePolicy, key) \<noteq> None}"
proof -
  obtain s p T where "hm_get (speakers announced_state) (IpV4 1) = Some s" "hm_get (peers s) rib_key = Some p"
      "hm_get (ribs announced_state) rib_key = Some T"
    using announced_peer by blast
  with manager_invariant [OF announced_reachable] show ?thesis by blast
qed

theorem speaker_isolation_witness:
  "hm_get (speakers (snd (process_for_epoch sample_filter_externals (rib_message (Termination 0 None)) None announced_state))) (IpV4 2) =
     hm_get (speakers announced_state) (IpV4 2)"
  using speaker_isolation [OF announced_reachable, of "IpV4 2" "rib_message (Termination 0 None)"]
  by (simp add: rib_message_def)

theorem stale_termination_fenced_witness:
  "process_for_epoch sample_filter_externals (rib_message (Termination 0 None)) (Some 0)
     (run_messages sample_filter_externals [(announce_message, Some 1)] (snd (open_speaker_session (IpV4 1) 50 rib_manager_new))) =
   ([], run_messages sample_filter_externals [(announce_message, Some 1)] (snd (open_speaker_session (IpV4 1) 50 rib_manager_new)))"
  by (rule stale_termination_fenced [OF reach_new, THEN conjunct1])
     (auto simp: rib_samples is_termination_def rib_manager_new_def)

theorem route_monitoring_effect_witness:
  "map_option bare_entry (route_map (table_of announced_state rib_key) (AdjRibInPrePolicy, table_route_key_from_prefix rib_prefix None)) =
     Some (new_entry 100 rib_header default_attributes rib_prefix None)"
proof -
  obtain u where u: "payload announce_message = RouteMonitoring rib_header u" "attributes u = default_attributes"
    by (simp add: rib_samples)
  have "accepted sample_filter_externals rib_manager_new rib_header u = [(rib_prefix, None)]"
    using announce_update [OF u(1)] by (simp add: accepted_def filter_verdict_of_def rib_manager_new_def)
  then show ?thesis
    using route_monitoring_effect [OF reach_new u(1), of rib_key sample_filter_externals None AdjRibInPrePolicy
        "table_route_key_from_prefix rib_prefix None"] announce_update [OF u(1)] u(2)
    by (simp add: rib_samples entry_key_def new_entry_def rib_header_def bare_entry_def)
qed

definition stats_message :: bmp_message where
  "stats_message = rib_message (StatsReport rib_header [])"

lemma stats_step:
  "event_tx (snd (process_for_epoch E stats_message None m)) = event_tx m @ fst (process_for_epoch E stats_message None m)"
  "length (fst (process_for_epoch E stats_message None m)) = 1"
  "next_event_seq (snd (process_for_epoch E stats_message None m)) = next_event_seq m + 1"
  by (simp_all add: process_for_epoch_def stats_message_def rib_message_def stale_termination_def Let_def split_beta emit_with_source_def)

text \<open>A message, a restart that raises the counter to 50, and a second message: the events carry 1 and 50.\<close>

theorem events_numbered_witness:
  "\<exists>m m'. rib_step documented_externals sample_filter_externals m m' \<and> length (event_tx m) = 1 \<and> next_event_seq m = 50
     \<and> (\<exists>evs. event_tx m' = event_tx m @ evs
          \<and> map (\<lambda>ev. ek_sequence (ev_key ev)) evs = map (\<lambda>j. 50 + word_of_nat j) [0..<length evs])
     \<and> (\<forall>ev\<in>set (event_tx m). ek_sequence (ev_key ev) < 50)"
proof -
  let ?E = sample_filter_externals
  define m1 where "m1 = snd (process_for_epoch ?E stats_message None rib_manager_new)"
  define m2 where "m2 = ensure_min_event_seq 50 m1"
  define m3 where "m3 = snd (process_for_epoch ?E stats_message None m2)"
  have m1: "length (event_tx m1) = 1" "next_event_seq m1 = 2"
    using stats_step [of ?E rib_manager_new] by (simp_all add: m1_def rib_manager_new_def)
  then have m2: "event_tx m2 = event_tx m1" "next_event_seq m2 = 50" by (simp_all add: m2_def ensure_min_event_seq_def)
  have new: "unat (next_event_seq rib_manager_new) = 1" "event_tx rib_manager_new = []" by (simp_all add: rib_manager_new_def)
  have "counted documented_externals ?E m1"
    unfolding m1_def by (rule counted_step [OF counted_new step_process], fold m1_def) (simp add: new m1)
  then have "counted documented_externals ?E m2"
    unfolding m2_def by (rule counted_step [OF _ step_min_seq], fold m2_def) (simp add: m1 m2)
  moreover have step: "rib_step documented_externals ?E m2 m3" unfolding m3_def by (rule step_process)
  ultimately have "(\<exists>evs. event_tx m3 = event_tx m2 @ evs
          \<and> map (\<lambda>ev. ek_sequence (ev_key ev)) evs = map (\<lambda>j. 50 + word_of_nat j) [0..<length evs])
     \<and> (\<forall>ev\<in>set (event_tx m2). ek_sequence (ev_key ev) < 50)"
    using events_numbered [of documented_externals ?E m2 m3] unfolding m2(2) by blast
  moreover have "length (event_tx m2) = 1" using m1 m2 by simp
  ultimately show ?thesis using step m2(2) by blast
qed

definition two_routes :: rib_table where
  "two_routes = snd (rib_insert AdjRibInPrePolicy (sample_route (Some 2) 200)
     (snd (rib_insert AdjRibInPrePolicy ((sample_route (Some 1) 100)\<lparr>re_is_best := False\<rparr>) rib_table_new)))"

theorem withdrawn_best_not_replaced_witness:
  "routes_of AdjRibInPrePolicy rib_prefix (route_map (table_of (snd (process_for_epoch sample_filter_externals withdraw_message None
       (rib_manager_new\<lparr>ribs := [(rib_key, two_routes)]\<rparr>))) rib_key)) =
     routes_of AdjRibInPrePolicy rib_prefix (route_map two_routes) - {table_route_key_from_prefix rib_prefix (Some 2)}"
proof -
  obtain u where u: "payload withdraw_message = RouteMonitoring rib_header u" "eor_afi_safi u = None"
      "all_announced_with_path_id u = []" "all_withdrawn_with_path_id u = [(rib_prefix, Some 2)]"
    by (auto simp: rib_samples eor_afi_safi_def all_announced_with_path_id_def all_withdrawn_with_path_id_def zip_ids_def
        default_attributes_def Let_def)
  have T: "table_of (rib_manager_new\<lparr>ribs := [(rib_key, two_routes)]\<rparr>) rib_key = two_routes"
    by (simp add: table_of_def hm_get_def)
  have "\<not> re_is_best e" if "route_map two_routes (AdjRibInPrePolicy, key) = Some e"
      "key \<noteq> table_route_key_from_prefix rib_prefix (Some 2)" for key e
    using that by (auto simp: two_routes_def route_map_insert sample_route_simps table_route_key_from_prefix_def rib_prefix_def
        split: if_splits)
  with withdrawn_best_not_replaced [OF u, of rib_key AdjRibInPrePolicy "rib_manager_new\<lparr>ribs := [(rib_key, two_routes)]\<rparr>"
      sample_filter_externals None] T
  show ?thesis by (simp add: rib_samples rib_header_def)
qed

end
