(* ===== verification/Routing_Service.thy ===== *)
theory Routing_Service
  imports Journal_Laws Rib_Properties
begin

text \<open>
  \<open>src/routing_service/mod.rs\<close>, the reduced routing process: it decodes frames, journals them, feeds the RIB manager and
  journals the events. The state of the service is one record; the locks around its parts only serialize the handlers,
  and a handler is a function on the state. Where a handler can fail after it has changed the state, it returns both
  its result and the state. Identifiers and times that the code takes from \<open>Uuid::new_v4\<close> and \<open>Utc::now\<close> are
  arguments.
\<close>

section \<open>Configuration\<close>

record routing_service_config =
  bmp_listen_addr :: string
  http_listen_addr :: string
  bmp_journal_path :: "string option"
  event_journal_path :: "string option"
  max_frame_bytes :: u32
  internal_service_token :: "string option"

definition validate_config :: "routing_service_config \<Rightarrow> (string, unit) outcome" where
  "validate_config c =
     (if trim (bmp_listen_addr c) = [] then Err ''bmp_listen_addr must not be empty''
      else if trim (http_listen_addr c) = [] then Err ''http_listen_addr must not be empty''
      else if max_frame_bytes c < 6 \<or> max_frame_bytes c > 16 * 1024 * 1024
      then Err (''max_frame_bytes ('' @ dec (unat (max_frame_bytes c)) @ '') must be between 6 and 16777216'')
      else Ok ())"

section \<open>State\<close>

text \<open>\<open>TransportGapRecord\<close> has the fields of the record the journal keeps.\<close>

type_synonym transport_gap_record = journal_transport_gap

record routing_service_state =
  config :: routing_service_config
  rib :: rib_manager
  bmp_journal :: "journal_file option"
  event_journal :: rib_event_journal
  contexts :: "(peer_key, bgp_decode_context) hmap"
  gaps :: "(ip_addr, transport_gap_record) hmap"

datatype service_error =
    InvalidConfig string
  | Rejected error
  | JournalFailed journal_error

definition journal_result :: "(journal_error, 'a) outcome \<Rightarrow> (service_error, 'a) outcome" where
  "journal_result r = (case r of Ok x \<Rightarrow> Ok x | Err e \<Rightarrow> Err (JournalFailed e) | Panic \<Rightarrow> Panic)"

text \<open>The files at the configured paths: what \<open>exists\<close> and \<open>read\<close> see.\<close>

record journal_files =
  bmp_file :: "journal_file option"
  event_file :: "journal_file option"

definition at_path :: "string option \<Rightarrow> journal_file option \<Rightarrow> journal_file option option" where
  "at_path p f = map_option (\<lambda>_. f) p"

text \<open>What the start-up recovers from the BMP journal: manager, contexts, gaps, emitted events, and the repaired file.\<close>

definition recover ::
  "externals \<Rightarrow> filter_externals \<Rightarrow> json \<Rightarrow> journal_file option option
    \<Rightarrow> (journal_error, replay_outcome \<times> rib_manager \<times> journal_file option option) outcome" where
  "recover X E J path = (case path of
     Some (Some jf) \<Rightarrow> and_then (replay_into_with_state X E J jf rib_manager_new) (\<lambda>(out, m, jf). Ok (out, m, Some (Some jf)))
   | _ \<Rightarrow> Ok (outcome_of 0 (replay_start rib_manager_new), rib_manager_new, path))"

definition missing_events :: "rib_event_journal \<Rightarrow> rib_event list \<Rightarrow> rib_event list" where
  "missing_events j evs = filter (\<lambda>ev. ek_sequence (ev_key ev) \<notin> existing_sequences j) evs"

definition routing_service_new ::
  "externals \<Rightarrow> filter_externals \<Rightarrow> json \<Rightarrow> routing_service_config \<Rightarrow> journal_files
    \<Rightarrow> (service_error, routing_service_state) outcome" where
  "routing_service_new X E J cfg files =
     (case validate_config cfg of
        Err e \<Rightarrow> Err (InvalidConfig (''Invalid RoutingServiceConfig: '' @ e))
      | Panic \<Rightarrow> Panic
      | Ok _ \<Rightarrow> journal_result (
          and_then (event_journal_open J (at_path (event_journal_path cfg) (event_file files))) (\<lambda>ej.
          and_then (recover X E J (at_path (bmp_journal_path cfg) (bmp_file files))) (\<lambda>(out, m, path).
          and_then (append_batch J (missing_events ej (emitted_events out)) ej) (\<lambda>ej.
          and_then (bmp_journal_open X E J path) (\<lambda>bj.
          Ok \<lparr>config = cfg, rib = ensure_min_event_seq (latest_seq ej + 1) m, bmp_journal = bj,
              event_journal = ej, contexts = decode_contexts out, gaps = transport_gaps out\<rparr>))))))"

section \<open>Ingest\<close>

definition ingest_bmp_message_internal ::
  "filter_externals \<Rightarrow> json \<Rightarrow> bmp_message \<Rightarrow> u64 option \<Rightarrow> bytes option \<Rightarrow> routing_service_state
    \<Rightarrow> (service_error, bmp_message) outcome \<times> routing_service_state" where
  "ingest_bmp_message_internal E J msg epoch frame s =
     (case append_observation J msg epoch frame (bmp_journal s) of
        Err e \<Rightarrow> (Err (JournalFailed e), s)
      | Panic \<Rightarrow> (Panic, s)
      | Ok bj \<Rightarrow>
          let speaker = speaker_addr msg;
              before = or_else epoch (speaker_epoch (rib s) speaker);
              (emitted, m) = process_for_epoch E msg epoch (rib s);
              effective = or_else before (speaker_epoch m speaker);
              s1 = s\<lparr>rib := m, bmp_journal := bj,
                     contexts := learn_context speaker (payload msg) (contexts s),
                     gaps := clear_gap speaker effective (payload msg) (gaps s)\<rparr>
          in (case append_batch J emitted (event_journal s) of
                Ok ej \<Rightarrow> (Ok msg, s1\<lparr>event_journal := ej\<rparr>)
              | Err e \<Rightarrow> (Err (JournalFailed e), s1)
              | Panic \<Rightarrow> (Panic, s1)))"

definition ingest_bmp_message ::
  "filter_externals \<Rightarrow> json \<Rightarrow> bmp_message \<Rightarrow> u64 option \<Rightarrow> routing_service_state
    \<Rightarrow> (service_error, bmp_message) outcome \<times> routing_service_state" where
  "ingest_bmp_message E J msg epoch = ingest_bmp_message_internal E J msg epoch None"

definition ingest_bmp_bytes ::
  "externals \<Rightarrow> filter_externals \<Rightarrow> json \<Rightarrow> 128 word \<Rightarrow> timestamp \<Rightarrow> ip_addr \<Rightarrow> u64 option \<Rightarrow> bytes \<Rightarrow> routing_service_state
    \<Rightarrow> (service_error, bmp_message) outcome \<times> routing_service_state" where
  "ingest_bmp_bytes X E J uuid now speaker epoch frame s =
     (case and_then (frame_context X speaker frame (contexts s))
          (parse_bmp_message_with_context X frame speaker (max_frame_bytes (config s))) of
        Err e \<Rightarrow> (Err (Rejected e), s)
      | Panic \<Rightarrow> (Panic, s)
      | Ok p \<Rightarrow> ingest_bmp_message_internal E J
          \<lparr>msg_id = uuid, received_at = now, speaker_addr = speaker, payload = p\<rparr> epoch (Some frame) s)"

section \<open>Transport loss\<close>

text \<open>A failure to journal the gap is ignored.\<close>

definition record_transport_disconnect_for_epoch ::
  "json \<Rightarrow> timestamp \<Rightarrow> ip_addr \<Rightarrow> u64 option \<Rightarrow> string \<Rightarrow> routing_service_state \<Rightarrow> routing_service_state" where
  "record_transport_disconnect_for_epoch J now speaker epoch why s =
     (let active = speaker_epoch (rib s) speaker in
      if stale_disconnect epoch active then s
      else
        let gap = \<lparr>gap_speaker_addr = speaker, gap_session_epoch = or_else epoch active,
                   gap_disconnected_at = now, gap_reason = why\<rparr>
        in s\<lparr>rib := clear_speaker_eor speaker (rib s),
             bmp_journal := (case append_transport_disconnect J gap (bmp_journal s) of Ok bj \<Rightarrow> bj | _ \<Rightarrow> bmp_journal s),
             gaps := hm_insert speaker gap (gaps s)\<rparr>)"

definition record_transport_disconnect ::
  "json \<Rightarrow> timestamp \<Rightarrow> ip_addr \<Rightarrow> string \<Rightarrow> routing_service_state \<Rightarrow> routing_service_state" where
  "record_transport_disconnect J now speaker why = record_transport_disconnect_for_epoch J now speaker None why"

text \<open>The loop of \<open>overall_completeness\<close> over the sessions: \<open>None\<close> when it returns early, else whether a peer was seen and
  whether all were complete.\<close>

fun peers_complete :: "peer_session list \<Rightarrow> bool \<times> bool \<Rightarrow> (bool \<times> bool) option" where
  "peers_complete [] acc = Some acc"
| "peers_complete (p # ps) (any_peer, all_complete) =
     (if ps_state p \<noteq> Up then None
      else peers_complete ps (True, all_complete \<and> eor_families p \<noteq> []))"

fun speakers_complete :: "bmp_session list \<Rightarrow> bool \<times> bool \<Rightarrow> (bool \<times> bool) option" where
  "speakers_complete [] acc = Some acc"
| "speakers_complete (s # ss) (any_peer, all_complete) =
     (if peers s = [] then speakers_complete ss (any_peer, False)
      else case peers_complete (hm_values (peers s)) (any_peer, all_complete) of
          None \<Rightarrow> None | Some acc \<Rightarrow> speakers_complete ss acc)"

definition overall_completeness :: "routing_service_state \<Rightarrow> string" where
  "overall_completeness s =
     (if gaps s \<noteq> [] then ''gap''
      else if speaker_list (rib s) = [] then ''syncing''
      else case speakers_complete (speaker_list (rib s)) (False, True) of
          None \<Rightarrow> ''gap''
        | Some (any_peer, all_complete) \<Rightarrow>
            if \<not> any_peer then ''syncing''
            else if all_complete then ''complete_for_observed_view'' else ''syncing'')"

section \<open>Connections\<close>

fun error_string :: "error \<Rightarrow> string" where
  "error_string (BmpParse m) = ''BMP parse error: '' @ m"
| "error_string (BgpParse m) = ''BGP parse error: '' @ m"
| "error_string (UnexpectedEof n h) = ''Unexpected end of buffer (need '' @ dec n @ '' bytes, have '' @ dec h @ '')''"
| "error_string (InvalidBmpVersion v) = ''Invalid BMP version: got '' @ dec (unat v) @ '', expected 3''"
| "error_string (InvalidMessageType t) = ''Invalid BMP message type: '' @ dec (unat t)"
| "error_string (FrameTooLarge n m) = ''BMP frame too large: '' @ dec (unat n) @ '' bytes (max '' @ dec (unat m) @ '')''"
| "error_string InvalidBgpMarker = ''Invalid BGP marker (expected 16x 0xFF)''"
| "error_string (InvalidBgpMessageType t) = ''Invalid BGP message type: '' @ dec (unat t)"
| "error_string (InvalidAfi a) = ''Invalid AFI: '' @ dec (unat a)"
| "error_string (InvalidSafi a) = ''Invalid SAFI: '' @ dec (unat a)"
| "error_string (InvalidPrefixLen l a) = ''Invalid prefix length '' @ dec (unat l) @ '' for AFI '' @ dec (unat a)"
| "error_string (TruncatedAttribute t d a) =
     ''Truncated path attribute (type '' @ dec (unat t) @ '', declared '' @ dec d @ '', available '' @ dec a @ '')''"
| "error_string (Io k m) = ''I/O error: '' @ m"

definition open_connection :: "ip_addr \<Rightarrow> timestamp \<Rightarrow> routing_service_state \<Rightarrow> u64 \<times> routing_service_state" where
  "open_connection speaker now s =
     (let (epoch, m) = open_speaker_session speaker now (rib s) in (epoch, s\<lparr>rib := m\<rparr>))"

text \<open>One round of the loop of a connection: what to do with the outcome of \<open>read_bmp_frame\<close>. The first component tells
  whether the loop goes on; \<open>Panic\<close> ends the task.\<close>

datatype read_result = FrameRead bytes | ReadEnd | ReadFailed error

definition connection_step ::
  "externals \<Rightarrow> filter_externals \<Rightarrow> json \<Rightarrow> 128 word \<Rightarrow> timestamp \<Rightarrow> ip_addr \<Rightarrow> u64 \<Rightarrow> read_result \<Rightarrow> routing_service_state
    \<Rightarrow> bool \<times> routing_service_state" where
  "connection_step X E J uuid now speaker epoch r s = (case r of
     FrameRead frame \<Rightarrow>
       let (res, s) = ingest_bmp_bytes X E J uuid now speaker (Some epoch) frame s
       in ((case res of Ok _ \<Rightarrow> True | _ \<Rightarrow> False), s)
   | ReadEnd \<Rightarrow> (False, record_transport_disconnect_for_epoch J now speaker (Some epoch) ''bmp_tcp_eof'' s)
   | ReadFailed e \<Rightarrow> (False, record_transport_disconnect_for_epoch J now speaker (Some epoch)
       (''bmp_transport_error: '' @ error_string e) s))"

end
