(* ===== verification/Routing_Queries.thy ===== *)
theory Routing_Queries
  imports Routing_Service
begin

text \<open>
  The read side of \<open>src/routing_service/mod.rs\<close>: the token check and the answers of the internal API. An answer is a
  record with the fields of the JSON object the code builds; the API version and the time of the answer, which every
  object carries, are left out. The order in which a \<open>HashMap\<close> is traversed is that of the model's \<open>hmap\<close>.
\<close>

section \<open>Queries\<close>

record peers_query =
  pq_speaker :: "string option"
  pq_vrf_rd :: "string option"
  pq_state :: "string option"
  pq_limit :: "nat option"

record routes_query =
  rq_speaker :: "string option"
  rq_peer :: "string option"
  rq_view :: "string option"
  rq_vrf_rd :: "string option"
  rq_prefix :: "string option"
  rq_family :: "string option"
  rq_limit :: "nat option"
  rq_cursor :: "nat option"

record prefix_history_query =
  hq_prefix :: "string option"
  hq_speaker :: "string option"
  hq_vrf_rd :: "string option"
  hq_limit :: "nat option"

record events_query =
  eq_after_seq :: "u64 option"
  eq_speaker :: "string option"
  eq_vrf_rd :: "string option"
  eq_limit :: "nat option"

text \<open>\<open>limit.unwrap_or(d).clamp(lo, hi)\<close>\<close>

definition clamp :: "nat \<Rightarrow> nat \<Rightarrow> nat \<Rightarrow> nat" where
  "clamp lo hi n = (if n < lo then lo else if hi < n then hi else n)"

text \<open>A filter of a query: \<open>if let Some(ref f) = q.field { if text != *f { continue } }\<close>.\<close>

definition passes :: "string option \<Rightarrow> string \<Rightarrow> bool" where
  "passes flt s = (case flt of None \<Rightarrow> True | Some f \<Rightarrow> s = f)"

text \<open>\<open>str::to_lowercase\<close>, up to characters that no ASCII text contains: outside ASCII only the Kelvin sign has an ASCII
  lower case.\<close>

definition ascii_lower :: "char \<Rightarrow> char" where
  "ascii_lower c = (let n = of_char c :: nat in if 65 \<le> n \<and> n \<le> 90 then char_of (n + 32) else c)"

fun to_lowercase :: "string \<Rightarrow> string" where
  "to_lowercase [] = []"
| "to_lowercase (c # s) = (if take 3 (c # s) = [CHR 0xE2, CHR 0x84, CHR 0xAA]
     then CHR ''k'' # to_lowercase (drop 2 s) else ascii_lower c # to_lowercase s)"

definition eq_ignore_ascii_case :: "string \<Rightarrow> string \<Rightarrow> bool" where
  "eq_ignore_ascii_case s t \<longleftrightarrow> map ascii_lower s = map ascii_lower t"

text \<open>The header is the text of \<open>x-bonsai-routing-token\<close>, when there is one that \<open>to_str\<close> accepts.\<close>

definition check_internal_token :: "string option \<Rightarrow> routing_service_config \<Rightarrow> bool" where
  "check_internal_token header cfg = (case internal_service_token cfg of
     Some expected \<Rightarrow> unwrap_or [] header = expected
   | None \<Rightarrow> True)"

section \<open>Health and speakers\<close>

record health_answer =
  speakers_connected :: nat
  peers_up :: nat
  ha_total_routes :: nat
  ha_durable_sequence :: u64
  ha_transport_gaps :: nat
  ha_completeness :: string

definition build_health_json :: "routing_service_state \<Rightarrow> health_answer" where
  "build_health_json s = \<lparr>speakers_connected = length (speaker_list (rib s)), peers_up = total_peers_up (rib s),
     ha_total_routes = total_routes (rib s), ha_durable_sequence = latest_seq (event_journal s),
     ha_transport_gaps = length (gaps s), ha_completeness = overall_completeness s\<rparr>"

record speaker_row =
  sr_speaker_addr :: ip_addr
  sr_source :: observation_source
  sr_sys_name :: "string option"
  sr_sys_descr :: "string option"
  sr_connected_at :: timestamp
  sr_peer_count :: nat
  sr_up_peer_count :: nat
  sr_total_routes :: nat
  sr_completeness :: string
  sr_transport_gap :: "transport_gap_record option"

definition speaker_completeness :: "transport_gap_record option \<Rightarrow> bmp_session \<Rightarrow> string" where
  "speaker_completeness gap spk =
     (if gap \<noteq> None then ''gap''
      else if list_ex (\<lambda>p. ps_state p = Up \<and> eor_families p \<noteq> []) (hm_values (peers spk))
      then ''complete_for_observed_view'' else ''syncing'')"

definition speaker_row_of :: "(ip_addr, transport_gap_record) hmap \<Rightarrow> bmp_session \<Rightarrow> speaker_row" where
  "speaker_row_of gs spk = (let gap = hm_get gs (bs_speaker spk) in
     \<lparr>sr_speaker_addr = bs_speaker spk, sr_source = bs_source spk, sr_sys_name = bs_sys_name spk,
      sr_sys_descr = bs_sys_descr spk, sr_connected_at = connected_at spk, sr_peer_count = peer_count spk,
      sr_up_peer_count = up_peer_count spk, sr_total_routes = session_total_routes spk,
      sr_completeness = speaker_completeness gap spk, sr_transport_gap = gap\<rparr>)"

definition build_speakers_json :: "routing_service_state \<Rightarrow> u64 \<times> string \<times> speaker_row list" where
  "build_speakers_json s = (latest_seq (event_journal s), overall_completeness s,
     map (speaker_row_of (gaps s)) (speaker_list (rib s)))"

section \<open>Peers\<close>

record peer_row =
  pr_speaker_addr :: ip_addr
  pr_peer_key :: peer_key
  pr_peer_type :: peer_type
  pr_peer_distinguisher :: string
  pr_peer_address :: ip_addr
  pr_peer_as :: u32
  pr_peer_bgp_id :: ipv4
  pr_local_as :: u32
  pr_hold_time :: u16
  pr_state :: string
  pr_up_at :: "timestamp option"
  pr_down_at :: "timestamp option"
  pr_flap_count :: u32
  pr_llgr_active :: bool
  pr_route_counts :: "(rib_type, nat) hmap"
  pr_eor_families :: "(rib_type, afi_safi set) hmap"
  pr_completeness :: string

fun state_str :: "peer_state \<Rightarrow> string" where
  "state_str Up = ''up''"
| "state_str Down = ''down''"
| "state_str UnknownState = ''unknown''"

definition peer_completeness :: "bool \<Rightarrow> peer_session \<Rightarrow> string" where
  "peer_completeness has_transport_gap p =
     (if has_transport_gap then ''gap''
      else if ps_state p = Down then (if llgr_active p then ''stale'' else ''gap'')
      else if eor_families p \<noteq> [] then ''complete_for_observed_view'' else ''syncing'')"

definition peer_row_of :: "bmp_session \<Rightarrow> bool \<Rightarrow> peer_key \<Rightarrow> peer_session \<Rightarrow> peer_row" where
  "peer_row_of spk has_transport_gap k p = \<lparr>pr_speaker_addr = bs_speaker spk, pr_peer_key = k, pr_peer_type = ps_type p,
     pr_peer_distinguisher = distinguisher_string k, pr_peer_address = ps_address p, pr_peer_as = ps_as p,
     pr_peer_bgp_id = ps_bgp_id p, pr_local_as = ps_local_as p, pr_hold_time = ps_hold_time p,
     pr_state = state_str (ps_state p), pr_up_at = up_at p, pr_down_at = down_at p, pr_flap_count = flap_count p,
     pr_llgr_active = llgr_active p, pr_route_counts = route_counts p, pr_eor_families = eor_families p,
     pr_completeness = peer_completeness has_transport_gap p\<rparr>"

definition peer_wanted :: "peers_query \<Rightarrow> peer_key \<Rightarrow> peer_session \<Rightarrow> bool" where
  "peer_wanted q k p \<longleftrightarrow> passes (pq_vrf_rd q) (distinguisher_string k)
     \<and> passes (map_option to_lowercase (pq_state q)) (state_str (ps_state p))"

text \<open>The loop over the peers of a speaker, which stops when the limit is reached; the loop over the speakers goes on.\<close>

fun peer_loop ::
  "peers_query \<Rightarrow> nat \<Rightarrow> bmp_session \<Rightarrow> bool \<Rightarrow> (peer_key \<times> peer_session) list \<Rightarrow> peer_row list \<Rightarrow> peer_row list" where
  "peer_loop q limit spk gap [] rows = rows"
| "peer_loop q limit spk gap ((k, p) # ps) rows =
     (if \<not> peer_wanted q k p then peer_loop q limit spk gap ps rows
      else let rows = rows @ [peer_row_of spk gap k p]
        in if limit \<le> length rows then rows else peer_loop q limit spk gap ps rows)"

definition peers_of_speaker ::
  "peers_query \<Rightarrow> nat \<Rightarrow> (ip_addr, transport_gap_record) hmap \<Rightarrow> bmp_session \<Rightarrow> peer_row list \<Rightarrow> peer_row list" where
  "peers_of_speaker q limit gs spk rows =
     (if \<not> passes (pq_speaker q) (ip_string (bs_speaker spk)) then rows
      else peer_loop q limit spk (hm_get gs (bs_speaker spk) \<noteq> None) (peers spk) rows)"

definition build_peers_json :: "routing_service_state \<Rightarrow> peers_query \<Rightarrow> u64 \<times> string \<times> peer_row list" where
  "build_peers_json s q = (latest_seq (event_journal s), overall_completeness s,
     fold (peers_of_speaker q (clamp 1 1000 (unwrap_or 200 (pq_limit q))) (gaps s)) (speaker_list (rib s)) [])"

section \<open>Routes\<close>

text \<open>A \<open>for\<close> loop that pushes onto a vector, and whose body can panic.\<close>

fun push_all :: "('a \<Rightarrow> 'b list result) \<Rightarrow> 'a list \<Rightarrow> 'b list result" where
  "push_all f [] = Ok []"
| "push_all f (x # xs) = and_then (f x) (\<lambda>ys. and_then (push_all f xs) (\<lambda>zs. Ok (ys @ zs)))"

record route_row =
  rr_source :: observation_source
  rr_speaker_addr :: ip_addr
  rr_peer_key :: peer_key
  rr_peer_addr :: ip_addr
  rr_peer_as :: u32
  rr_peer_distinguisher :: string
  rr_view :: string
  rr_prefix :: string
  rr_afi_safi :: string
  rr_path_id :: "u32 option"
  rr_is_best :: bool
  rr_llgr_state :: llgr_state
  rr_observation_time :: timestamp
  rr_completeness :: string
  rr_as_path :: "string option"
  rr_next_hop :: "ip_addr option"
  rr_local_pref :: "u32 option"
  rr_med :: "u32 option"
  rr_origin :: "string option"
  rr_communities :: "string list"

definition family_of_name :: "string \<Rightarrow> afi_safi" where
  "family_of_name fam = (let fam_lower = to_lowercase (trim fam) in
     if fam_lower \<in> {''ipv4-unicast'', ''ipv4'', ''1/1''} then ipv4_unicast
     else if fam_lower \<in> {''ipv6-unicast'', ''ipv6'', ''2/1''} then ipv6_unicast
     else if fam_lower \<in> {''ipv4-vpn'', ''vpnv4'', ''1/128''} then ipv4_vpn
     else if fam_lower \<in> {''ipv6-vpn'', ''vpnv6'', ''2/128''} then ipv6_vpn
     else if fam_lower \<in> {''l2vpn-evpn'', ''evpn'', ''25/70''} then evpn_family
     else if fam_lower \<in> {''bgp-ls'', ''bgpls'', ''16388/71''} then afi_safi_new 16388 71
     else afi_safi_new 65535 255)"

definition route_completeness :: "bool \<Rightarrow> peer_session option \<Rightarrow> rib_type \<Rightarrow> rib_entry \<Rightarrow> string" where
  "route_completeness spk_gap peer_sess r entry =
     (let eor_done = (case peer_sess of Some ps \<Rightarrow> has_eor ps r (prefix_afi_safi (re_prefix entry)) | None \<Rightarrow> False) in
      if spk_gap then ''gap''
      else if re_llgr_state entry \<noteq> Normal then ''stale''
      else if eor_done then ''complete_for_observed_view'' else ''syncing'')"

definition route_row_of ::
  "bmp_session \<Rightarrow> bool \<Rightarrow> peer_key \<Rightarrow> rib_type \<Rightarrow> rib_entry \<Rightarrow> string \<Rightarrow> route_row" where
  "route_row_of spk spk_gap k r entry pfx_str = (let attrs = re_attributes entry in
     \<lparr>rr_source = bs_source spk, rr_speaker_addr = bs_speaker spk, rr_peer_key = k, rr_peer_addr = re_peer_addr entry,
      rr_peer_as = re_peer_as entry, rr_peer_distinguisher = distinguisher_string k, rr_view = debug_rib_type r,
      rr_prefix = pfx_str, rr_afi_safi = afi_safi_string (prefix_afi_safi (re_prefix entry)), rr_path_id = re_path_id entry,
      rr_is_best = re_is_best entry, rr_llgr_state = re_llgr_state entry, rr_observation_time = re_received_at entry,
      rr_completeness = route_completeness spk_gap (hm_get (peers spk) k) r entry,
      rr_as_path = map_option as_path_string (pa_as_path attrs), rr_next_hop = next_hop attrs,
      rr_local_pref = local_pref attrs, rr_med = multi_exit_disc attrs, rr_origin = map_option origin_string (pa_origin attrs),
      rr_communities = map sc_string (communities attrs)\<rparr>)"

definition all_views :: "rib_type list" where
  "all_views = [AdjRibInPrePolicy, AdjRibInPostPolicy, LocRib, LocRibFiltered, AdjRibOutPrePolicy, AdjRibOutPostPolicy]"

definition view_wanted :: "routes_query \<Rightarrow> rib_type \<Rightarrow> bool" where
  "view_wanted q r = (case rq_view q of None \<Rightarrow> True | Some v \<Rightarrow> eq_ignore_ascii_case (debug_rib_type r) v)"

definition rows_of_view ::
  "routes_query \<Rightarrow> bmp_session \<Rightarrow> bool \<Rightarrow> peer_key \<Rightarrow> rib_table \<Rightarrow> rib_type \<Rightarrow> route_row list result" where
  "rows_of_view q spk spk_gap k T r =
     (if \<not> view_wanted q r then Ok []
      else push_all (\<lambda>entry. and_then (prefix_string (re_prefix entry)) (\<lambda>pfx_str.
        Ok (if passes (rq_prefix q) pfx_str then [route_row_of spk spk_gap k r entry pfx_str] else []))) (iter_rib r T))"

definition rows_of_peer ::
  "routes_query \<Rightarrow> bmp_session \<Rightarrow> bool \<Rightarrow> peer_key \<times> rib_table \<Rightarrow> route_row list result" where
  "rows_of_peer q spk spk_gap = (\<lambda>(k, T).
     if \<not> passes (rq_peer q) (ip_string (pk_address k)) then Ok []
     else if \<not> passes (rq_vrf_rd q) (distinguisher_string k) then Ok []
     else push_all (rows_of_view q spk spk_gap k T) all_views)"

definition rows_of_speaker :: "routes_query \<Rightarrow> routing_service_state \<Rightarrow> bmp_session \<Rightarrow> route_row list result" where
  "rows_of_speaker q s spk =
     (if \<not> passes (rq_speaker q) (ip_string (bs_speaker spk)) then Ok []
      else push_all (rows_of_peer q spk (hm_get (gaps s) (bs_speaker spk) \<noteq> None)) (ribs_for_speaker (bs_speaker spk) (rib s)))"

definition all_matching :: "routing_service_state \<Rightarrow> routes_query \<Rightarrow> route_row list result" where
  "all_matching s q = push_all (rows_of_speaker q s) (speaker_list (rib s))"

record routes_answer =
  ra_support_status :: family_support_status
  ra_completeness :: string
  ra_durable_sequence :: u64
  ra_total_matching :: nat
  ra_next_cursor :: "nat option"
  ra_routes :: "route_row list"

text \<open>The answer for a family that is not supported has no \<open>total_matching\<close> and no \<open>next_cursor\<close>; it has a message instead.\<close>

definition build_routes_json :: "routing_service_state \<Rightarrow> routes_query \<Rightarrow> routes_answer result" where
  "build_routes_json s q =
     (case map_option (\<lambda>fam. support_status (family_of_name fam)) (rq_family q) of
        Some ExperimentalParseOnly \<Rightarrow> Ok \<lparr>ra_support_status = ExperimentalParseOnly, ra_completeness = ''unsupported'',
          ra_durable_sequence = latest_seq (event_journal s), ra_total_matching = 0, ra_next_cursor = None, ra_routes = []\<rparr>
      | Some Unsupported \<Rightarrow> Ok \<lparr>ra_support_status = Unsupported, ra_completeness = ''unsupported'',
          ra_durable_sequence = latest_seq (event_journal s), ra_total_matching = 0, ra_next_cursor = None, ra_routes = []\<rparr>
      | _ \<Rightarrow>
          let limit = clamp 1 500 (unwrap_or 100 (rq_limit q)); offset = unwrap_or 0 (rq_cursor q) in
          and_then (all_matching s q) (\<lambda>rows.
          let page = take limit (drop offset rows) in
          Ok \<lparr>ra_support_status = Supported, ra_completeness = overall_completeness s,
              ra_durable_sequence = latest_seq (event_journal s), ra_total_matching = length rows,
              ra_next_cursor = (if offset + length page < length rows then Some (offset + length page) else None),
              ra_routes = page\<rparr>))"

section \<open>History, coverage and events\<close>

record history_answer =
  hi_completeness :: string
  hi_durable_sequence :: u64
  hi_events :: "prefix_history_item list"

text \<open>\<open>None\<close> is the answer 400 to a query without a prefix.\<close>

definition build_prefix_history_json ::
  "routing_service_state \<Rightarrow> prefix_history_query \<Rightarrow> history_answer option result" where
  "build_prefix_history_json s q = (case hq_prefix q of
     None \<Rightarrow> Ok None
   | Some pfx \<Rightarrow>
       and_then (prefix_history_filtered pfx (hq_speaker q) (hq_vrf_rd q) (clamp 1 500 (unwrap_or 50 (hq_limit q)))
         (event_journal s)) (\<lambda>history.
       Ok (Some \<lparr>hi_completeness = overall_completeness s, hi_durable_sequence = latest_seq (event_journal s),
         hi_events = history\<rparr>)))"

record coverage_row =
  cr_family :: string
  cr_afi :: u16
  cr_safi :: u8
  cr_support :: family_support_status

definition coverage_families :: "(string \<times> afi_safi) list" where
  "coverage_families = [(''ipv4-unicast'', ipv4_unicast), (''ipv6-unicast'', ipv6_unicast), (''ipv4-vpn'', ipv4_vpn),
     (''ipv6-vpn'', ipv6_vpn), (''l2vpn-evpn'', evpn_family), (''bgp-ls'', afi_safi_new 16388 71)]"

definition build_coverage_json :: "routing_service_state \<Rightarrow> u64 \<times> string \<times> coverage_row list" where
  "build_coverage_json s = (latest_seq (event_journal s), overall_completeness s,
     map (\<lambda>(name, af). \<lparr>cr_family = name, cr_afi = afi_as_u16 (afi af), cr_safi = safi_as_u8 (safi af),
       cr_support = support_status af\<rparr>) coverage_families)"

fun event_rd :: "ip_addr \<Rightarrow> rib_event_payload \<Rightarrow> string option" where
  "event_rd a (RouteChangeEvent rc) = Some (distinguisher_string (rch_peer_key rc))"
| "event_rd a (PeerUpEvent hdr _ _ _ _) = Some (distinguisher_string (peer_key_from_header a hdr))"
| "event_rd a (PeerDownEvent hdr _) = Some (distinguisher_string (peer_key_from_header a hdr))"
| "event_rd a (EndOfRibEvent hdr _) = Some (distinguisher_string (peer_key_from_header a hdr))"
| "event_rd a (StatsEvent hdr _) = Some (distinguisher_string (peer_key_from_header a hdr))"
| "event_rd a (SpeakerUpEvent _ _) = None"
| "event_rd a (SpeakerDownEvent _) = None"

definition event_wanted :: "events_query \<Rightarrow> rib_event \<Rightarrow> bool" where
  "event_wanted q ev \<longleftrightarrow> passes (eq_speaker q) (ip_string (ev_speaker ev))
     \<and> (case eq_vrf_rd q of None \<Rightarrow> True | Some rd \<Rightarrow> event_rd (ev_speaker ev) (ev_payload ev) = Some rd)"

record events_answer =
  ea_durable_sequence :: u64
  ea_after_seq :: u64
  ea_next_after_seq :: u64
  ea_completeness :: string
  ea_events :: "rib_event list"

definition build_events_json :: "routing_service_state \<Rightarrow> events_query \<Rightarrow> events_answer" where
  "build_events_json s q =
     (let after_seq = unwrap_or 0 (eq_after_seq q);
          limit = clamp 1 1000 (unwrap_or 100 (eq_limit q));
          fetch_cap = (if eq_speaker q \<noteq> None \<or> eq_vrf_rd q \<noteq> None then 10000 else limit);
          events = take limit (filter (event_wanted q) (events_after_seq after_seq fetch_cap (event_journal s)))
      in \<lparr>ea_durable_sequence = latest_seq (event_journal s), ea_after_seq = after_seq,
          ea_next_after_seq = (if events = [] then after_seq else ek_sequence (ev_key (last events))),
          ea_completeness = overall_completeness s, ea_events = events\<rparr>)"

end
