(* ===== verification/Recovery.thy ===== *)
theory Recovery
  imports Routing_Service
begin

text \<open>
  The routing service after a restart. The journal records the messages and the losses of transport, but not that a
  connection was opened: opening raises the epoch of the speaker in the running manager and forgets its End-of-RIB
  markers, while the manager rebuilt from the journal learns of the new epoch from the first message that carries it.
  The simulation \<open>rebuilt\<close> relates the two managers; it is an equality but for the time a session was opened and for
  speakers whose newest connection has not delivered a message yet. It is kept as long as every message comes from
  the newest connection of its speaker, and lost otherwise.
\<close>

section \<open>Handlers see one session\<close>

definition undated :: "bmp_session \<Rightarrow> bmp_session" where
  "undated s = s\<lparr>connected_at := 0\<rparr>"

text \<open>Two managers that agree in everything but the sessions of the other speakers and the times of opening.\<close>

definition alike :: "ip_addr \<Rightarrow> rib_manager \<Rightarrow> rib_manager \<Rightarrow> bool" where
  "alike a m m' \<longleftrightarrow> ribs m = ribs m' \<and> next_event_seq m = next_event_seq m' \<and> event_tx m = event_tx m'
     \<and> rm_filter m = rm_filter m' \<and> roto_filter m = roto_filter m'
     \<and> map_option undated (hm_get (speakers m) a) = map_option undated (hm_get (speakers m') a)"

definition alike_emission :: "ip_addr \<Rightarrow> emission \<Rightarrow> emission \<Rightarrow> bool" where
  "alike_emission a e e' \<longleftrightarrow> fst e = fst e' \<and> alike a (snd e) (snd e')"

lemma alike_start: "alike a m m' \<Longrightarrow> alike_emission a (evs, m) (evs, m')"
  by (simp add: alike_emission_def)

lemma alike_modify:
  assumes "alike a m m'" and "\<And>s. f (undated s) = undated (f s)"
  shows "alike a (m\<lparr>speakers := hm_modify a f (speakers m)\<rparr>) (m'\<lparr>speakers := hm_modify a f (speakers m')\<rparr>)"
proof -
  have "map_option undated (map_option f x) = map_option f (map_option undated x)" for x
    by (cases x) (simp_all add: assms(2))
  with assms(1) show ?thesis
    by (simp add: alike_def hm_gets)
qed

lemma undated_fields [simp]:
  "peers (undated s) = peers s" "bs_source (undated s) = bs_source s"
  "undated (s\<lparr>peers := ps\<rparr>) = (undated s)\<lparr>peers := ps\<rparr>"
  "undated (s\<lparr>bs_sys_name := n, bs_sys_descr := d\<rparr>) = (undated s)\<lparr>bs_sys_name := n, bs_sys_descr := d\<rparr>"
  by (simp_all add: undated_def)

lemma alike_update_peer: "alike (pk_speaker k) m m' \<Longrightarrow> alike (pk_speaker k) (update_peer k f m) (update_peer k f m')"
  unfolding update_peer_def by (rule alike_modify) simp_all

lemma alike_ensure_peer: "alike a m m' \<Longrightarrow> alike a (ensure_peer a hdr m) (ensure_peer a hdr m')"
  unfolding ensure_peer_def by (rule alike_modify) simp_all

lemma alike_initiation: "alike a m m' \<Longrightarrow> alike a (on_initiation a n d m) (on_initiation a n d m')"
  unfolding on_initiation_def by (rule alike_modify) simp_all

lemma alike_ribs: "alike a m m' \<Longrightarrow> alike a (m\<lparr>ribs := f (ribs m)\<rparr>) (m'\<lparr>ribs := f (ribs m')\<rparr>)"
  by (simp add: alike_def)

lemma alike_update_rib: "alike a m m' \<Longrightarrow> alike a (update_rib k f m) (update_rib k f m')"
  unfolding update_rib_def by (rule alike_ribs)

lemma alike_sync: "alike (pk_speaker k) m m' \<Longrightarrow> alike (pk_speaker k) (sync_peer_route_counts k m) (sync_peer_route_counts k m')"
  using alike_update_peer [of k m m'] by (simp add: sync_peer_route_counts_def alike_def Let_def)

lemma alike_peers:
  "alike a m m' \<Longrightarrow> map_option peers (hm_get (speakers m) a) = map_option peers (hm_get (speakers m') a)"
proof -
  assume "alike a m m'"
  then have "map_option peers (map_option undated (hm_get (speakers m) a)) =
      map_option peers (map_option undated (hm_get (speakers m') a))" by (simp add: alike_def)
  then show ?thesis by (simp add: option.map_comp comp_def)
qed

lemma alike_peer_up: "alike a m m' \<Longrightarrow> alike a (on_peer_up a now pu m) (on_peer_up a now pu m')"
  unfolding on_peer_up_def Let_def
  by (intro alike_sync [where k = "peer_key_from_header a (pu_header pu)", simplified]
      alike_update_peer [where k = "peer_key_from_header a (pu_header pu)", simplified] alike_ensure_peer)

lemma alike_peer_down:
  assumes "alike a m m'"
  shows "alike a (on_peer_down a now hdr m) (on_peer_down a now hdr m')"
proof -
  let ?k = "peer_key_from_header a hdr"
  have "Option.bind (hm_get (speakers m) a) (\<lambda>s. hm_get (peers s) ?k) =
      Option.bind (hm_get (speakers m') a) (\<lambda>s. hm_get (peers s) ?k)"
    using alike_peers [OF assms] by (cases "hm_get (speakers m) a"; cases "hm_get (speakers m') a") auto
  moreover have "alike a (update_peer ?k (on_down now) m) (update_peer ?k (on_down now) m')"
    using alike_update_peer [of ?k] assms by simp
  ultimately show ?thesis
    unfolding on_peer_down_def Let_def
    by (simp only:) (intro alike_sync [where k = ?k, simplified] alike_ribs)
qed

lemma alike_termination:
  assumes "alike a m m'"
  shows "alike a (on_termination a m) (on_termination a m')"
proof (cases "hm_get (speakers m) a")
  case None
  with assms have "hm_get (speakers m') a = None" by (simp add: alike_def)
  with None assms show ?thesis by (simp add: on_termination_def alike_def)
next
  case (Some s)
  with alike_peers [OF assms] obtain t where "hm_get (speakers m') a = Some t" "peers s = peers t"
    by (cases "hm_get (speakers m') a") auto
  with Some assms show ?thesis by (simp add: on_termination_def Let_def alike_def hm_gets)
qed

lemma alike_emit:
  "alike_emission a e e' \<Longrightarrow> alike_emission a (emit_with_source i b src now pl e) (emit_with_source i b src now pl e')"
  by (auto simp: alike_emission_def alike_def emit_with_source_def split_beta Let_def)

lemma alike_withdraw:
  "alike_emission a e e' \<Longrightarrow> alike_emission a (withdraw_route i b src now hdr w e) (withdraw_route i b src now hdr w e')"
  unfolding withdraw_route_def split_beta
  by (rule alike_emit) (simp add: alike_emission_def alike_update_rib)

lemma alike_announce:
  assumes "alike_emission a e e'"
  shows "alike_emission a (announce_route E i b src now hdr attrs n e) (announce_route E i b src now hdr attrs n e')"
proof -
  have "filter_verdict_of E hdr attrs p (snd e) = filter_verdict_of E hdr attrs p (snd e')" for p
    using assms by (intro verdict_cong) (simp_all add: alike_emission_def alike_def)
  moreover have "alike_emission a (fst e, update_rib k f (snd e)) (fst e', update_rib k f (snd e'))" for k f
    using assms by (simp add: alike_emission_def alike_update_rib)
  ultimately show ?thesis
    using assms by (simp add: announce_route_def split_beta Let_def alike_emit)
qed

lemma alike_fold:
  assumes "\<And>x e e'. alike_emission a e e' \<Longrightarrow> alike_emission a (f x e) (f x e')" and "alike_emission a e e'"
  shows "alike_emission a (fold f xs e) (fold f xs e')"
  using assms(2) by (induction xs arbitrary: e e') (simp_all add: assms(1) del: split_paired_All)

lemma alike_monitoring:
  assumes "alike a m m'"
  shows "alike_emission a (on_route_monitoring E i a src now hdr u m) (on_route_monitoring E i a src now hdr u m')"
proof -
  let ?k = "peer_key_from_header a hdr"
  from assms have m1: "alike a (ensure_peer a hdr m) (ensure_peer a hdr m')" by (rule alike_ensure_peer)
  show ?thesis
  proof (cases "eor_afi_safi u")
    case None
    let ?e = "\<lambda>m. fold (announce_route E i a src now hdr (attributes u)) (all_announced_with_path_id u)
        (fold (withdraw_route i a src now hdr) (all_withdrawn_with_path_id u) ([], ensure_peer a hdr m))"
    have "alike_emission a (?e m) (?e m')"
      using m1 by (intro alike_fold alike_announce alike_withdraw) (simp_all add: alike_emission_def)
    with None alike_sync [of ?k] show ?thesis
      by (simp add: on_route_monitoring_def Let_def split_beta alike_emission_def)
  next
    case (Some f)
    have "alike a (update_peer ?k (mark_eor (hdr_rib_type hdr) f) (ensure_peer a hdr m))
        (update_peer ?k (mark_eor (hdr_rib_type hdr) f) (ensure_peer a hdr m'))"
      using alike_update_peer [of ?k] m1 by simp
    with Some show ?thesis
      by (simp add: on_route_monitoring_def Let_def alike_emit alike_start)
  qed
qed

text \<open>The part of \<open>process_for_epoch\<close> behind the identification of the session.\<close>

definition handle :: "filter_externals \<Rightarrow> bmp_message \<Rightarrow> observation_source \<Rightarrow> rib_manager \<Rightarrow> emission" where
  "handle E msg src m1 =
     (let i = msg_id msg; speaker = speaker_addr msg; now = received_at msg;
          emit = emit_with_source i speaker src now
      in case payload msg of
           Initiation name descr ls \<Rightarrow> emit (SpeakerUpEvent name descr) ([], on_initiation speaker name descr m1)
         | Termination code text \<Rightarrow>
             emit (SpeakerDownEvent (case text of Some t \<Rightarrow> t | None \<Rightarrow> ''code='' @ dec (unat code)))
               ([], on_termination speaker m1)
         | PeerUp pu \<Rightarrow>
             emit (PeerUpEvent (pu_header pu) (open_asn (sent_open pu)) (open_asn (recv_open pu)) (hold_time (recv_open pu))
                 (map (\<lambda>c. dec (unat (capability_code c)))
                   (merge_capabilities (capabilities (recv_open pu)) (capabilities (sent_open pu)))))
               ([], on_peer_up speaker now pu m1)
         | PeerDown hdr why \<Rightarrow> emit (PeerDownEvent hdr (debug_reason why)) ([], on_peer_down speaker now hdr m1)
         | RouteMonitoring hdr u \<Rightarrow> on_route_monitoring E i speaker src now hdr u m1
         | StatsReport hdr stats \<Rightarrow> emit (StatsEvent hdr stats) ([], m1)
         | RouteMirroring hdr pdu \<Rightarrow> ([], m1))"

lemma process_handle:
  "process_for_epoch E msg epoch m = (if stale_termination msg epoch m then ([], m) else
     handle E msg (fst (session_source (speaker_addr msg) (received_at msg) epoch m))
       (snd (session_source (speaker_addr msg) (received_at msg) epoch m)))"
  by (simp add: process_for_epoch_def handle_def Let_def split_beta)

lemma alike_handle:
  "alike (speaker_addr msg) m m' \<Longrightarrow> alike_emission (speaker_addr msg) (handle E msg src m) (handle E msg src m')"
  unfolding handle_def Let_def
  by (cases "payload msg") (simp_all add: alike_emit alike_start alike_monitoring
    alike_initiation alike_termination alike_peer_up alike_peer_down)

section \<open>The manager rebuilt from the journal\<close>

abbreviation epoch_of :: "bmp_session \<Rightarrow> u64" where
  "epoch_of s \<equiv> session_epoch (bs_source s)"

text \<open>A session of the running manager and what the rebuilt one holds of the speaker: the same session, or the session
  as it was before the connection that has not delivered anything yet.\<close>

definition session_rebuilt :: "ip_addr \<Rightarrow> bmp_session \<Rightarrow> bmp_session option \<Rightarrow> bool" where
  "session_rebuilt a s o' \<longleftrightarrow> bs_source s = observation_source_new a (epoch_of s) \<and> (case o' of
     None \<Rightarrow> undated s = undated (with_source (bs_source s) 0)
   | Some t \<Rightarrow> undated t = undated s
       \<or> epoch_of t < epoch_of s \<and> bs_source t = observation_source_new a (epoch_of t)
         \<and> undated s = undated (t\<lparr>bs_source := bs_source s, peers := hm_map_values clear_eor (peers t)\<rparr>))"

definition rebuilt :: "rib_manager \<Rightarrow> rib_manager \<Rightarrow> bool" where
  "rebuilt m m' \<longleftrightarrow> ribs m = ribs m' \<and> next_event_seq m = next_event_seq m' \<and> event_tx m = event_tx m'
     \<and> rm_filter m = rm_filter m' \<and> roto_filter m = roto_filter m'
     \<and> (\<forall>a. case hm_get (speakers m) a of
          None \<Rightarrow> hm_get (speakers m') a = None
        | Some s \<Rightarrow> session_rebuilt a s (hm_get (speakers m') a) \<and> epoch_of s < next_session_epoch m)"

lemma rebuilt_session:
  "rebuilt m m' \<Longrightarrow> hm_get (speakers m) a = Some s \<Longrightarrow>
    session_rebuilt a s (hm_get (speakers m') a) \<and> epoch_of s < next_session_epoch m"
  "rebuilt m m' \<Longrightarrow> hm_get (speakers m) a = None \<Longrightarrow> hm_get (speakers m') a = None"
  by (auto simp: rebuilt_def split: option.splits dest!: spec [of _ a])

text \<open>A message of the newest connection: the epoch is that of the session, or the session is gone.\<close>

definition from_newest :: "rib_manager \<Rightarrow> ip_addr \<Rightarrow> u64 \<Rightarrow> bool" where
  "from_newest m a e \<longleftrightarrow> e < next_session_epoch m \<and> (speaker_epoch m a = None \<or> speaker_epoch m a = Some e)"

lemma undated_eqD:
  "undated s = undated t \<Longrightarrow> bs_source s = bs_source t \<and> peers s = peers t"
  by (metis undated_fields(1, 2))

lemma epoch_of_new [simp]: "session_epoch (observation_source_new a e) = e"
  by (simp add: observation_source_new_def)

lemma undated_connected [simp]: "undated (s\<lparr>connected_at := n\<rparr>) = undated s"
  by (simp add: undated_def)

text \<open>Identifying the session of a message brings the two managers together.\<close>

lemma session_source_alike:
  assumes rb: "rebuilt m m'" and new: "from_newest m a e"
  shows "fst (session_source a now (Some e) m) = observation_source_new a e"
    and "fst (session_source a now (Some e) m') = observation_source_new a e"
    and "alike a (snd (session_source a now (Some e) m)) (snd (session_source a now (Some e) m'))"
    and "next_session_epoch (snd (session_source a now (Some e) m)) = next_session_epoch m"
    and "source_of (snd (session_source a now (Some e) m)) a = Some (observation_source_new a e)"
proof -
  have shared: "ribs m = ribs m'" "next_event_seq m = next_event_seq m'" "event_tx m = event_tx m'"
    "rm_filter m = rm_filter m'" "roto_filter m = roto_filter m'"
    using rb by (simp_all add: rebuilt_def)
  let ?new = "with_source (observation_source_new a e) now"
  let ?step = "\<lambda>s. if epoch_of s < e then s\<lparr>bs_source := (bs_source s)\<lparr>session_epoch := e\<rparr>, connected_at := now,
      peers := hm_map_values clear_eor (peers s)\<rparr> else s"
  have get: "hm_get (speakers (snd (session_source a now (Some e) n))) a =
      Some (?step (case hm_get (speakers n) a of None \<Rightarrow> ?new | Some s \<Rightarrow> s))" for n
    by (simp add: session_source_def Let_def hm_gets)
  have fst_get: "fst (session_source a now (Some e) n) =
      bs_source (?step (case hm_get (speakers n) a of None \<Rightarrow> ?new | Some s \<Rightarrow> s))" for n
    by (simp add: session_source_def Let_def hm_gets)
  have src: "epoch_of ?new = e" "bs_source ?new = observation_source_new a e"
    by (simp_all add: with_source_def observation_source_new_def)
  have rest: "ribs (snd (session_source a now (Some e) n)) = ribs n"
    "rm_filter (snd (session_source a now (Some e) n)) = rm_filter n"
    "roto_filter (snd (session_source a now (Some e) n)) = roto_filter n" for n
    by (simp_all add: session_source_def Let_def)
  define s where "s = (case hm_get (speakers m) a of None \<Rightarrow> ?new | Some s \<Rightarrow> s)"
  define t where "t = (case hm_get (speakers m') a of None \<Rightarrow> ?new | Some t \<Rightarrow> t)"
  have s: "epoch_of s = e" "bs_source s = observation_source_new a e"
    using rebuilt_session [OF rb, of a] new src
    by (auto simp: s_def from_newest_def speaker_epoch_def speaker_of_def session_rebuilt_def split: option.splits)
  have t: "undated (?step t) = undated s"
  proof (cases "hm_get (speakers m) a")
    case None
    with rebuilt_session(2) [OF rb] show ?thesis by (simp add: s_def t_def src)
  next
    case (Some s0)
    then have s0: "s = s0" by (simp add: s_def)
    from rebuilt_session(1) [OF rb Some] have sr: "session_rebuilt a s (hm_get (speakers m') a)" by (simp add: s0)
    show ?thesis
    proof (cases "hm_get (speakers m') a")
      case None
      with sr s have "undated s = undated (with_source (observation_source_new a e) 0)"
        by (simp add: session_rebuilt_def)
      with None show ?thesis by (simp add: t_def src undated_def with_source_def)
    next
      case (Some t0)
      then have t0: "t = t0" by (simp add: t_def)
      from sr Some consider "undated t = undated s"
        | "epoch_of t < e" "bs_source t = observation_source_new a (epoch_of t)"
          "undated s = undated (t\<lparr>bs_source := bs_source s, peers := hm_map_values clear_eor (peers t)\<rparr>)"
        unfolding session_rebuilt_def s(1) by (auto simp: t0)
      then show ?thesis
      proof cases
        case 1
        with s(1) undated_eqD [OF 1] show ?thesis by simp
      next
        case 2
        have "(bs_source t)\<lparr>session_epoch := e\<rparr> = observation_source_new a e"
          by (subst 2(2)) (simp add: observation_source_new_def)
        with 2 s(2) show ?thesis by (simp add: undated_def)
      qed
    qed
  qed
  have t_src: "bs_source (?step t) = observation_source_new a e"
    using undated_eqD [OF t] s(2) by simp
  show "fst (session_source a now (Some e) m) = observation_source_new a e"
    using s by (simp add: fst_get flip: s_def)
  show "fst (session_source a now (Some e) m') = observation_source_new a e"
    using t_src unfolding t_def by (simp only: fst_get)
  show "alike a (snd (session_source a now (Some e) m)) (snd (session_source a now (Some e) m'))"
  proof -
    have "hm_get (speakers (snd (session_source a now (Some e) m'))) a = Some (?step t)"
      unfolding t_def by (simp only: get)
    moreover have "hm_get (speakers (snd (session_source a now (Some e) m))) a = Some s"
      using s by (simp add: get flip: s_def)
    ultimately show ?thesis
      unfolding alike_def rest using shared t by (simp only: option.map) simp
  qed
  show "next_session_epoch (snd (session_source a now (Some e) m)) = next_session_epoch m"
    using new by (auto simp: session_source_def Let_def from_newest_def not_le)
  show "source_of (snd (session_source a now (Some e) m)) a = Some (observation_source_new a e)"
    using s by (simp add: source_of_def get flip: s_def)
qed

lemma not_stale_newest:
  assumes "rebuilt m m'" "from_newest m (speaker_addr msg) e"
  shows "\<not> stale_termination msg (Some e) m" "\<not> stale_termination msg (Some e) m'"
proof -
  let ?a = "speaker_addr msg"
  show "\<not> stale_termination msg (Some e) m"
    using assms(2) by (auto simp: stale_termination_def from_newest_def speaker_epoch_def speaker_of_def
        split: bmp_payload.splits option.splits)
  have "\<not> e < epoch_of t" if t: "hm_get (speakers m') ?a = Some t" for t
  proof -
    from rebuilt_session(2) [OF assms(1), of ?a] t obtain s where s: "hm_get (speakers m) ?a = Some s"
      by (cases "hm_get (speakers m) ?a") auto
    with assms(2) have "epoch_of s = e"
      by (auto simp: from_newest_def speaker_epoch_def speaker_of_def)
    with rebuilt_session(1) [OF assms(1) s] t show ?thesis
      by (auto simp: session_rebuilt_def dest: undated_eqD)
  qed
  then show "\<not> stale_termination msg (Some e) m'"
    by (auto simp: stale_termination_def split: bmp_payload.splits option.splits)
qed

lemma source_of_termination: "source_of (on_termination a m) a = None"
  by (simp add: source_of_def on_termination_def Let_def hm_gets split: option.splits)

lemma handle_source:
  "source_of (snd (handle E msg src m)) (speaker_addr msg) \<in> {None, source_of m (speaker_addr msg)}"
  by (cases "payload msg") (simp_all add: handle_def Let_def source_of_termination)

lemma handle_epochs: "next_session_epoch (snd (handle E msg src m)) = next_session_epoch m"
proof -
  have emit: "next_session_epoch (snd (emit_with_source i b src now pl e)) = next_session_epoch (snd e)" for i b now pl e
    by (simp add: emit_with_source_def split_beta Let_def)
  have ops: "next_session_epoch (update_rib k g m) = next_session_epoch m"
    "next_session_epoch (update_peer k f m) = next_session_epoch m"
    "next_session_epoch (ensure_peer a hdr m) = next_session_epoch m"
    "next_session_epoch (sync_peer_route_counts k m) = next_session_epoch m" for k g f a hdr m
    by (simp_all add: update_rib_def update_peer_def ensure_peer_def sync_peer_route_counts_def Let_def)
  have "next_session_epoch (snd (fold (withdraw_route i b src now hdr) ws e)) = next_session_epoch (snd e)" for i b now hdr ws e
    by (induction ws arbitrary: e) (simp_all add: withdraw_route_def split_beta emit ops)
  moreover have "next_session_epoch (snd (fold (announce_route E i b src now hdr attrs) ns e)) = next_session_epoch (snd e)"
    for i b now hdr attrs ns e
    by (induction ns arbitrary: e) (simp_all add: announce_route_def split_beta Let_def emit ops)
  ultimately show ?thesis
    by (cases "payload msg") (simp_all add: handle_def Let_def emit ops on_initiation_def on_termination_def on_peer_up_def
      on_peer_down_def on_route_monitoring_def split_beta split: option.splits)
qed

lemma rebuilt_process:
  assumes rb: "rebuilt m m'" and new: "from_newest m (speaker_addr msg) e" and ok: "manager_ok m" "manager_ok m'"
  shows "rebuilt (snd (process_for_epoch E msg (Some e) m)) (snd (process_for_epoch E msg (Some e) m'))
    \<and> fst (process_for_epoch E msg (Some e) m) = fst (process_for_epoch E msg (Some e) m')"
proof -
  let ?a = "speaker_addr msg"
  let ?src = "observation_source_new ?a e"
  let ?ss = "session_source ?a (received_at msg) (Some e)"
  note ss = session_source_alike [OF rb new, of "received_at msg"]
  have p: "process_for_epoch E msg (Some e) m = handle E msg ?src (snd (?ss m))"
    "process_for_epoch E msg (Some e) m' = handle E msg ?src (snd (?ss m'))"
    using not_stale_newest [OF rb new] ss(1, 2) by (simp_all add: process_handle)
  let ?n = "snd (handle E msg ?src (snd (?ss m)))" and ?n' = "snd (handle E msg ?src (snd (?ss m')))"
  have al: "alike_emission ?a (handle E msg ?src (snd (?ss m))) (handle E msg ?src (snd (?ss m')))"
    using ss(3) by (rule alike_handle)
  have nxt: "next_session_epoch ?n = next_session_epoch m"
    by (simp add: handle_epochs ss(4))
  have "case hm_get (speakers ?n) b of
          None \<Rightarrow> hm_get (speakers ?n') b = None
        | Some s \<Rightarrow> session_rebuilt b s (hm_get (speakers ?n') b) \<and> epoch_of s < next_session_epoch ?n" for b
  proof (cases "b = ?a")
    case True
    show ?thesis
    proof (cases "hm_get (speakers ?n) ?a")
      case None
      with al True show ?thesis by (simp add: alike_emission_def alike_def)
    next
      case (Some s)
      with handle_source [of E msg ?src "snd (?ss m)"] ss(5) have "bs_source s = ?src"
        by (auto simp: source_of_def)
      moreover from al Some obtain t where "hm_get (speakers ?n') ?a = Some t" "undated t = undated s"
        by (cases "hm_get (speakers ?n') ?a") (auto simp: alike_emission_def alike_def)
      moreover have "e < next_session_epoch m" using new by (simp add: from_newest_def)
      ultimately show ?thesis
        using True Some nxt by (simp add: session_rebuilt_def observation_source_new_def)
    qed
  next
    case False
    have "hm_get (speakers ?n) b = hm_get (speakers m) b" "hm_get (speakers ?n') b = hm_get (speakers m') b"
      using same_but_process [OF ok(1), of msg E "Some e"] same_but_process [OF ok(2), of msg E "Some e"] False p
      by (simp_all add: same_but_def)
    then show ?thesis
      unfolding nxt using rb by (simp only: rebuilt_def)
  qed
  with al show ?thesis
    unfolding p by (simp add: rebuilt_def alike_emission_def alike_def)
qed

lemma clear_eor_twice [simp]: "hm_map_values clear_eor (hm_map_values clear_eor ps) = hm_map_values clear_eor ps"
  by (simp add: hm_map_values_def clear_eor_def case_prod_unfold)

lemma rebuilt_clear_eor: "rebuilt m m' \<Longrightarrow> rebuilt (clear_speaker_eor a m) (clear_speaker_eor a m')"
proof -
  assume rb: "rebuilt m m'"
  let ?f = "\<lambda>s. s\<lparr>peers := hm_map_values clear_eor (peers s)\<rparr>"
  have step: "session_rebuilt b (?f s) (map_option ?f o')" if "session_rebuilt b s o'" for b s o'
  proof (cases o')
    case None
    with that have "peers s = peers (with_source (bs_source s) 0)"
      by (auto simp: session_rebuilt_def dest: undated_eqD)
    then have "?f s = s" by (simp add: with_source_def hm_empty_def hm_map_values_def)
    with that None show ?thesis by simp
  next
    case (Some t)
    with that consider "undated t = undated s" | "epoch_of t < epoch_of s" "bs_source t = observation_source_new b (epoch_of t)"
        "undated s = undated (t\<lparr>bs_source := bs_source s, peers := hm_map_values clear_eor (peers t)\<rparr>)"
      by (auto simp: session_rebuilt_def)
    then show ?thesis
    proof cases
      case 1
      then have "undated (?f t) = undated (?f s)" using undated_eqD [OF 1] by simp
      with that Some show ?thesis by (simp add: session_rebuilt_def)
    next
      case 2
      from undated_eqD [OF 2(3)] have "peers s = hm_map_values clear_eor (peers t)" by simp
      then have "?f s = s" by simp
      with 2 that Some show ?thesis by (simp add: session_rebuilt_def)
    qed
  qed
  show ?thesis
    unfolding rebuilt_def
  proof (intro conjI allI)
    fix b
    show "case hm_get (speakers (clear_speaker_eor a m)) b of
        None \<Rightarrow> hm_get (speakers (clear_speaker_eor a m')) b = None
      | Some s \<Rightarrow> session_rebuilt b s (hm_get (speakers (clear_speaker_eor a m')) b)
          \<and> epoch_of s < next_session_epoch (clear_speaker_eor a m)"
      using rebuilt_session [OF rb, of b] step
      by (cases "hm_get (speakers m) b") (auto simp: clear_speaker_eor_def hm_gets)
  qed (use rb in \<open>simp_all add: rebuilt_def clear_speaker_eor_def\<close>)
qed

lemma rebuilt_open:
  assumes rb: "rebuilt m m'" and next1: "next_session_epoch m < next_session_epoch m + 1"
  shows "rebuilt (snd (open_speaker_session a now m)) m'"
proof -
  let ?e = "next_session_epoch m"
  let ?new = "\<lambda>s. s\<lparr>bs_source := observation_source_new a ?e, connected_at := now, peers := hm_map_values clear_eor (peers s)\<rparr>"
  let ?s = "case hm_get (speakers m) a of Some s \<Rightarrow> ?new s | None \<Rightarrow> with_source (observation_source_new a ?e) now"
  have get: "hm_get (speakers (snd (open_speaker_session a now m))) b = (if b = a then Some ?s else hm_get (speakers m) b)" for b
    by (simp add: open_speaker_session_def Let_def hm_gets split: option.split)
  have epoch: "epoch_of ?s = ?e" "bs_source ?s = observation_source_new a ?e"
    by (simp_all add: with_source_def split: option.split)
  have "session_rebuilt a ?s (hm_get (speakers m') a)"
  proof (cases "hm_get (speakers m) a")
    case None
    with rebuilt_session(2) [OF rb None] show ?thesis
      by (simp add: session_rebuilt_def with_source_def undated_def)
  next
    case (Some s)
    from rebuilt_session(1) [OF rb Some] have sr: "session_rebuilt a s (hm_get (speakers m') a)" and lt: "epoch_of s < ?e"
      by simp_all
    show ?thesis
    proof (cases "hm_get (speakers m') a")
      case None
      with sr have u: "undated s = undated (with_source (bs_source s) 0)" by (simp add: session_rebuilt_def)
      from undated_eqD [OF u] have "peers s = []" by (simp add: with_source_def hm_empty_def)
      moreover from sr have "exporter_addr (bs_source s) = exporter_addr (observation_source_new a (epoch_of s))"
        unfolding session_rebuilt_def by (intro arg_cong [where f = exporter_addr]) blast
      then have "exporter_addr (bs_source s) = a" by (simp add: observation_source_new_def)
      moreover have "undated (?new s) = (undated s)\<lparr>bs_source := observation_source_new a ?e, peers := hm_map_values clear_eor (peers s)\<rparr>"
        by (simp add: undated_def)
      ultimately have "undated (?new s) = undated (with_source (observation_source_new a ?e) 0)"
        unfolding u
        by (simp add: undated_def with_source_def hm_map_values_def hm_empty_def observation_source_new_def)
      with None Some show ?thesis by (simp add: session_rebuilt_def)
    next
      case (Some t)
      have *: "undated (?new s) = (undated s)\<lparr>bs_source := observation_source_new a ?e, peers := hm_map_values clear_eor (peers s)\<rparr>"
        by (simp add: undated_def)
      from sr Some consider "undated t = undated s" | "epoch_of t < epoch_of s" "bs_source t = observation_source_new a (epoch_of t)"
          "undated s = undated (t\<lparr>bs_source := bs_source s, peers := hm_map_values clear_eor (peers t)\<rparr>)"
        by (auto simp: session_rebuilt_def)
      then have "epoch_of t < ?e \<and> bs_source t = observation_source_new a (epoch_of t)
          \<and> undated (?new s) = undated (t\<lparr>bs_source := observation_source_new a ?e, peers := hm_map_values clear_eor (peers t)\<rparr>)"
      proof cases
        case 1
        with undated_eqD [OF 1] sr lt show ?thesis
          unfolding * 1 [symmetric] by (simp add: session_rebuilt_def) (simp add: undated_def)
      next
        case 2
        from undated_eqD [OF 2(3)] have "peers s = hm_map_values clear_eor (peers t)" by simp
        with 2 lt show ?thesis
          unfolding * 2(3) by (simp add: less_trans) (simp add: undated_def)
      qed
      with \<open>hm_get (speakers m) a = Some s\<close> Some show ?thesis by (simp add: session_rebuilt_def)
    qed
  qed
  with epoch next1 have a: "session_rebuilt a ?s (hm_get (speakers m') a) \<and> epoch_of ?s < ?e + 1"
    by simp
  have nxt: "next_session_epoch (snd (open_speaker_session a now m)) = ?e + 1"
    by (simp add: open_speaker_session_def Let_def)
  show ?thesis
    unfolding rebuilt_def nxt
  proof (intro conjI allI)
    fix b
    show "case hm_get (speakers (snd (open_speaker_session a now m))) b of
        None \<Rightarrow> hm_get (speakers m') b = None
      | Some s \<Rightarrow> session_rebuilt b s (hm_get (speakers m') b) \<and> epoch_of s < ?e + 1"
      using rebuilt_session [OF rb, of b] a next1
      by (cases "b = a"; cases "hm_get (speakers m) b") (auto simp: get intro: less_trans)
  qed (use rb in \<open>simp_all add: rebuilt_def open_speaker_session_def Let_def\<close>)
qed

section \<open>One line of the journal\<close>

lemma reparse:
  assumes "parse_bmp_message_with_context X f a n ctx = Ok p"
  shows "parse_bmp_message_with_context X f a n' ctx = Ok p \<or> (\<exists>e. parse_bmp_message_with_context X f a n' ctx = Err e)"
proof (cases "validate_bmp_header f n'")
  case (Ok h)
  obtain l mt where h: "h = (l, mt)" by (cases h)
  with Ok assms show ?thesis
    by (auto simp: parse_bmp_message_with_context_def parse_bmp_message_with_peer_context_def and_then_Ok_iff
        validate_bmp_header_Ok_iff)
next
  case (Err e)
  then show ?thesis by (simp add: parse_bmp_message_with_context_def parse_bmp_message_with_peer_context_def)
next
  case Panic
  then show ?thesis by (simp add: validate_bmp_header_no_panic)
qed

text \<open>A frame the service has accepted is decoded again to the same message, whatever the two frame limits are.\<close>

lemma redecode_accepted:
  assumes "and_then (frame_context X (speaker_addr msg) f ctxs)
      (parse_bmp_message_with_context X f (speaker_addr msg) n) = Ok (payload msg)"
  shows "redecode X (Some (bytes_to_hex f)) ctxs msg = Ok msg"
proof -
  from assms obtain ctx where ctx: "frame_context X (speaker_addr msg) f ctxs = Ok ctx"
    and p: "parse_bmp_message_with_context X f (speaker_addr msg) n ctx = Ok (payload msg)"
    by (auto simp: and_then_Ok_iff)
  from reparse [OF p, of DEFAULT_MAX_FRAME] show ?thesis
    by (auto simp: redecode_def hex_roundtrip ctx)
qed

definition durable ::
  "externals \<Rightarrow> filter_externals \<Rightarrow> json \<Rightarrow> routing_service_state \<Rightarrow> parsed_bmp_journal_line list \<Rightarrow> bytes \<Rightarrow> replay_state \<Rightarrow> bool" where
  "durable X E J s ls bs st \<longleftrightarrow> lines (line_bytes J) ls = Some bs \<and> bmp_journal s = Some (file_of bs)
     \<and> apply_all (apply_parsed_line X E) ls (replay_start rib_manager_new) = Ok st
     \<and> rs_contexts st = contexts s \<and> rs_gaps st = gaps s \<and> rs_events st = event_tx (rs_rib st)
     \<and> rebuilt (rib s) (rs_rib st) \<and> manager_ok (rib s) \<and> manager_ok (rs_rib st)"

lemma durable_line:
  assumes "durable X E J s ls bs st" "line_bytes J l = Inr b" "apply_parsed_line X E l st = Ok st'"
  shows "lines (line_bytes J) (ls @ [l]) = Some (bs @ b @ [10])
    \<and> apply_all (apply_parsed_line X E) (ls @ [l]) (replay_start rib_manager_new) = Ok st'"
  using assms by (auto simp: durable_def apply_all_append lines_append)

lemma append_bytes_file: "append_bytes r (Some (file_of bs)) = (case r of Inl e \<Rightarrow> Err (JsonError e) | Inr b \<Rightarrow> Ok (Some (file_of (bs @ b @ [10]))))"
  by (simp add: append_bytes_def split: sum.split)

lemma event_tx_process: "event_tx (snd (process_for_epoch E msg epoch m)) = event_tx m @ fst (process_for_epoch E msg epoch m)"
  using numbered_process [of msg epoch m E] by (simp add: numbered_def)

text \<open>What a message does to the state, whatever becomes of its events.\<close>

lemma ingested:
  assumes "ingest_bmp_message_internal E J msg (Some e) frame s = (res, s')"
  shows "s' = s \<or> (\<exists>bj. append_observation J msg (Some e) frame (bmp_journal s) = Ok bj
    \<and> bmp_journal s' = bj \<and> rib s' = snd (process_for_epoch E msg (Some e) (rib s))
    \<and> contexts s' = learn_context (speaker_addr msg) (payload msg) (contexts s)
    \<and> gaps s' = clear_gap (speaker_addr msg) (Some e) (payload msg) (gaps s))"
  using assms
  by (auto simp: ingest_bmp_message_internal_def Let_def split_beta or_else_def split: outcome.splits)

lemma durable_ingest:
  assumes d: "durable X E J s ls bs st" and new: "from_newest (rib s) (speaker_addr msg) e"
    and frame: "redecode X (map_option bytes_to_hex frame) (contexts s) msg = Ok msg"
    and i: "ingest_bmp_message_internal E J msg (Some e) frame s = (res, s')"
  shows "\<exists>ls bs st. durable X E J s' ls bs st"
proof (cases "s' = s")
  case True
  with d show ?thesis by blast
next
  case False
  let ?obs = "\<lparr>obs_message = msg, obs_session_epoch = Some e, obs_raw_frame_hex = map_option bytes_to_hex frame\<rparr>"
  let ?p = "process_for_epoch E msg (Some e)"
  from ingested [OF i] False d obtain b where b: "observation_to_vec J ?obs = Inr b"
    "bmp_journal s' = Some (file_of (bs @ b @ [10]))" "rib s' = snd (?p (rib s))"
    "contexts s' = learn_context (speaker_addr msg) (payload msg) (contexts s)"
    "gaps s' = clear_gap (speaker_addr msg) (Some e) (payload msg) (gaps s)"
    by (auto simp: append_observation_def durable_def append_bytes_file split: sum.splits)
  define st' where "st' = \<lparr>rs_rib = snd (?p (rs_rib st)), rs_applied = rs_applied st + 1,
    rs_events = rs_events st @ fst (?p (rs_rib st)), rs_gaps = gaps s', rs_contexts = contexts s'\<rparr>"
  have "apply_parsed_line X E (Observation ?obs) st = Ok st'"
    using d frame b by (simp add: apply_observation_def durable_def Let_def or_else_def split_beta st'_def)
  from durable_line [OF d _ this, of b] b d rebuilt_process [OF _ new, of "rs_rib st" E]
  have "durable X E J s' (ls @ [Observation ?obs]) (bs @ b @ [10]) st'"
    by (simp add: durable_def ok_process event_tx_process st'_def)
  then show ?thesis by blast
qed

lemma durable_ingest_bytes:
  assumes d: "durable X E J s ls bs st" and new: "from_newest (rib s) a e"
    and i: "ingest_bmp_bytes X E J uuid now a (Some e) f s = (res, s')"
  shows "\<exists>ls bs st. durable X E J s' ls bs st"
proof (cases "and_then (frame_context X a f (contexts s)) (parse_bmp_message_with_context X f a (max_frame_bytes (config s)))")
  case (Ok p)
  let ?msg = "\<lparr>msg_id = uuid, received_at = now, speaker_addr = a, payload = p\<rparr>"
  from Ok i have "ingest_bmp_message_internal E J ?msg (Some e) (Some f) s = (res, s')"
    by (simp add: ingest_bmp_bytes_def)
  moreover have "redecode X (Some (bytes_to_hex f)) (contexts s) ?msg = Ok ?msg"
    using Ok by (intro redecode_accepted [where n = "max_frame_bytes (config s)"]) simp
  ultimately show ?thesis
    using d new by (intro durable_ingest) simp_all
qed (use d i in \<open>auto simp: ingest_bmp_bytes_def\<close>)

text \<open>The epoch a session has been rebuilt with is never ahead.\<close>

lemma rebuilt_epoch_le:
  assumes "rebuilt m m'" "speaker_epoch m' a = Some x"
  shows "\<exists>y. speaker_epoch m a = Some y \<and> x \<le> y"
proof -
  from assms(2) obtain t where t: "hm_get (speakers m') a = Some t" "x = epoch_of t"
    by (auto simp: speaker_epoch_def speaker_of_def)
  with rebuilt_session(2) [OF assms(1), of a] obtain s where s: "hm_get (speakers m) a = Some s"
    by (cases "hm_get (speakers m) a") auto
  with rebuilt_session(1) [OF assms(1) s] t have "epoch_of t \<le> epoch_of s"
    by (auto simp: session_rebuilt_def dest: undated_eqD)
  with s t show ?thesis by (simp add: speaker_epoch_def speaker_of_def)
qed

lemma durable_disconnect:
  assumes d: "durable X E J s ls bs st"
    and b: "control_to_vec J (TransportDisconnect a (or_else epoch (speaker_epoch (rib s) a)) now why) = Inr b"
  shows "\<exists>ls bs st. durable X E J (record_transport_disconnect_for_epoch J now a epoch why s) ls bs st"
proof (cases "stale_disconnect epoch (speaker_epoch (rib s) a)")
  case True
  with d show ?thesis by (auto simp: record_transport_disconnect_for_epoch_def)
next
  case False
  let ?e = "or_else epoch (speaker_epoch (rib s) a)"
  let ?gap = "\<lparr>gap_speaker_addr = a, gap_session_epoch = ?e, gap_disconnected_at = now, gap_reason = why\<rparr>"
  let ?s' = "record_transport_disconnect_for_epoch J now a epoch why s"
  define st' where "st' = st\<lparr>rs_rib := clear_speaker_eor a (rs_rib st), rs_gaps := hm_insert a ?gap (rs_gaps st)\<rparr>"
  have rb: "rebuilt (rib s) (rs_rib st)" using d by (simp add: durable_def)
  have s': "bmp_journal ?s' = Some (file_of (bs @ b @ [10]))" "rib ?s' = clear_speaker_eor a (rib s)"
    "gaps ?s' = hm_insert a ?gap (gaps s)" "contexts ?s' = contexts s"
    using d False b
    by (simp_all add: record_transport_disconnect_for_epoch_def durable_def append_transport_disconnect_def append_bytes_file)
  have "\<not> stale_disconnect ?e (speaker_epoch (rs_rib st) a)"
  proof (cases "speaker_epoch (rs_rib st) a")
    case (Some x)
    from rebuilt_epoch_le [OF rb Some] False show ?thesis
      using Some by (auto simp: stale_disconnect_def or_else_def split: option.splits)
  qed (simp add: stale_disconnect_def split: option.split)
  moreover have "or_else ?e (speaker_epoch (rs_rib st) a) = ?e"
    using rebuilt_epoch_le [OF rb, of a] by (cases "speaker_epoch (rs_rib st) a") (auto simp: or_else_def split: option.split)
  ultimately have "apply_parsed_line X E (Control (TransportDisconnect a ?e now why)) st = Ok st'"
    by (simp add: Let_def st'_def)
  from durable_line [OF d _ this, of b] b d s'
  have "durable X E J ?s' (ls @ [Control (TransportDisconnect a ?e now why)]) (bs @ b @ [10]) st'"
    by (simp add: durable_def st'_def rebuilt_clear_eor manager_ok_def ok_clear_speaker_eor) (simp add: clear_speaker_eor_def)
  then show ?thesis by blast
qed

section \<open>Runs of the service\<close>

text \<open>The runs of a service that started on an empty journal. A connection is opened while an epoch is left; a message
  comes from the newest connection of its speaker; a lost connection is reported with a record that the journal can
  encode, and whether it is the newest one or has been overtaken does not matter.\<close>

inductive serves :: "externals \<Rightarrow> filter_externals \<Rightarrow> json \<Rightarrow> routing_service_state \<Rightarrow> bool" for X E J where
  started: "rib s = rib_manager_new \<Longrightarrow> bmp_journal s = Some (file_of []) \<Longrightarrow> contexts s = hm_empty \<Longrightarrow> gaps s = hm_empty
    \<Longrightarrow> serves X E J s"
| connected: "serves X E J s \<Longrightarrow> next_session_epoch (rib s) < next_session_epoch (rib s) + 1
    \<Longrightarrow> serves X E J (snd (open_connection a now s))"
| frame: "serves X E J s \<Longrightarrow> from_newest (rib s) a e
    \<Longrightarrow> ingest_bmp_bytes X E J uuid now a (Some e) f s = (res, s') \<Longrightarrow> serves X E J s'"
| message: "serves X E J s \<Longrightarrow> from_newest (rib s) (speaker_addr msg) e
    \<Longrightarrow> ingest_bmp_message E J msg (Some e) s = (res, s') \<Longrightarrow> serves X E J s'"
| lost: "serves X E J s
    \<Longrightarrow> control_to_vec J (TransportDisconnect a (or_else epoch (speaker_epoch (rib s) a)) now why) = Inr b
    \<Longrightarrow> serves X E J (record_transport_disconnect_for_epoch J now a epoch why s)"

lemma rebuilt_new: "rebuilt rib_manager_new rib_manager_new"
  by (simp add: rebuilt_def rib_manager_new_def hm_gets)

lemma durable_open:
  assumes "durable X E J s ls bs st" "next_session_epoch (rib s) < next_session_epoch (rib s) + 1"
  shows "durable X E J (snd (open_connection a now s)) ls bs st"
  using assms by (simp add: durable_def open_connection_def split_beta rebuilt_open manager_ok_def ok_open_session)

lemma serves_durable: "serves X E J s \<Longrightarrow> \<exists>ls bs st. durable X E J s ls bs st"
proof (induction rule: serves.induct)
  case (started s)
  then have "durable X E J s [] [] (replay_start rib_manager_new)"
    by (simp add: durable_def replay_start_def rebuilt_new ok_new) (simp add: rib_manager_new_def)
  then show ?case by blast
next
  case (connected s a now)
  then show ?case using durable_open by blast
next
  case (frame s a e uuid now f res s')
  then show ?case using durable_ingest_bytes by blast
next
  case (message s msg e res s')
  then obtain ls bs st where "durable X E J s ls bs st" by blast
  with message show ?case
    by (intro durable_ingest [where frame = None]) (simp_all add: redecode_def ingest_bmp_message_def)
next
  case (lost s a epoch now why b)
  then show ?case using durable_disconnect by blast
qed

text \<open>Restarting loses nothing that the newest connections have delivered. After any run of the service in which every
  message came from the newest connection of its speaker, replaying the BMP journal into a fresh manager succeeds, skips
  nothing, and gives the same route tables, the same gaps, the same decoding contexts, the same events with the same
  numbers, and for every speaker whose newest connection has delivered a message the same session up to the time of the
  connection.\<close>

theorem recovery_exact:
  assumes "json_ok J" and "serves X E J s"
  shows "\<exists>jf out m. bmp_journal s = Some jf \<and> replay_into_with_state X E J jf rib_manager_new = Ok (out, m, jf)
    \<and> skipped_truncated_tail (report out) = 0
    \<and> ribs m = ribs (rib s) \<and> transport_gaps out = gaps s \<and> decode_contexts out = contexts s
    \<and> emitted_events out = event_tx (rib s) \<and> next_event_seq m = next_event_seq (rib s)
    \<and> (\<forall>a. speaker_epoch m a = speaker_epoch (rib s) a
         \<longrightarrow> map_option undated (speaker_of a m) = map_option undated (speaker_of a (rib s)))"
proof -
  from serves_durable [OF assms(2)] obtain ls bs st where d: "durable X E J s ls bs st" by blast
  then have rb: "rebuilt (rib s) (rs_rib st)" by (simp add: durable_def)
  have "map_option undated (speaker_of a (rs_rib st)) = map_option undated (speaker_of a (rib s))"
    if "speaker_epoch (rs_rib st) a = speaker_epoch (rib s) a" for a
    using that rebuilt_session [OF rb, of a]
    by (cases "hm_get (speakers (rib s)) a"; cases "hm_get (speakers (rs_rib st)) a")
      (auto simp: speaker_epoch_def speaker_of_def session_rebuilt_def)
  with d rb show ?thesis
    by (auto simp: durable_def replay_lines [OF assms(1)] rebuilt_def outcome_of_def)
qed

lemma terminated_tables:
  assumes "manager_ok m" "payload msg = Termination code info" "\<not> stale_termination msg epoch m"
    "pk_speaker k = speaker_addr msg"
  shows "hm_get (ribs (snd (process_for_epoch E msg epoch m))) k = None"
proof -
  have "manager_ok_except {} (snd (session_source (speaker_addr msg) (received_at msg) epoch m))"
    using assms(1) by (simp add: manager_ok_def ok_session_source)
  from termination_lookup(2) [OF this] assms(2-) show ?thesis
    by (simp add: process_for_epoch_def Let_def split_beta emit_with_source_def)
qed


section \<open>Restarting\<close>

lemma scan_events_lines:
  assumes "json_ok J" "lines (event_to_vec J) evs = Some bs"
  shows "scan_events J (file_of bs) = Ok (evs, file_of bs)"
  using scan_lines_written [OF event_line_codec [OF assms(1)] assms(2), of "\<lambda>ev evs. Ok (evs @ [ev])" 0 "[]" "[]"]
  by (simp add: scan_events_def apply_all_snoc scan_no_newline)

lemma lines_encodable: "\<forall>l \<in> set ls. \<exists>b. enc l = Inr b \<Longrightarrow> \<exists>bs. lines enc ls = Some bs"
  by (induction ls) auto

lemma append_batch_encodable:
  assumes "lines (event_to_vec J) evs = Some b"
  shows "append_batch J evs \<lparr>rj_file = Some (file_of es), rj_events = old\<rparr> =
    Ok \<lparr>rj_file = Some (file_of (es @ b)), rj_events = old @ evs\<rparr>"
  using assms by (auto simp: append_batch_def lines_batch_bytes split: sum.splits)

abbreviation event_seq :: "rib_event \<Rightarrow> u64" where
  "event_seq ev \<equiv> ek_sequence (ev_key ev)"


section \<open>A sample run\<close>

definition terminate_message :: bmp_message where
  "terminate_message = rib_message (Termination 0 None)"

definition announce_observation :: bmp_journal_observation where
  "announce_observation = \<lparr>obs_message = announce_message, obs_session_epoch = Some 1, obs_raw_frame_hex = None\<rparr>"

definition terminate_observation :: bmp_journal_observation where
  "terminate_observation = \<lparr>obs_message = terminate_message, obs_session_epoch = Some 1, obs_raw_frame_hex = None\<rparr>"

definition opened_manager :: rib_manager where
  "opened_manager = rib_manager_new\<lparr>speakers := [(IpV4 1, with_source (observation_source_new (IpV4 1) 1) 90)],
     next_session_epoch := 2\<rparr>"

definition announced_event :: rib_event where
  "announced_event = hd (fst (process_for_epoch sample_filter_externals announce_message (Some 1) opened_manager))"

definition zero_braces :: bytes where
  "zero_braces = [0x7B, 0x30, 0x7D]"

definition service_json :: json where
  "service_json = sample_json\<lparr>
     observation_to_vec := (\<lambda>obs. if obs = announce_observation then Inr braces
        else if obs = terminate_observation then Inr zero_braces else Inl ''unknown''),
     event_to_vec := (\<lambda>ev. if ev = announced_event then Inr braces else Inl ''unknown''),
     event_from_str := (\<lambda>s. if s = map byte_char braces then Inr announced_event else Inl ''expected value''),
     observation_from_str := (\<lambda>s. if s = map byte_char braces then Inr announce_observation
        else if s = map byte_char zero_braces then Inr terminate_observation else Inl ''expected value'')\<rparr>"

lemma zero_braces_line: "json_line zero_braces"
  by (simp add: json_line_def zero_braces_def utf8_scan_def utf8_width_def)

lemma lines_cut:
  assumes "bs = braces \<or> bs = zero_braces" "k < length bs"
  shows "map byte_char (take k bs) \<noteq> map byte_char braces" "map byte_char (take k bs) \<noteq> map byte_char zero_braces"
proof -
  have cut: "byte_char 0x30 \<noteq> byte_char 0x7D" by (simp add: byte_char_def)
  show "map byte_char (take k bs) \<noteq> map byte_char braces"
  proof
    assume eq: "map byte_char (take k bs) = map byte_char braces"
    from arg_cong [OF this, of length] assms have "k = 2" "bs = zero_braces"
      by (auto simp: braces_def)
    with eq cut show False by (simp add: braces_def zero_braces_def)
  qed
  show "map byte_char (take k bs) \<noteq> map byte_char zero_braces"
  proof
    assume "map byte_char (take k bs) = map byte_char zero_braces"
    from arg_cong [OF this, of length] assms show False by (auto simp: braces_def zero_braces_def)
  qed
qed

lemma observations_differ: "announce_observation \<noteq> terminate_observation"
  by (simp add: announce_observation_def terminate_observation_def terminate_message_def rib_samples)

lemma braces_differ: "map byte_char zero_braces \<noteq> map byte_char braces"
proof
  assume "map byte_char zero_braces = map byte_char braces"
  from arg_cong [OF this, of length] show False by (simp add: braces_def zero_braces_def)
qed

lemma service_json_ok: "json_ok service_json"
proof -
  have cut: "isl (observation_from_str service_json (map byte_char (take k bs)))
      \<and> isl (control_from_str service_json (map byte_char (take k bs)))"
    if "line_bytes service_json l = Inr bs" "k < length bs" for l bs k
    using that lines_cut [of bs k] by (cases l) (auto simp: service_json_def sample_json_def split: if_splits)
  show ?thesis
    unfolding json_ok_def
    using cut braces_line zero_braces_line braces_prefix observations_differ braces_differ
    by (auto simp: service_json_def sample_json_def split: if_splits)
qed

definition service_start :: routing_service_state where
  "service_start = \<lparr>config = \<lparr>bmp_listen_addr = ''0.0.0.0:11019'', http_listen_addr = ''127.0.0.1:9190'',
       bmp_journal_path = Some ''bmp.jsonl'', event_journal_path = None, max_frame_bytes = 65536,
       internal_service_token = None\<rparr>,
     rib = rib_manager_new, bmp_journal = Some (file_of []),
     event_journal = \<lparr>rj_file = None, rj_events = []\<rparr>, contexts = hm_empty, gaps = hm_empty\<rparr>"

definition announced_service :: routing_service_state where
  "announced_service = snd (ingest_bmp_message sample_filter_externals service_json announce_message (Some 1)
     (snd (open_connection (IpV4 1) 90 service_start)))"

lemma announced_serves: "serves documented_externals sample_filter_externals service_json announced_service"
proof -
  have "serves documented_externals sample_filter_externals service_json (snd (open_connection (IpV4 1) 90 service_start))"
    by (intro serves.connected serves.started) (simp_all add: service_start_def rib_manager_new_def)
  then show ?thesis
    unfolding announced_service_def
    by (rule serves.message [where msg = announce_message and e = 1, OF _ _ prod.collapse [symmetric]])
      (simp add: from_newest_def open_connection_def open_speaker_session_def service_start_def rib_manager_new_def
        Let_def speaker_epoch_def speaker_of_def hm_gets rib_samples with_source_def observation_source_new_def)
qed

lemma opened_rib: "rib (snd (open_connection (IpV4 1) 90 service_start)) = opened_manager"
  by (simp add: opened_manager_def open_connection_def open_speaker_session_def service_start_def rib_manager_new_def
      Let_def hm_empty_def hm_get_def)

lemma announced_rib:
  "rib announced_service = snd (process_for_epoch sample_filter_externals announce_message (Some 1) opened_manager)"
proof -
  have "observation_to_vec service_json \<lparr>obs_message = announce_message, obs_session_epoch = Some 1, obs_raw_frame_hex = None\<rparr>
      = Inr braces"
    by (simp add: service_json_def announce_observation_def)
  moreover have "bmp_journal (snd (open_connection (IpV4 1) 90 service_start)) = Some (file_of [])"
    by (simp add: open_connection_def service_start_def split_beta)
  ultimately show ?thesis
    by (simp add: announced_service_def ingest_bmp_message_def ingest_bmp_message_internal_def append_observation_def
        append_bytes_file opened_rib Let_def split_beta split: outcome.split)
qed

lemma announced_routes: "rib_for_peer_key rib_key (rib announced_service) \<noteq> None"
  using announce_update unfolding announced_rib
  by (simp add: opened_manager_def
      rib_for_peer_key_def process_for_epoch_def rib_samples stale_termination_def session_source_def
      rib_manager_new_def on_route_monitoring_def announce_route_def filter_verdict_of_def Let_def split_beta
      hm_gets ensure_peer_def sync_peer_route_counts_def emit_state update_rib_def update_peer_def)

lemma announced_epoch:
  "speaker_epoch (rib announced_service) (IpV4 1) = Some 1" "next_session_epoch (rib announced_service) = 2"
proof -
  have new: "from_newest opened_manager (IpV4 1) 1" and rb: "rebuilt opened_manager opened_manager"
    by (auto simp: from_newest_def opened_manager_def rib_manager_new_def speaker_epoch_def speaker_of_def with_source_def
        observation_source_new_def rebuilt_def session_rebuilt_def hm_get_def)
  note ss = session_source_alike [OF rb new, of 100]
  have p: "process_for_epoch sample_filter_externals announce_message (Some 1) opened_manager =
      handle sample_filter_externals announce_message (fst (session_source (IpV4 1) 100 (Some 1) opened_manager))
        (snd (session_source (IpV4 1) 100 (Some 1) opened_manager))"
    by (simp add: process_handle stale_termination_def rib_samples)
  have "source_of (rib announced_service) (IpV4 1) = Some (observation_source_new (IpV4 1) 1)"
    unfolding announced_rib p using ss(5) by (simp add: handle_def rib_samples)
  then show "speaker_epoch (rib announced_service) (IpV4 1) = Some 1"
    by (auto simp: source_of_def speaker_epoch_def speaker_of_def observation_source_new_def)
  show "next_session_epoch (rib announced_service) = 2"
    unfolding announced_rib p handle_epochs ss(4) by (simp add: opened_manager_def)
qed

theorem recovery_exact_witness:
  "\<exists>jf out m. bmp_journal announced_service = Some jf
    \<and> replay_into_with_state documented_externals sample_filter_externals service_json jf rib_manager_new = Ok (out, m, jf)
    \<and> rib_for_peer_key rib_key m = rib_for_peer_key rib_key (rib announced_service) \<and> rib_for_peer_key rib_key m \<noteq> None"
  using recovery_exact [OF service_json_ok announced_serves] announced_routes
  by (auto simp: rib_for_peer_key_def)


lemma announced_events: "event_tx (rib announced_service) = [announced_event]"
proof -
  have "length (fst (process_for_epoch sample_filter_externals announce_message (Some 1) opened_manager)) = 1"
    using announce_update
    by (simp add: opened_manager_def process_for_epoch_def rib_samples stale_termination_def session_source_def
        rib_manager_new_def on_route_monitoring_def announce_route_def filter_verdict_of_def Let_def split_beta
        emit_with_source_def ensure_peer_def hm_gets update_rib_def update_peer_def)
  then have "fst (process_for_epoch sample_filter_externals announce_message (Some 1) opened_manager) = [announced_event]"
    by (cases "fst (process_for_epoch sample_filter_externals announce_message (Some 1) opened_manager)")
      (simp_all add: announced_event_def)
  moreover have "event_tx opened_manager = []" by (simp add: opened_manager_def rib_manager_new_def)
  ultimately show ?thesis by (simp add: announced_rib event_tx_process)
qed


end
