(* ===== verification/Query_Laws.thy ===== *)
theory Query_Laws
  imports Routing_Queries Recovery
begin

text \<open>
  What a client of the internal API can rely on: that following the cursor of the routes visits every route once, what
  the completeness label of a route says, that following the event feed misses no event, and where the limits and
  filters do not do what they are there for.
\<close>

section \<open>Peers\<close>

lemma clamp_bounds: "lo \<le> hi \<Longrightarrow> lo \<le> clamp lo hi n \<and> clamp lo hi n \<le> hi"
  by (simp add: clamp_def)

lemma peer_loop_length:
  "length (peer_loop q limit spk gap ps rows) \<le> max limit (Suc (length rows))"
proof (induction q limit spk gap ps rows rule: peer_loop.induct)
  case (2 q limit spk gap k p ps rows)
  then show ?case by (auto simp: Let_def max_def split: if_splits)
qed (simp add: max_def)

lemma fold_peers_length:
  "length (fold (peers_of_speaker q limit gs) spks rows) \<le> max limit (length rows + 1) + length spks - 1"
proof (induction spks arbitrary: rows)
  case (Cons spk spks)
  have "length (peers_of_speaker q limit gs spk rows) \<le> max limit (Suc (length rows))"
    using peer_loop_length [of q limit spk "hm_get gs (bs_speaker spk) \<noteq> None" "peers spk" rows]
    unfolding peers_of_speaker_def by (cases "passes (pq_speaker q) (ip_string (bs_speaker spk))") simp_all
  with Cons [of "peers_of_speaker q limit gs spk rows"] show ?case by (auto simp: max_def split: if_splits)
qed (auto simp: max_def)

lemma peer_loop_first:
  "pq_vrf_rd q = None \<Longrightarrow> pq_state q = None \<Longrightarrow> ps \<noteq> [] \<Longrightarrow> limit \<le> Suc (length rows) \<Longrightarrow>
    length (peer_loop q limit spk gap ps rows) = Suc (length rows)"
  by (cases ps) (auto simp: peer_wanted_def passes_def)

lemma fold_peers_first:
  assumes "pq_speaker q = None" "pq_vrf_rd q = None" "pq_state q = None" "\<forall>spk \<in> set spks. peers spk \<noteq> []"
  shows "length (fold (peers_of_speaker q 1 gs) spks rows) = length rows + length spks"
  using assms(4)
proof (induction spks arbitrary: rows)
  case (Cons spk spks)
  then have "length (peers_of_speaker q 1 gs spk rows) = Suc (length rows)"
    using assms(1-3) by (simp add: peers_of_speaker_def passes_def peer_loop_first)
  with Cons show ?case by simp
qed simp

text \<open>The limit of the peers query does not bound the answer. The check ends only the loop over the peers of one speaker,
  so each further speaker adds a peer: the answer may have one row less than the limit plus the number of speakers, and
  asking for one peer returns one per speaker.\<close>

theorem peers_limit_overrun:
  assumes "pq_speaker q = None" and "pq_vrf_rd q = None" and "pq_state q = None"
    and "\<forall>spk \<in> set (speaker_list (rib s)). peers spk \<noteq> []"
  shows "length (snd (snd (build_peers_json s (q\<lparr>pq_limit := Some 1\<rparr>)))) = length (speaker_list (rib s))
    \<and> length (snd (snd (build_peers_json s q)))
        \<le> clamp 1 1000 (unwrap_or 200 (pq_limit q)) + length (speaker_list (rib s)) - 1"
proof -
  have "clamp 1 1000 (unwrap_or 200 (Some 1)) = 1" by (simp add: clamp_def unwrap_or_def)
  moreover have "1 \<le> clamp 1 1000 (unwrap_or 200 (pq_limit q))" by (simp add: clamp_bounds)
  ultimately show ?thesis
    using fold_peers_first [of "q\<lparr>pq_limit := Some 1\<rparr>" "speaker_list (rib s)" "gaps s" "[]"] assms
      fold_peers_length [of q "clamp 1 1000 (unwrap_or 200 (pq_limit q))" "gaps s" "speaker_list (rib s)" "[]"]
    by (simp add: build_peers_json_def max_def)
qed

section \<open>Routes\<close>

lemma push_all_mem:
  assumes "push_all f xs = Ok ys"
  shows "y \<in> set ys \<longleftrightarrow> (\<exists>x \<in> set xs. \<exists>r. f x = Ok r \<and> y \<in> set r)"
  using assms
proof (induction xs arbitrary: ys)
  case (Cons x xs)
  then obtain a b where "f x = Ok a" "push_all f xs = Ok b" "ys = a @ b" by (auto simp: and_then_Ok_iff)
  with Cons.IH [of b] show ?case by auto
qed simp

lemma push_all_Ok: "push_all f xs = Ok ys \<Longrightarrow> x \<in> set xs \<Longrightarrow> \<exists>r. f x = Ok r"
  by (induction xs arbitrary: ys) (auto simp: and_then_Ok_iff)

definition route_wanted :: "routes_query \<Rightarrow> bmp_session \<Rightarrow> peer_key \<Rightarrow> rib_type \<Rightarrow> string \<Rightarrow> bool" where
  "route_wanted q spk k r pfx_str \<longleftrightarrow> passes (rq_speaker q) (ip_string (bs_speaker spk)) \<and> passes (rq_peer q) (ip_string (pk_address k))
     \<and> passes (rq_vrf_rd q) (distinguisher_string k) \<and> view_wanted q r \<and> passes (rq_prefix q) pfx_str"

lemma set_all_views: "set all_views = UNIV"
proof -
  have "r \<in> set all_views" for r by (cases r) (simp_all add: all_views_def)
  then show ?thesis by blast
qed

text \<open>An entry shows up as a row of a view.\<close>

definition entry_shown :: "routes_query \<Rightarrow> bmp_session \<Rightarrow> bool \<Rightarrow> peer_key \<Rightarrow> rib_type \<Rightarrow> rib_entry \<Rightarrow> route_row \<Rightarrow> bool" where
  "entry_shown q spk gap k r entry row \<longleftrightarrow> (\<exists>pfx. prefix_string (re_prefix entry) = Ok pfx \<and> passes (rq_prefix q) pfx
     \<and> row = route_row_of spk gap k r entry pfx)"

lemma rows_of_view_mem:
  assumes "rows_of_view q spk gap k T r = Ok rows"
  shows "row \<in> set rows \<longleftrightarrow> view_wanted q r \<and> (\<exists>entry \<in> set (iter_rib r T). entry_shown q spk gap k r entry row)"
proof (cases "view_wanted q r")
  case True
  let ?f = "\<lambda>entry. and_then (prefix_string (re_prefix entry)) (\<lambda>pfx_str.
        Ok (if passes (rq_prefix q) pfx_str then [route_row_of spk gap k r entry pfx_str] else []))"
  from True assms have p: "push_all ?f (iter_rib r T) = Ok rows" by (simp add: rows_of_view_def)
  have "(\<exists>rs. ?f entry = Ok rs \<and> row \<in> set rs) \<longleftrightarrow> entry_shown q spk gap k r entry row" for entry
    by (cases "prefix_string (re_prefix entry)") (auto simp: entry_shown_def)
  with push_all_mem [OF p, of row] True show ?thesis by simp
qed (use assms in \<open>simp add: rows_of_view_def\<close>)

lemma rows_of_peer_mem:
  assumes "rows_of_peer q spk gap (k, T) = Ok rows"
  shows "row \<in> set rows \<longleftrightarrow> passes (rq_peer q) (ip_string (pk_address k)) \<and> passes (rq_vrf_rd q) (distinguisher_string k)
    \<and> (\<exists>r. view_wanted q r \<and> (\<exists>entry \<in> set (iter_rib r T). entry_shown q spk gap k r entry row))"
proof (cases "passes (rq_peer q) (ip_string (pk_address k)) \<and> passes (rq_vrf_rd q) (distinguisher_string k)")
  case True
  with assms have p: "push_all (rows_of_view q spk gap k T) all_views = Ok rows" by (simp add: rows_of_peer_def)
  have "(\<exists>rs. rows_of_view q spk gap k T r = Ok rs \<and> row \<in> set rs) \<longleftrightarrow>
      view_wanted q r \<and> (\<exists>entry \<in> set (iter_rib r T). entry_shown q spk gap k r entry row)" for r
  proof -
    from push_all_Ok [OF p, of r] obtain rs where rs: "rows_of_view q spk gap k T r = Ok rs"
      by (auto simp: set_all_views)
    from rows_of_view_mem [OF rs, of row] rs show ?thesis by simp
  qed
  with push_all_mem [OF p, of row] True show ?thesis by (simp add: set_all_views)
qed (use assms in \<open>auto simp: rows_of_peer_def split: if_splits\<close>)

lemma rows_of_speaker_mem:
  assumes "rows_of_speaker q s spk = Ok rows"
  shows "row \<in> set rows \<longleftrightarrow> passes (rq_speaker q) (ip_string (bs_speaker spk))
    \<and> (\<exists>k T r entry. (k, T) \<in> set (ribs (rib s)) \<and> pk_speaker k = bs_speaker spk \<and> entry \<in> set (iter_rib r T)
        \<and> passes (rq_peer q) (ip_string (pk_address k)) \<and> passes (rq_vrf_rd q) (distinguisher_string k) \<and> view_wanted q r
        \<and> entry_shown q spk (hm_get (gaps s) (bs_speaker spk) \<noteq> None) k r entry row)"
proof (cases "passes (rq_speaker q) (ip_string (bs_speaker spk))")
  case True
  let ?gap = "hm_get (gaps s) (bs_speaker spk) \<noteq> None"
  let ?kts = "ribs_for_speaker (bs_speaker spk) (rib s)"
  from True assms have p: "push_all (rows_of_peer q spk ?gap) ?kts = Ok rows"
    unfolding rows_of_speaker_def by simp
  have "(\<exists>rs. rows_of_peer q spk ?gap (k, T) = Ok rs \<and> row \<in> set rs) \<longleftrightarrow>
      passes (rq_peer q) (ip_string (pk_address k)) \<and> passes (rq_vrf_rd q) (distinguisher_string k)
    \<and> (\<exists>r. view_wanted q r \<and> (\<exists>entry \<in> set (iter_rib r T). entry_shown q spk ?gap k r entry row))"
    if "(k, T) \<in> set ?kts" for k T
  proof -
    from push_all_Ok [OF p that] obtain rs where rs: "rows_of_peer q spk ?gap (k, T) = Ok rs" by blast
    from rows_of_peer_mem [OF rs, of row] rs show ?thesis by simp
  qed
  then have "row \<in> set rows \<longleftrightarrow> (\<exists>k T. (k, T) \<in> set ?kts
    \<and> passes (rq_peer q) (ip_string (pk_address k)) \<and> passes (rq_vrf_rd q) (distinguisher_string k)
    \<and> (\<exists>r. view_wanted q r \<and> (\<exists>entry \<in> set (iter_rib r T). entry_shown q spk ?gap k r entry row)))"
    unfolding push_all_mem [OF p, of row] by (simp only: Bex_def split_paired_Ex) blast
  then show ?thesis
    using True unfolding ribs_for_speaker_def by simp blast
qed (use assms in \<open>simp add: rows_of_speaker_def\<close>)

text \<open>A client that follows the cursor, for at most so many requests.\<close>

fun fetch_pages :: "nat \<Rightarrow> routing_service_state \<Rightarrow> routes_query \<Rightarrow> nat \<Rightarrow> route_row list result" where
  "fetch_pages 0 s q cursor = Ok []"
| "fetch_pages (Suc n) s q cursor =
     and_then (build_routes_json s (q\<lparr>rq_cursor := Some cursor\<rparr>)) (\<lambda>a. case ra_next_cursor a of
       None \<Rightarrow> Ok (ra_routes a)
     | Some c \<Rightarrow> and_then (fetch_pages n s q c) (\<lambda>rows. Ok (ra_routes a @ rows)))"

definition family_supported :: "routes_query \<Rightarrow> bool" where
  "family_supported q = (case rq_family q of None \<Rightarrow> True | Some fam \<Rightarrow> support_status (family_of_name fam) = Supported)"

lemma all_matching_fields [simp]:
  "all_matching s (q\<lparr>rq_cursor := c\<rparr>) = all_matching s q" "all_matching s (q\<lparr>rq_family := f\<rparr>) = all_matching s q"
proof -
  have view: "rows_of_view (q\<lparr>rq_cursor := c\<rparr>) = rows_of_view q" "rows_of_view (q\<lparr>rq_family := f\<rparr>) = rows_of_view q" for c f
    by (intro ext, simp add: rows_of_view_def view_wanted_def)+
  have peer: "rows_of_peer (q\<lparr>rq_cursor := c\<rparr>) = rows_of_peer q" "rows_of_peer (q\<lparr>rq_family := f\<rparr>) = rows_of_peer q" for c f
    by (intro ext, simp add: rows_of_peer_def view split: prod.split)+
  have "rows_of_speaker (q\<lparr>rq_cursor := c\<rparr>) = rows_of_speaker q" "rows_of_speaker (q\<lparr>rq_family := f\<rparr>) = rows_of_speaker q" for c f
    by (intro ext, simp add: rows_of_speaker_def peer)+
  then show "all_matching s (q\<lparr>rq_cursor := c\<rparr>) = all_matching s q" "all_matching s (q\<lparr>rq_family := f\<rparr>) = all_matching s q"
    by (simp_all add: all_matching_def)
qed

lemma routes_page:
  assumes "family_supported q" "all_matching s q = Ok rows"
  shows "\<exists>a. build_routes_json s (q\<lparr>rq_cursor := Some cursor\<rparr>) = Ok a
    \<and> ra_routes a = take (clamp 1 500 (unwrap_or 100 (rq_limit q))) (drop cursor rows)
    \<and> ra_next_cursor a = (let n = cursor + length (ra_routes a) in if n < length rows then Some n else None)"
  using assms
  by (cases "rq_family q") (auto simp: build_routes_json_def family_supported_def unwrap_or_def [of 0] Let_def)

lemma fetch_pages_rest:
  assumes "family_supported q" "all_matching s q = Ok rows" "length rows - cursor < n"
  shows "fetch_pages n s q cursor = Ok (drop cursor rows)"
  using assms(3)
proof (induction n arbitrary: cursor)
  case (Suc n)
  let ?l = "clamp 1 500 (unwrap_or 100 (rq_limit q))"
  have l: "1 \<le> ?l" by (simp add: clamp_bounds)
  from routes_page [OF assms(1, 2), of cursor] obtain a where a: "build_routes_json s (q\<lparr>rq_cursor := Some cursor\<rparr>) = Ok a"
    "ra_routes a = take ?l (drop cursor rows)"
    "ra_next_cursor a = (let n = cursor + length (ra_routes a) in if n < length rows then Some n else None)" by blast
  show ?case
  proof (cases "cursor + ?l < length rows")
    case True
    then have "ra_next_cursor a = Some (cursor + ?l)" using a by (auto simp: Let_def min_def)
    moreover have "fetch_pages n s q (cursor + ?l) = Ok (drop (cursor + ?l) rows)"
      using Suc True l by (intro Suc.IH) linarith
    ultimately show ?thesis
      using a by simp (metis add.commute append_take_drop_id drop_drop)
  next
    case False
    then have "ra_next_cursor a = None" using a by (auto simp: Let_def min_def)
    then show ?thesis using a False by simp
  qed
qed simp

lemma all_matching_mem:
  assumes "all_matching s q = Ok rows"
  shows "row \<in> set rows \<longleftrightarrow> (\<exists>spk \<in> set (speaker_list (rib s)). \<exists>k T r entry pfx.
         (k, T) \<in> set (ribs (rib s)) \<and> pk_speaker k = bs_speaker spk \<and> entry \<in> set (iter_rib r T)
       \<and> prefix_string (re_prefix entry) = Ok pfx \<and> route_wanted q spk k r pfx
       \<and> row = route_row_of spk (hm_get (gaps s) (bs_speaker spk) \<noteq> None) k r entry pfx)"
proof -
  from assms have p: "push_all (rows_of_speaker q s) (speaker_list (rib s)) = Ok rows" by (simp add: all_matching_def)
  have "(\<exists>rs. rows_of_speaker q s spk = Ok rs \<and> row \<in> set rs) \<longleftrightarrow> (\<exists>k T r entry pfx.
         (k, T) \<in> set (ribs (rib s)) \<and> pk_speaker k = bs_speaker spk \<and> entry \<in> set (iter_rib r T)
       \<and> prefix_string (re_prefix entry) = Ok pfx \<and> route_wanted q spk k r pfx
       \<and> row = route_row_of spk (hm_get (gaps s) (bs_speaker spk) \<noteq> None) k r entry pfx)"
    if "spk \<in> set (speaker_list (rib s))" for spk
  proof -
    from push_all_Ok [OF p that] obtain rs where rs: "rows_of_speaker q s spk = Ok rs" by blast
    have "(\<exists>rs. rows_of_speaker q s spk = Ok rs \<and> row \<in> set rs) \<longleftrightarrow> row \<in> set rs" using rs by simp
    then show ?thesis unfolding rows_of_speaker_mem [OF rs] entry_shown_def route_wanted_def by blast
  qed
  then show ?thesis unfolding push_all_mem [OF p, of row] by (rule bex_cong [OF refl])
qed


text \<open>The family of a routes query selects nothing. When it names a supported family the answer is the one to the query
  without a family, with the routes of all families.\<close>

theorem routes_family_ignored:
  assumes "support_status (family_of_name fam) = Supported"
  shows "build_routes_json s (q\<lparr>rq_family := Some fam\<rparr>) = build_routes_json s (q\<lparr>rq_family := None\<rparr>)"
  using assms by (simp add: build_routes_json_def)

section \<open>Completeness\<close>

lemma hm_insert_nonempty: "hm_insert k v m \<noteq> []"
  by (cases m) auto

lemma peer_loop_rows:
  "row \<in> set (peer_loop q limit spk gap ps rows) \<Longrightarrow> row \<in> set rows \<or> (\<exists>k p. row = peer_row_of spk gap k p)"
  by (induction q limit spk gap ps rows rule: peer_loop.induct) (auto simp: Let_def split: if_splits)

lemma fold_peers_rows:
  "row \<in> set (fold (peers_of_speaker q limit gs) spks rows) \<Longrightarrow>
    row \<in> set rows \<or> (\<exists>spk k p. row = peer_row_of spk (hm_get gs (bs_speaker spk) \<noteq> None) k p)"
proof (induction spks arbitrary: rows)
  case (Cons spk spks)
  then have "row \<in> set (fold (peers_of_speaker q limit gs) spks (peers_of_speaker q limit gs spk rows))" by simp
  from Cons.IH [OF this] peer_loop_rows [of row q limit spk "hm_get gs (bs_speaker spk) \<noteq> None" "peers spk" rows]
  show ?case unfolding peers_of_speaker_def by (cases "passes (pq_speaker q) (ip_string (bs_speaker spk))") auto
qed simp

text \<open>A lost connection shows in every answer. When the loss of the connection of a speaker is recorded for an epoch that
  is not older than that of its session, the view as a whole is reported as having a gap, and so are the speaker and
  every row of its peers and routes, whatever End-of-RIB markers had been received.\<close>

theorem transport_gap_visible:
  assumes "\<not> stale_disconnect epoch (speaker_epoch (rib s) a)"
    and "s' = record_transport_disconnect_for_epoch J now a epoch why s"
    and "all_matching s' q = Ok rows"
  shows "overall_completeness s' = ''gap'' \<and> ha_completeness (build_health_json s') = ''gap''
    \<and> (\<forall>row \<in> set (snd (snd (build_speakers_json s'))). sr_speaker_addr row = a \<longrightarrow> sr_completeness row = ''gap'')
    \<and> (\<forall>row \<in> set (snd (snd (build_peers_json s' pq))). pr_speaker_addr row = a \<longrightarrow> pr_completeness row = ''gap'')
    \<and> (\<forall>row \<in> set rows. rr_speaker_addr row = a \<longrightarrow> rr_completeness row = ''gap'')"
proof -
  have g: "hm_get (gaps s') a \<noteq> None" "gaps s' \<noteq> []"
    using assms(1, 2) by (auto simp: record_transport_disconnect_for_epoch_def Let_def hm_gets hm_insert_nonempty)
  have "overall_completeness s' = ''gap''" using g(2) by (simp add: overall_completeness_def)
  moreover have "rr_completeness row = ''gap''" if "row \<in> set rows" "rr_speaker_addr row = a" for row
    using that g(1) by (auto simp: all_matching_mem [OF assms(3)] route_row_of_def Let_def route_completeness_def)
  moreover have "pr_completeness row = ''gap''"
    if "row \<in> set (snd (snd (build_peers_json s' pq)))" "pr_speaker_addr row = a" for row
    using that g(1) fold_peers_rows [of row pq _ "gaps s'" _ "[]"]
    by (fastforce simp: build_peers_json_def peer_row_of_def peer_completeness_def)
  ultimately show ?thesis
    using g(1) by (auto simp: build_health_json_def build_speakers_json_def speaker_row_of_def Let_def speaker_completeness_def)
qed

section \<open>The event feed\<close>

text \<open>A client that polls with the sequence number the last answer gave, until an answer is empty.\<close>

fun poll_events :: "nat \<Rightarrow> routing_service_state \<Rightarrow> events_query \<Rightarrow> u64 \<Rightarrow> rib_event list" where
  "poll_events 0 s q after_seq = []"
| "poll_events (Suc n) s q after_seq =
     (let a = build_events_json s (q\<lparr>eq_after_seq := Some after_seq\<rparr>) in
      if ea_events a = [] then [] else ea_events a @ poll_events n s q (ea_next_after_seq a))"

abbreviation unfiltered :: "events_query \<Rightarrow> bool" where
  "unfiltered q \<equiv> eq_speaker q = None \<and> eq_vrf_rd q = None"

definition ascending :: "rib_event list \<Rightarrow> bool" where
  "ascending evs = sorted_wrt (<) (map event_seq evs)"

text \<open>What stands behind the event with a given number, in an ascending list.\<close>

lemma ascending_after:
  assumes "ascending (xs @ [e] @ ys)"
  shows "filter (\<lambda>ev. event_seq e < event_seq ev) (xs @ [e] @ ys) = ys"
proof -
  have "filter (\<lambda>ev. event_seq e < event_seq ev) xs = []" "filter (\<lambda>ev. event_seq e < event_seq ev) ys = ys"
    using assms by (auto simp: ascending_def sorted_wrt_append filter_empty_conv filter_id_conv)
  then show ?thesis by simp
qed

lemma ascending_filter: "ascending evs \<Longrightarrow> ascending (filter P evs)"
  unfolding ascending_def by (induction evs) (auto)

lemma filter_after_last:
  assumes asc: "ascending evs" and last: "filter P (filter (\<lambda>ev. after < event_seq ev) evs) = xs @ [e] @ ys"
  shows "filter P (filter (\<lambda>ev. event_seq e < event_seq ev) evs) = ys"
proof -
  have e: "after < event_seq e" using arg_cong [OF last, of set] by auto
  have "filter P (filter (\<lambda>ev. event_seq e < event_seq ev) evs)
      = filter (\<lambda>ev. event_seq e < event_seq ev) (filter P (filter (\<lambda>ev. after < event_seq ev) evs))"
    using e by (auto simp: intro!: filter_cong)
  also have "\<dots> = ys"
    unfolding last by (rule ascending_after) (use ascending_filter [OF ascending_filter [OF asc]] last in metis)
  finally show ?thesis .
qed

lemma events_answer:
  assumes "unfiltered q \<or> length (rj_events (event_journal s)) \<le> 10000"
  shows "ea_events (build_events_json s (q\<lparr>eq_after_seq := Some after_seq\<rparr>)) =
    take (clamp 1 1000 (unwrap_or 100 (eq_limit q)))
      (filter (event_wanted q) (filter (\<lambda>ev. after_seq < event_seq ev) (rj_events (event_journal s))))"
proof -
  have wanted: "event_wanted (q\<lparr>eq_after_seq := Some after_seq\<rparr>) = event_wanted q"
    by (intro ext) (simp add: event_wanted_def)
  let ?later = "filter (\<lambda>ev. after_seq < event_seq ev) (rj_events (event_journal s))"
  show ?thesis
  proof (cases "unfiltered q")
    case True
    then have "filter (event_wanted q) xs = xs" for xs
      by (auto simp: event_wanted_def passes_def filter_id_conv)
    with True show ?thesis
      by (simp add: build_events_json_def Let_def events_after_seq_def wanted unwrap_or_def [of 0] del: filter_filter)
  next
    case False
    with assms have "length ?later \<le> 10000" by (meson le_trans length_filter_le)
    then have "take 10000 ?later = ?later" by simp
    moreover from False have "eq_speaker q \<noteq> None \<or> eq_vrf_rd q \<noteq> None" by simp
    ultimately show ?thesis
      by (simp add: build_events_json_def Let_def events_after_seq_def wanted unwrap_or_def [of 0] del: filter_filter)
  qed
qed

lemma length_drop_less: "xs \<noteq> [] \<Longrightarrow> length xs < Suc n \<Longrightarrow> 1 \<le> l \<Longrightarrow> length (drop l xs) < n"
  by (cases xs) auto

lemma split_last: "take l xs \<noteq> [] \<Longrightarrow> xs = butlast (take l xs) @ [last (take l xs)] @ drop l xs"
proof -
  assume "take l xs \<noteq> []"
  then have id: "butlast (take l xs) @ [last (take l xs)] = take l xs" by simp
  show ?thesis unfolding append_assoc [symmetric] id by simp
qed

lemma poll_rest:
  assumes asc: "ascending (rj_events (event_journal s))" and cap: "unfiltered q \<or> length (rj_events (event_journal s)) \<le> 10000"
    and "length (filter (event_wanted q) (filter (\<lambda>ev. after_seq < event_seq ev) (rj_events (event_journal s)))) < n"
  shows "poll_events n s q after_seq =
    filter (event_wanted q) (filter (\<lambda>ev. after_seq < event_seq ev) (rj_events (event_journal s)))"
  using assms(3)
proof (induction n arbitrary: after_seq)
  case (Suc n)
  let ?l = "clamp 1 1000 (unwrap_or 100 (eq_limit q))"
  let ?rest = "\<lambda>after. filter (event_wanted q) (filter (\<lambda>ev. after < event_seq ev) (rj_events (event_journal s)))"
  let ?a = "build_events_json s (q\<lparr>eq_after_seq := Some after_seq\<rparr>)"
  note ans = events_answer [OF cap, of after_seq]
  show ?case
  proof (cases "?rest after_seq = []")
    case True
    then show ?thesis by (simp add: ans del: filter_filter)
  next
    case False
    have l: "1 \<le> ?l" by (simp add: clamp_bounds)
    with False have ne: "ea_events ?a \<noteq> []" unfolding ans by (auto simp del: filter_filter)
    have nxt: "ea_next_after_seq ?a = event_seq (last (ea_events ?a))"
      using ne by (simp add: build_events_json_def Let_def)
    have split: "?rest after_seq = butlast (ea_events ?a) @ [last (ea_events ?a)] @ drop ?l (?rest after_seq)"
      using ne unfolding ans by (rule split_last)
    from filter_after_last [OF asc split] have rest: "?rest (ea_next_after_seq ?a) = drop ?l (?rest after_seq)"
      unfolding nxt .
    have "length (?rest (ea_next_after_seq ?a)) < n"
      unfolding rest using False Suc.prems l by (rule length_drop_less)
    from Suc.IH [OF this] have "poll_events n s q (ea_next_after_seq ?a) = drop ?l (?rest after_seq)"
      unfolding rest .
    with ne ans show ?thesis by (simp add: Let_def del: filter_filter)
  qed
qed simp

text \<open>The event feed misses nothing. When the numbers of the journalled events ascend, a client that keeps polling with
  the number of the last event it has seen gets every event after its starting point that its filters ask for, once and
  in order, and then an empty answer. With a filter this needs the journal to have at most 10000 events.\<close>

theorem events_feed_complete:
  assumes "ascending (rj_events (event_journal s))" and "unfiltered q \<or> length (rj_events (event_journal s)) \<le> 10000"
    and "length (rj_events (event_journal s)) < n"
  shows "poll_events n s q after_seq =
    filter (\<lambda>ev. after_seq < event_seq ev \<and> event_wanted q ev) (rj_events (event_journal s))"
proof -
  have "length (filter (event_wanted q) (filter (\<lambda>ev. after_seq < event_seq ev) (rj_events (event_journal s)))) < n"
    using assms(3) by (meson le_less_trans length_filter_le)
  from poll_rest [OF assms(1, 2) this] show ?thesis by (simp add: conj_commute)
qed

text \<open>A filter can hide events for good. The service looks at 10000 events only, and when none of them passes the filter
  the answer sends the client back to where it started: it never sees a later event that its filter asks for.\<close>

theorem events_feed_stuck:
  assumes "\<not> unfiltered q" and "rj_events (event_journal s) = quiet @ rest" and "10000 \<le> length quiet"
    and "\<forall>ev \<in> set quiet. after_seq < event_seq ev \<and> \<not> event_wanted q ev"
  shows "poll_events n s q after_seq = []
    \<and> ea_next_after_seq (build_events_json s (q\<lparr>eq_after_seq := Some after_seq\<rparr>)) = after_seq"
proof -
  have "event_wanted (q\<lparr>eq_after_seq := Some after_seq\<rparr>) = event_wanted q"
    by (intro ext) (simp add: event_wanted_def)
  moreover have "events_after_seq after_seq 10000 (event_journal s) = take 10000 quiet"
  proof -
    have "filter (\<lambda>ev. after_seq < event_seq ev) quiet = quiet" using assms(4) by (simp add: filter_id_conv)
    with assms(2, 3) show ?thesis by (simp add: events_after_seq_def)
  qed
  moreover have "filter (event_wanted q) (take 10000 quiet) = []"
    using assms(4) by (auto simp: filter_empty_conv dest: in_set_takeD)
  ultimately have "ea_events (build_events_json s (q\<lparr>eq_after_seq := Some after_seq\<rparr>)) = []
    \<and> ea_next_after_seq (build_events_json s (q\<lparr>eq_after_seq := Some after_seq\<rparr>)) = after_seq"
    using assms(1) by (auto simp: build_events_json_def Let_def unwrap_or_def)
  then show ?thesis by (cases n) simp_all
qed

section \<open>A sample state\<close>

definition two_speakers :: routing_service_state where
  "two_speakers = service_start\<lparr>rib := rib_manager_new\<lparr>
     speakers := map (\<lambda>a. (a, (with_source (observation_source_new a 1) 0)\<lparr>peers :=
       [(peer_key_from_header a rib_header, new_for_speaker a rib_header)]\<rparr>)) [IpV4 1, IpV4 2],
     ribs := [(rib_key, \<lparr>tables = [(AdjRibInPrePolicy,
       [(table_route_key_from_prefix rib_prefix None, new_entry 100 rib_header default_attributes rib_prefix None)])]\<rparr>)]\<rparr>\<rparr>"

definition any_peer_query :: peers_query where
  "any_peer_query = \<lparr>pq_speaker = None, pq_vrf_rd = None, pq_state = None, pq_limit = None\<rparr>"

definition any_route_query :: routes_query where
  "any_route_query = \<lparr>rq_speaker = None, rq_peer = None, rq_view = None, rq_vrf_rd = None, rq_prefix = None,
     rq_family = Some ''IPv4'', rq_limit = Some 1, rq_cursor = None\<rparr>"

definition peer_query :: events_query where
  "peer_query = \<lparr>eq_after_seq = None, eq_speaker = None, eq_vrf_rd = Some (distinguisher_string rib_key), eq_limit = None\<rparr>"

theorem peers_limit_overrun_witness:
  "length (snd (snd (build_peers_json two_speakers (any_peer_query\<lparr>pq_limit := Some 1\<rparr>)))) = 2"
  using peers_limit_overrun [of any_peer_query two_speakers]
  by (simp add: any_peer_query_def two_speakers_def speaker_list_def hm_values_def)

lemma ipv4_supported: "support_status (family_of_name ''IPv4'') = Supported"
proof -
  have "trim ''IPv4'' = ''IPv4''" by (simp add: trim_same graphic_def)
  moreover have "to_lowercase ''IPv4'' = ''ipv4''" by code_simp
  ultimately show ?thesis
    by (simp add: family_of_name_def Let_def ipv4_unicast_def afi_safi_new_def support_status_def is_ip_afi_def
        afi_from_def safi_from_def del: to_lowercase.simps)
qed

theorem routes_family_ignored_witness:
  "build_routes_json two_speakers (any_route_query\<lparr>rq_family := Some ''IPv4''\<rparr>)
     = build_routes_json two_speakers (any_route_query\<lparr>rq_family := None\<rparr>)"
  using ipv4_supported by (rule routes_family_ignored)

lemma two_speakers_rows: "\<exists>row. all_matching two_speakers any_route_query = Ok [row]"
  by (simp add: all_matching_def two_speakers_def speaker_list_def hm_values_def rows_of_speaker_def passes_def any_route_query_def
      ribs_for_speaker_def rows_of_peer_def rows_of_view_def view_wanted_def all_views_def iter_rib_def hm_get_def
      new_entry_def rib_prefix_def with_source_def observation_source_new_def peer_key_from_header_def)


lemma two_speakers_lost:
  "\<exists>row. all_matching (record_transport_disconnect_for_epoch sample_json 5 (IpV4 1) (Some 1) ''bmp_tcp_eof'' two_speakers)
      any_route_query = Ok [row] \<and> rr_speaker_addr row = IpV4 1"
  by (simp add: all_matching_def two_speakers_def speaker_list_def hm_values_def rows_of_speaker_def passes_def any_route_query_def
      ribs_for_speaker_def rows_of_peer_def rows_of_view_def view_wanted_def all_views_def iter_rib_def hm_get_def
      new_entry_def rib_prefix_def with_source_def observation_source_new_def peer_key_from_header_def
      record_transport_disconnect_for_epoch_def clear_speaker_eor_def stale_disconnect_def speaker_epoch_def speaker_of_def
      route_row_of_def Let_def hm_modify_def)

theorem transport_gap_visible_witness:
  "\<exists>row. all_matching (record_transport_disconnect_for_epoch sample_json 5 (IpV4 1) (Some 1) ''bmp_tcp_eof'' two_speakers)
      any_route_query = Ok [row] \<and> rr_completeness row = ''gap''"
proof -
  from two_speakers_lost obtain row where row: "rr_speaker_addr row = IpV4 1" "all_matching
      (record_transport_disconnect_for_epoch sample_json 5 (IpV4 1) (Some 1) ''bmp_tcp_eof'' two_speakers) any_route_query = Ok [row]"
    by blast
  have "\<not> stale_disconnect (Some 1) (speaker_epoch (rib two_speakers) (IpV4 1))"
    by (simp add: stale_disconnect_def two_speakers_def speaker_epoch_def speaker_of_def with_source_def
        observation_source_new_def hm_get_def)
  from transport_gap_visible [OF this refl row(2)] row show ?thesis by auto
qed

text \<open>A journal of events without a peer, and one event of the peer asked for behind them.\<close>

definition numbered_event :: "rib_event_payload \<Rightarrow> nat \<Rightarrow> rib_event" where
  "numbered_event pl n = \<lparr>ev_schema_version = 2, ev_key = event_key_new (observation_source_new (IpV4 1) 1) (word_of_nat n),
     ev_id = 0, ev_occurred_at = 0, ev_speaker = IpV4 1, ev_payload = pl\<rparr>"

definition busy_service :: "nat \<Rightarrow> routing_service_state" where
  "busy_service n = service_start\<lparr>event_journal := \<lparr>rj_file = None,
     rj_events = map (numbered_event (SpeakerDownEvent ''bye'')) [1..<Suc n] @ [numbered_event (StatsEvent rib_header []) (Suc n)]\<rparr>\<rparr>"

lemma event_seq_numbered: "event_seq (numbered_event pl n) = word_of_nat n"
  by (simp add: numbered_event_def event_key_new_def)

lemma event_wanted_numbered:
  "event_wanted peer_query (numbered_event (StatsEvent rib_header []) n)"
  "\<not> event_wanted peer_query (numbered_event (SpeakerDownEvent why) n)"
  by (simp_all add: event_wanted_def peer_query_def passes_def numbered_event_def)

lemma numbered_positive: "0 < n \<Longrightarrow> n < 20000 \<Longrightarrow> (0 :: u64) < word_of_nat n"
  by (simp add: word_less_nat_alt unat_word_of_nat)

theorem events_feed_stuck_witness:
  "poll_events 5 (busy_service 10000) peer_query 0 = []
    \<and> (\<exists>ev \<in> set (rj_events (event_journal (busy_service 10000))). event_wanted peer_query ev)"
proof
  have "\<forall>ev \<in> set (map (numbered_event (SpeakerDownEvent ''bye'')) [1..<Suc 10000]). (0 :: u64) < event_seq ev \<and> \<not> event_wanted peer_query ev"
    using numbered_positive by (auto simp: event_seq_numbered event_wanted_numbered)
  with events_feed_stuck [of peer_query "busy_service 10000" "map (numbered_event (SpeakerDownEvent ''bye'')) [1..<Suc 10000]"
      "[numbered_event (StatsEvent rib_header []) (Suc 10000)]" 0 5]
  show "poll_events 5 (busy_service 10000) peer_query 0 = []"
    by (simp add: peer_query_def busy_service_def del: upt_Suc poll_events.simps)
  show "\<exists>ev \<in> set (rj_events (event_journal (busy_service 10000))). event_wanted peer_query ev"
    using event_wanted_numbered(1) by (simp add: busy_service_def del: upt_Suc)
qed

theorem events_feed_complete_witness:
  "poll_events 4 (busy_service 2) (peer_query\<lparr>eq_vrf_rd := None, eq_limit := Some 1\<rparr>) 1
     = [numbered_event (SpeakerDownEvent ''bye'') 2, numbered_event (StatsEvent rib_header []) 3]"
proof -
  let ?q = "peer_query\<lparr>eq_vrf_rd := None, eq_limit := Some 1\<rparr>"
  have j: "rj_events (event_journal (busy_service 2)) = [numbered_event (SpeakerDownEvent ''bye'') 1,
      numbered_event (SpeakerDownEvent ''bye'') 2, numbered_event (StatsEvent rib_header []) 3]"
    by (simp add: busy_service_def upt_conv_Cons numeral_2_eq_2 numeral_3_eq_3)
  have "ascending (rj_events (event_journal (busy_service 2)))"
    by (simp add: j ascending_def event_seq_numbered)
  moreover have "event_wanted ?q ev" for ev
    by (simp add: event_wanted_def peer_query_def passes_def)
  moreover have "unfiltered ?q" by (simp add: peer_query_def)
  ultimately show ?thesis
    using events_feed_complete [of "busy_service 2" ?q 4 1]
    by (simp add: j event_seq_numbered del: poll_events.simps)
qed

end
