(* ===== verification/Streaming_Bmp.thy ===== *)
theory Streaming_Bmp
  imports Bmp_Parser Filter_Expr
begin

unbundle bit_operations_syntax

text \<open>
  \<open>src/streaming/bmp.rs\<close>: the BMP receiver of the telemetry process. It has a decoder of its own, independent of the crate
  \<open>rbmp-core\<close>: frames are read from the connection, decoded to a flat event and published on the bus under the device
  the connection came from. Functions that \<open>rbmp-core\<close> has under the same name carry the suffix \<open>_s\<close> here. Errors are the
  texts of the \<open>anyhow\<close> errors. The archive, the bus and the clock are outside the model: the time is an argument.
\<close>

type_synonym 'a fallible = "(string, 'a) outcome"

section \<open>Events\<close>

record bmp_route_entry =
  ent_afi_safi :: string
  ent_prefix :: string
  ent_prefix_len :: u8
  ent_action :: string
  ent_next_hop :: string
  ent_as_path :: "u32 list"
  ent_communities :: "string list"
  ent_med :: "u32 option"
  ent_local_pref :: "u32 option"

record bmp_stat_entry =
  se_type :: u16
  se_name :: string
  se_value :: u64

record bmp_peer_up_info =
  pi_local_address :: string
  pi_local_port :: u16
  pi_remote_port :: u16
  pi_sent_hold_time :: u16
  pi_received_hold_time :: u16
  pi_sent_bgp_id :: string
  pi_received_bgp_id :: string
  pi_sent_capabilities :: "string list"
  pi_received_capabilities :: "string list"

record bmp_event =
  be_timestamp_ns :: int
  be_collector_peer :: string
  be_message_type :: string
  be_peer_type :: u8
  be_peer_flags :: u8
  be_router_distinguisher :: u64
  be_router_address :: string
  be_peer_address :: string
  be_peer_as :: u32
  be_peer_bgp_id :: string
  be_session_state :: string
  be_route_entries :: "bmp_route_entry list"
  be_raw_len :: nat
  be_peer_down_reason :: "u8 option"
  be_peer_down_reason_name :: "string option"
  be_stats :: "bmp_stat_entry list"
  be_sys_name :: "string option"
  be_sys_descr :: "string option"
  be_termination_reason :: "u16 option"
  be_termination_reason_name :: "string option"
  be_rib_type :: "string option"
  be_peer_up_info :: "bmp_peer_up_info option"
  be_init_admin_string :: "string option"
  be_termination_message :: "string option"

section \<open>Framing\<close>

text \<open>A read under a deadline, with the texts of its two failures.\<close>

definition timed_read_s :: "nat \<Rightarrow> string \<Rightarrow> string \<Rightarrow> byte_stream \<Rightarrow> (bytes \<times> byte_stream) fallible" where
  "timed_read_s n failed late s = (case read_exact n s of
     Read b s' \<Rightarrow> Ok (b, s') | ReadEof \<Rightarrow> Err failed | ReadError e \<Rightarrow> Err failed | ReadPending \<Rightarrow> Err late)"

text \<open>With the deadlines the receiver uses.\<close>

definition read_bmp_frame_s :: "byte_stream \<Rightarrow> nat \<Rightarrow> ((u8 \<times> bytes) option \<times> byte_stream) fallible" where
  "read_bmp_frame_s s max_frame_bytes = (case read_exact 1 s of
     ReadPending \<Rightarrow> Err ''BMP header read timed out after 120s''
   | ReadEof \<Rightarrow> Ok (None, s)
   | ReadError e \<Rightarrow> Err ''BMP read header failed''
   | Read first s \<Rightarrow>
       and_then (timed_read_s 5 ''BMP truncated header'' ''BMP header remainder timed out after 30s'' s) (\<lambda>(rest_hdr, s).
       let header = first @ rest_hdr in
       and_then (at header 0) (\<lambda>version.
       if version \<noteq> 3 then Err (''unsupported BMP version '' @ dec (unat version)) else
       and_then (be32_at header 1) (\<lambda>l.
       let len = unat l in
       if \<not> (6 \<le> len \<and> len \<le> max_frame_bytes)
       then Err (''BMP frame length '' @ dec len @ '' outside configured bounds 6..='' @ dec max_frame_bytes) else
       and_then (if len - 6 = 0 then Ok ([], s)
         else timed_read_s (len - 6) ''BMP payload read failed'' ''BMP payload read timed out after 30s'' s) (\<lambda>(body, s).
       and_then (at header 5) (\<lambda>t. Ok (Some (t, body), s)))))))"

section \<open>Initiation and Termination\<close>

text \<open>The loop over TLVs; the names in the errors differ between the two messages.\<close>

function tlv_loop_s :: "string \<Rightarrow> (u16 \<Rightarrow> bytes \<Rightarrow> 's \<Rightarrow> 's fallible) \<Rightarrow> 's \<Rightarrow> bytes \<Rightarrow> 's fallible" where
  "tlv_loop_s kind h st p =
     (if length p < 4 then (if p = [] then Ok st else Err (''truncated BMP '' @ kind @ '' TLV header''))
      else let l = unat (from_be_bytes (take 2 (drop 2 p)) :: u16); rest = drop 4 p in
        if length rest < l then Err (''truncated BMP '' @ kind @ '' TLV'')
        else and_then (h (from_be_bytes (take 2 p)) (take l rest) st) (\<lambda>st. tlv_loop_s kind h st (drop l rest)))"
  by pat_completeness auto
termination
  by (relation "measure (\<lambda>(kind, h, st, p). length p)") auto

declare tlv_loop_s.simps [simp del]

definition blank_event :: "int \<Rightarrow> string \<Rightarrow> nat \<Rightarrow> bmp_event" where
  "blank_event ts collector_peer payload_len = \<lparr>be_timestamp_ns = ts, be_collector_peer = collector_peer, be_message_type = [],
     be_peer_type = 0, be_peer_flags = 0, be_router_distinguisher = 0, be_router_address = [], be_peer_address = [],
     be_peer_as = 0, be_peer_bgp_id = [], be_session_state = [], be_route_entries = [], be_raw_len = payload_len + 6,
     be_peer_down_reason = None, be_peer_down_reason_name = None, be_stats = [], be_sys_name = None, be_sys_descr = None,
     be_termination_reason = None, be_termination_reason_name = None, be_rib_type = None, be_peer_up_info = None,
     be_init_admin_string = None, be_termination_message = None\<rparr>"

definition initiation_tlv_s :: "u16 \<Rightarrow> bytes \<Rightarrow> bmp_event \<Rightarrow> bmp_event fallible" where
  "initiation_tlv_s t v ev = Ok (
     if t = 0 then ev\<lparr>be_init_admin_string := Some (from_utf8_lossy v)\<rparr>
     else if t = 1 then ev\<lparr>be_sys_descr := Some (from_utf8_lossy v)\<rparr>
     else if t = 2 then ev\<lparr>be_sys_name := Some (from_utf8_lossy v)\<rparr> else ev)"

definition parse_initiation_s :: "bytes \<Rightarrow> string \<Rightarrow> int \<Rightarrow> bmp_event fallible" where
  "parse_initiation_s payload0 collector_peer ts =
     tlv_loop_s ''initiation'' initiation_tlv_s ((blank_event ts collector_peer (length payload0))
       \<lparr>be_message_type := ''initiation'', be_session_state := ''connected''\<rparr>) payload0"

definition termination_reason_name :: "u16 \<Rightarrow> string" where
  "termination_reason_name code =
     (if code = 0 then ''session_admin_closed'' else if code = 1 then ''unspecified''
      else if code = 2 then ''out_of_resources'' else if code = 3 then ''redundant_connection''
      else if code = 4 then ''perm_admin_closed'' else ''unknown'')"

definition termination_tlv_s :: "u16 \<Rightarrow> bytes \<Rightarrow> bmp_event \<Rightarrow> bmp_event fallible" where
  "termination_tlv_s t v ev =
     (if t = 0 then Ok (ev\<lparr>be_termination_message := Some (from_utf8_lossy v)\<rparr>)
      else if t = 1 then
        (if length v \<noteq> 2 then Err (''invalid BMP termination reason TLV length '' @ dec (length v))
         else let code = from_be_bytes v in
           Ok (ev\<lparr>be_termination_reason := Some code, be_termination_reason_name := Some (termination_reason_name code)\<rparr>))
      else Ok ev)"

definition parse_termination_s :: "bytes \<Rightarrow> string \<Rightarrow> int \<Rightarrow> bmp_event fallible" where
  "parse_termination_s payload0 collector_peer ts =
     tlv_loop_s ''termination'' termination_tlv_s ((blank_event ts collector_peer (length payload0))
       \<lparr>be_message_type := ''termination'', be_session_state := ''disconnected''\<rparr>) payload0"

section \<open>Statistics and Peer Down\<close>

definition stat_type_name :: "u16 \<Rightarrow> string" where
  "stat_type_name t = (case map_of (zip [0..<16] [''prefixes_rejected_by_policy'', ''duplicate_prefix_advertisements'',
     ''duplicate_withdrawals'', ''updates_invalid_cluster_list_loop'', ''updates_invalid_as_path_loop'',
     ''updates_invalid_originator_id'', ''updates_invalid_as_confed_loop'', ''adj_rib_in_routes'', ''loc_rib_routes'',
     ''adj_rib_in_routes_per_afi_safi'', ''loc_rib_routes_per_afi_safi'', ''updates_route_refresh'',
     ''routes_stale_graceful_restart'', ''routes_reclaimed_graceful_restart'', ''routes_not_installed_vpn'',
     ''routes_filtered_adj_rib_out'']) (unat t) of Some n \<Rightarrow> n | None \<Rightarrow> ''unknown'')"

definition stat_value :: "bytes \<Rightarrow> u64" where
  "stat_value v = (if length v = 4 \<or> length v = 8 then from_be_bytes v
     else if length v = 7 then from_be_bytes (drop 3 v) else 0)"

text \<open>The argument counts down the entries still announced.\<close>

fun stats_loop :: "nat \<Rightarrow> bytes \<Rightarrow> bmp_stat_entry list" where
  "stats_loop 0 p = []"
| "stats_loop (Suc n) p =
     (if length p < 4 then []
      else let t = from_be_bytes (take 2 p); l = unat (from_be_bytes (take 2 (drop 2 p)) :: u16); rest = drop 4 p in
        if length rest < l then []
        else \<lparr>se_type = t, se_name = stat_type_name t, se_value = stat_value (take l rest)\<rparr> # stats_loop n (drop l rest))"

definition parse_statistics_report :: "bytes \<Rightarrow> bmp_stat_entry list" where
  "parse_statistics_report body = (if length body < 4 then []
     else stats_loop (unat (from_be_bytes (take 4 body) :: u32)) (drop 4 body))"

definition parse_peer_down_reason :: "bytes \<Rightarrow> u8 \<times> string" where
  "parse_peer_down_reason body = (case body of
     [] \<Rightarrow> (0, ''unknown'')
   | why # _ \<Rightarrow> (why, if why = 0 then ''reserved'' else if why = 1 then ''local_bgp_notification''
       else if why = 2 then ''local_fsm_event'' else if why = 3 then ''remote_bgp_notification''
       else if why = 4 then ''remote_close_no_data'' else if why = 5 then ''peer_de_configured''
       else if why = 6 then ''vrf_peer_deleted'' else ''unknown''))"

section \<open>The per-peer header\<close>

record parsed_peer =
  pp_type :: u8
  pp_flags :: u8
  pp_router_distinguisher :: u64
  pp_router_address :: string
  pp_address :: string
  pp_as :: u32
  pp_bgp_id :: string

definition parse_common_peer_header :: "bytes \<Rightarrow> parsed_peer fallible" where
  "parse_common_peer_header input =
     and_then (at input 0) (\<lambda>t.
     and_then (at input 1) (\<lambda>flags.
     and_then (be64_at input 2) (\<lambda>rd.
     and_then (slice input 10 26) (\<lambda>raw_addr.
     let addr = (if t \<noteq> 3 \<and> flags AND 0x80 \<noteq> 0 then ipv6_string (from_be_bytes raw_addr)
                 else ipv4_string (from_be_bytes (drop 12 raw_addr))) in
     and_then (be32_at input 26) (\<lambda>asn.
     and_then (be32_at input 30) (\<lambda>router.
     Ok \<lparr>pp_type = t, pp_flags = flags, pp_router_distinguisher = rd, pp_router_address = ipv4_string router,
         pp_address = addr, pp_as = asn, pp_bgp_id = ipv4_string router\<rparr>))))))"

definition classify_rib_type :: "u8 \<Rightarrow> u8 \<Rightarrow> string" where
  "classify_rib_type t flags =
     (if t = 3 then if flags AND 0x80 \<noteq> 0 then ''loc-rib-filtered'' else ''loc-rib''
      else if flags AND 0x10 = 0
      then if flags AND 0x40 = 0 then ''adj-rib-in-pre-policy'' else ''adj-rib-in-post-policy''
      else if flags AND 0x40 = 0 then ''adj-rib-out-pre-policy'' else ''adj-rib-out-post-policy'')"

section \<open>Peer Up\<close>

definition capability_name_s :: "u8 \<Rightarrow> string" where
  "capability_name_s code =
     (if code = 1 then ''multiprotocol'' else if code = 2 then ''route-refresh''
      else if code = 5 then ''extended-next-hop'' else if code = 6 then ''extended-message''
      else if code = 64 then ''graceful-restart'' else if code = 65 then ''4-byte-as''
      else if code = 69 then ''add-path'' else if code = 70 then ''enhanced-route-refresh''
      else if code = 71 then ''long-lived-graceful-restart'' else if code = 73 then ''fqdn''
      else if code = 128 then ''route-refresh-cisco'' else ''cap-'' @ dec (unat code))"

text \<open>Both loops over pairs of a code and a length: an item that reaches beyond the end stops the loop.\<close>

function code_items :: "bytes \<Rightarrow> (u8 \<times> bytes) list" where
  "code_items p =
     (if length p < 2 then []
      else let l = unat (p ! 1); rest = drop 2 p in
        if length rest < l then [] else (p ! 0, take l rest) # code_items (drop l rest))"
  by pat_completeness auto
termination
  by (relation "measure length") auto

declare code_items.simps [simp del]

definition parse_bgp_capabilities :: "bytes \<Rightarrow> string list" where
  "parse_bgp_capabilities params =
     concat (map (\<lambda>(param_type, v). if param_type = 2 then map (\<lambda>(code, _). capability_name_s code) (code_items v) else [])
       (code_items params))"

record parsed_bgp_open =
  po_hold_time :: u16
  po_bgp_id :: string
  po_capabilities :: "string list"

text \<open>\<open>None\<close> is the \<open>None\<close> of the code.\<close>

definition parse_bgp_open_from_message :: "bytes \<Rightarrow> (parsed_bgp_open \<times> bytes) option fallible" where
  "parse_bgp_open_from_message data =
     (if length data < 19 then Ok None else
      and_then (be16_at data 16) (\<lambda>l. let msg_len = unat l in
      if length data < msg_len \<or> msg_len < 29 then Ok None else
      and_then (at data 18) (\<lambda>t.
      if t \<noteq> 1 then Ok None else
      and_then (slice data 19 msg_len) (\<lambda>bgp_open.
      if length bgp_open < 10 then Ok None else
      and_then (be16_at bgp_open 3) (\<lambda>hold.
      and_then (be32_at bgp_open 5) (\<lambda>router.
      and_then (at bgp_open 9) (\<lambda>n. let opt_params_len = unat n in
      and_then (if 10 + opt_params_len \<le> length bgp_open then slice bgp_open 10 (10 + opt_params_len) else Ok []) (\<lambda>params.
      and_then (slice_from data msg_len) (\<lambda>remaining.
      Ok (Some (\<lparr>po_hold_time = hold, po_bgp_id = ipv4_string router, po_capabilities = parse_bgp_capabilities params\<rparr>,
        remaining)))))))))))"

definition parse_peer_up_s :: "bytes \<Rightarrow> u8 \<Rightarrow> bmp_peer_up_info option fallible" where
  "parse_peer_up_s body flags =
     (if length body < 20 then Ok None else
      and_then (if flags AND 0x80 \<noteq> 0
        then and_then (slice body 0 16) (\<lambda>b. Ok (ipv6_string (from_be_bytes b)))
        else and_then (be32_at body 12) (\<lambda>a. Ok (ipv4_string a))) (\<lambda>local_addr.
      and_then (be16_at body 16) (\<lambda>lport. and_then (be16_at body 18) (\<lambda>rport.
      and_then (slice_from body 20) (\<lambda>rest.
      and_then (parse_bgp_open_from_message rest) (\<lambda>r. case r of
        None \<Rightarrow> Ok None
      | Some (sent, after_sent) \<Rightarrow>
          and_then (parse_bgp_open_from_message after_sent) (\<lambda>r. Ok (case r of
            None \<Rightarrow> None
          | Some (recv, _) \<Rightarrow> Some \<lparr>pi_local_address = local_addr, pi_local_port = lport, pi_remote_port = rport,
              pi_sent_hold_time = po_hold_time sent, pi_received_hold_time = po_hold_time recv,
              pi_sent_bgp_id = po_bgp_id sent, pi_received_bgp_id = po_bgp_id recv,
              pi_sent_capabilities = po_capabilities sent, pi_received_capabilities = po_capabilities recv\<rparr>))))))))"

section \<open>Prefixes\<close>

definition nlri_entry_s :: "string \<Rightarrow> string \<Rightarrow> bytes \<Rightarrow> (bmp_route_entry list \<times> bytes) fallible" where
  "nlri_entry_s name action0 bs =
     and_then (at bs 0) (\<lambda>prefix_len.
     let octets = (unat prefix_len + 7) div 8; bs = drop 1 bs in
     if length bs < octets then Err ''NLRI prefix length exceeds payload'' else
     and_then (if name = ''ipv6-unicast''
       then and_then (fill_array 16 (take octets bs)) (\<lambda>a. Ok (ipv6_string (from_be_bytes a)))
       else and_then (fill_array 4 (take (min octets 4) bs)) (\<lambda>a. Ok (ipv4_string (from_be_bytes a)))) (\<lambda>pfx.
     Ok ([\<lparr>ent_afi_safi = name, ent_prefix = pfx, ent_prefix_len = prefix_len, ent_action = action0, ent_next_hop = [],
       ent_as_path = [], ent_communities = [], ent_med = None, ent_local_pref = None\<rparr>], drop octets bs)))"

lemma nlri_entry_s_rest: "bs \<noteq> [] \<Longrightarrow> nlri_entry_s name act bs = Ok (xs, r) \<Longrightarrow> length r < length bs"
  by (auto simp: nlri_entry_s_def and_then_Ok_iff Let_def split: if_splits)

function parse_nlri_s :: "string \<Rightarrow> string \<Rightarrow> bytes \<Rightarrow> bmp_route_entry list fallible" where
  "parse_nlri_s name act [] = Ok []"
| "parse_nlri_s name act (b # bs) =
     and_then (nlri_entry_s name act (b # bs)) (\<lambda>(xs, bs).
     and_then (parse_nlri_s name act bs) (\<lambda>ys. Ok (xs @ ys)))"
  by pat_completeness auto
termination
  by (relation "measure (\<lambda>(name, act, bs). length bs)") (use nlri_entry_s_rest in fastforce)+

interpretation nlri_s: byte_loop "\<lambda>bs. bs \<noteq> []" "nlri_entry_s name act" "parse_nlri_s name act" for name act
proof (rule byte_loopI)
  fix b bs xs r
  show "length r < length (b # bs)" if "nlri_entry_s name act (b # bs) = Ok (xs, r)"
    using nlri_entry_s_rest [OF _ that] by simp
qed simp_all

section \<open>Path attributes\<close>

text \<open>\<open>slice::chunks_exact\<close>\<close>

function chunks_exact :: "nat \<Rightarrow> bytes \<Rightarrow> bytes list" where
  "chunks_exact n bs = (if n = 0 \<or> length bs < n then [] else take n bs # chunks_exact n (drop n bs))"
  by pat_completeness auto
termination
  by (relation "measure (\<lambda>(n, bs). length bs)") auto

declare chunks_exact.simps [simp del]

text \<open>The width of the AS numbers of a segment is guessed from the bytes that are left; a segment that is cut off ends
  the path.\<close>

function parse_as_path_s :: "bytes \<Rightarrow> u32 list" where
  "parse_as_path_s v =
     (if length v < 2 then []
      else let count = unat (v ! 1); rest = drop 2 v; width = (if count * 4 \<le> length rest then 4 else 2);
               asns0 = map from_be_bytes (take count (chunks_exact width rest)) in
        if length rest < count * width then asns0 else asns0 @ parse_as_path_s (drop (count * width) rest))"
  by pat_completeness auto
termination
  by (relation "measure length") auto

declare parse_as_path_s.simps [simp del]

definition be16 :: "bytes \<Rightarrow> nat \<Rightarrow> u16" where
  "be16 c i = from_be_bytes (take 2 (drop i c))"

definition be32 :: "bytes \<Rightarrow> nat \<Rightarrow> u32" where
  "be32 c i = from_be_bytes (take 4 (drop i c))"

definition parse_communities_s :: "bytes \<Rightarrow> string list" where
  "parse_communities_s v = map (\<lambda>c. dec (unat (be16 c 0)) @ '':'' @ dec (unat (be16 c 2))) (chunks_exact 4 v)"

definition extended_community_text :: "bytes \<Rightarrow> string" where
  "extended_community_text c =
     (let type_byte = c ! 0; high_type = type_byte AND 0x3F in
      if high_type = 0 \<or> high_type = 2 then ''ext:'' @ dec (unat (be16 c 2)) @ '':'' @ dec (unat (be32 c 4))
      else if high_type = 1 then ''ext:'' @ ipv4_string (be32 c 2) @ '':'' @ dec (unat (be16 c 6))
      else ''ext:0x'' @ hex2 type_byte @ '':'' @ concat (map hex2 (drop 1 c)))"

definition parse_extended_communities :: "bytes \<Rightarrow> string list" where
  "parse_extended_communities v = map extended_community_text (chunks_exact 8 v)"

definition parse_large_communities :: "bytes \<Rightarrow> string list" where
  "parse_large_communities v = map (\<lambda>c. ''large:'' @ dec (unat (be32 c 0)) @ '':'' @ dec (unat (be32 c 4)) @ '':''
     @ dec (unat (be32 c 8))) (chunks_exact 12 v)"

record path_state =
  st_next_hop :: string
  st_as_path :: "u32 list"
  st_communities :: "string list"
  st_med :: "u32 option"
  st_local_pref :: "u32 option"
  st_mp_reach :: "bmp_route_entry list"
  st_mp_unreach :: "bmp_route_entry list"

definition default_path_state :: path_state where
  "default_path_state = \<lparr>st_next_hop = [], st_as_path = [], st_communities = [], st_med = None, st_local_pref = None,
     st_mp_reach = [], st_mp_unreach = []\<rparr>"

definition parse_next_hop_s :: "u16 \<Rightarrow> bytes \<Rightarrow> string" where
  "parse_next_hop_s afi0 bs =
     (if afi0 = 1 \<and> length bs = 4 then ipv4_string (from_be_bytes bs)
      else if afi0 = 2 \<and> length bs = 16 then ipv6_string (from_be_bytes bs) else [])"

definition afi_safi_name :: "u16 \<Rightarrow> u8 \<Rightarrow> string" where
  "afi_safi_name a s = (if a = 1 \<and> s = 1 then ''ipv4-unicast'' else if a = 2 \<and> s = 1 then ''ipv6-unicast'' else ''unknown'')"

definition parse_mp_reach_s :: "bytes \<Rightarrow> path_state \<Rightarrow> path_state fallible" where
  "parse_mp_reach_s v st =
     (if length v < 5 then Err ''MP_REACH_NLRI too short'' else
      and_then (be16_at v 0) (\<lambda>a. and_then (at v 2) (\<lambda>s. and_then (at v 3) (\<lambda>n. let nh_len = unat n in
      if length v < 4 + nh_len + 1 then Err ''MP_REACH_NLRI next-hop length exceeds payload'' else
      and_then (slice v 4 (4 + nh_len)) (\<lambda>nh. let st = st\<lparr>st_next_hop := parse_next_hop_s a nh\<rparr> in
      and_then (slice_from v (5 + nh_len)) (\<lambda>nlri.
      and_then (parse_nlri_s (afi_safi_name a s) ''announce'' nlri) (\<lambda>entries.
      Ok (st\<lparr>st_mp_reach := map (\<lambda>e. e\<lparr>ent_next_hop := st_next_hop st\<rparr>) entries\<rparr>))))))))"

definition parse_mp_unreach_s :: "bytes \<Rightarrow> path_state \<Rightarrow> path_state fallible" where
  "parse_mp_unreach_s v st =
     (if length v < 3 then Err ''MP_UNREACH_NLRI too short'' else
      and_then (be16_at v 0) (\<lambda>a. and_then (at v 2) (\<lambda>s.
      and_then (slice_from v 3) (\<lambda>nlri.
      and_then (parse_nlri_s (afi_safi_name a s) ''withdraw'' nlri) (\<lambda>entries.
      Ok (st\<lparr>st_mp_unreach := entries\<rparr>))))))"

definition apply_attribute :: "u8 \<Rightarrow> bytes \<Rightarrow> path_state \<Rightarrow> path_state fallible" where
  "apply_attribute code v st =
     (if code = 2 then Ok (st\<lparr>st_as_path := parse_as_path_s v\<rparr>)
      else if code = 3 \<and> length v = 4 then Ok (st\<lparr>st_next_hop := ipv4_string (from_be_bytes v)\<rparr>)
      else if code = 4 \<and> length v = 4 then Ok (st\<lparr>st_med := Some (from_be_bytes v)\<rparr>)
      else if code = 5 \<and> length v = 4 then Ok (st\<lparr>st_local_pref := Some (from_be_bytes v)\<rparr>)
      else if code = 8 then Ok (st\<lparr>st_communities := parse_communities_s v\<rparr>)
      else if code = 16 then Ok (st\<lparr>st_communities := st_communities st @ parse_extended_communities v\<rparr>)
      else if code = 32 then Ok (st\<lparr>st_communities := st_communities st @ parse_large_communities v\<rparr>)
      else if code = 14 then parse_mp_reach_s v st
      else if code = 15 then parse_mp_unreach_s v st
      else Ok st)"

text \<open>Flags, code and length of an attribute, and what is behind them.\<close>

definition attribute_header :: "bytes \<Rightarrow> (u8 \<times> nat \<times> bytes) fallible" where
  "attribute_header a =
     (if length a < 3 then Err ''truncated BGP path attribute header'' else
      and_then (at a 0) (\<lambda>flags. and_then (at a 1) (\<lambda>code.
      if flags AND 0x10 \<noteq> 0 then
        if length a < 4 then Err ''truncated extended path attribute length''
        else and_then (be16_at a 2) (\<lambda>l. Ok (code, unat l, drop 4 a))
      else and_then (at a 2) (\<lambda>l. Ok (code, unat l, drop 3 a)))))"

lemma attribute_header_s_rest: "attribute_header a = Ok (code, l, rest) \<Longrightarrow> length rest < length a"
  by (auto simp: attribute_header_def and_then_Ok_iff split: if_splits)

function parse_path_attributes_s :: "path_state \<Rightarrow> bytes \<Rightarrow> path_state fallible" where
  "parse_path_attributes_s st [] = Ok st"
| "parse_path_attributes_s st (b # bs) =
     and_then (attribute_header (b # bs)) (\<lambda>(code, len, rest).
     if length rest < len then Err ''path attribute length exceeds payload'' else
     and_then (apply_attribute code (take len rest) st) (\<lambda>st. parse_path_attributes_s st (drop len rest)))"
  by pat_completeness auto
termination
  by (relation "measure (\<lambda>(st, a). length a)") (auto dest: attribute_header_s_rest)

section \<open>Route Monitoring\<close>

definition with_path :: "path_state \<Rightarrow> bmp_route_entry \<Rightarrow> bmp_route_entry" where
  "with_path st e = e\<lparr>ent_as_path := st_as_path st, ent_communities := st_communities st, ent_med := st_med st,
     ent_local_pref := st_local_pref st\<rparr>"

definition strip_withdrawn :: "bmp_route_entry \<Rightarrow> bmp_route_entry" where
  "strip_withdrawn e = (if ent_action e = ''withdraw''
     then e\<lparr>ent_as_path := [], ent_communities := [], ent_med := None, ent_local_pref := None\<rparr> else e)"

definition parse_bgp_update_s :: "bytes \<Rightarrow> bmp_route_entry list fallible" where
  "parse_bgp_update_s payload0 =
     (if length payload0 < 4 then Err ''BGP UPDATE payload too short'' else
      and_then (be16_at payload0 0) (\<lambda>w. let withdrawn_len = unat w in
      if length payload0 < 2 + withdrawn_len then Err ''withdrawn routes length exceeds BGP UPDATE payload'' else
      and_then (slice payload0 2 (2 + withdrawn_len)) (\<lambda>b.
      and_then (parse_nlri_s ''ipv4-unicast'' ''withdraw'' b) (\<lambda>withdrawn_routes. let cursor = 2 + withdrawn_len in
      if length payload0 < cursor + 2 then Err ''BGP UPDATE missing path attribute length'' else
      and_then (be16_at payload0 cursor) (\<lambda>l. let attrs_len = unat l; cursor = cursor + 2 in
      if length payload0 < cursor + attrs_len then Err ''BGP path attribute length exceeds UPDATE payload'' else
      and_then (slice payload0 cursor (cursor + attrs_len)) (\<lambda>attrs. let cursor = cursor + attrs_len in
      and_then (parse_path_attributes_s default_path_state attrs) (\<lambda>st.
      and_then (slice_from payload0 cursor) (\<lambda>b.
      and_then (parse_nlri_s ''ipv4-unicast'' ''announce'' b) (\<lambda>announced_v4.
      Ok (map strip_withdrawn (withdrawn_routes
            @ map (\<lambda>e. with_path st (e\<lparr>ent_next_hop := st_next_hop st\<rparr>)) announced_v4
            @ map (\<lambda>e. with_path st (e\<lparr>ent_action := ''announce''\<rparr>)) (st_mp_reach st))
          @ st_mp_unreach st))))))))))"

definition parse_route_monitoring_s :: "bytes \<Rightarrow> bmp_route_entry list fallible" where
  "parse_route_monitoring_s payload0 =
     (if length payload0 < 19 then Err ''route monitoring payload shorter than BGP header''
      else if take 16 payload0 \<noteq> replicate 16 0xFF then Err ''invalid BGP marker in route monitoring payload'' else
      and_then (be16_at payload0 16) (\<lambda>l. let len = unat l in
      if \<not> (23 \<le> len \<and> len \<le> 4096) \<or> len \<noteq> length payload0
      then Err (''declared BGP length '' @ dec len @ '' does not match route monitoring payload length '' @ dec (length payload0))
      else and_then (at payload0 18) (\<lambda>t.
      if t \<noteq> 2 then Err (''unexpected BGP message type '' @ dec (unat t) @ '' in route monitoring'') else
      and_then (slice payload0 19 len) parse_bgp_update_s)))"

section \<open>Messages\<close>

definition parse_bmp_message_s :: "u8 \<Rightarrow> bytes \<Rightarrow> string \<Rightarrow> int \<Rightarrow> bmp_event fallible" where
  "parse_bmp_message_s t payload0 collector_peer ts =
     (if t = 4 then parse_initiation_s payload0 collector_peer ts
      else if t = 5 then parse_termination_s payload0 collector_peer ts
      else if length payload0 < 42 then Err ''BMP payload shorter than common peer header'' else
      and_then (slice payload0 0 42) (\<lambda>h.
      and_then (parse_common_peer_header h) (\<lambda>peer.
      and_then (slice_from payload0 42) (\<lambda>body.
      let ev = (blank_event ts collector_peer (length payload0))\<lparr>be_peer_type := pp_type peer, be_peer_flags := pp_flags peer,
            be_router_distinguisher := pp_router_distinguisher peer, be_router_address := pp_router_address peer,
            be_peer_address := pp_address peer, be_peer_as := pp_as peer, be_peer_bgp_id := pp_bgp_id peer,
            be_rib_type := Some (classify_rib_type (pp_type peer) (pp_flags peer))\<rparr> in
      if t = 0 then and_then (parse_route_monitoring_s body) (\<lambda>entries.
        Ok (ev\<lparr>be_message_type := ''route_monitoring'', be_session_state := ''established'', be_route_entries := entries\<rparr>))
      else if t = 1 then
        Ok (ev\<lparr>be_message_type := ''statistics_report'', be_session_state := ''established'', be_stats := parse_statistics_report body\<rparr>)
      else if t = 2 then let (why, why_name) = parse_peer_down_reason body in
        Ok (ev\<lparr>be_message_type := ''peer_down'', be_session_state := ''down'', be_peer_down_reason := Some why,
               be_peer_down_reason_name := Some why_name\<rparr>)
      else if t = 3 then and_then (parse_peer_up_s body (pp_flags peer)) (\<lambda>info.
        Ok (ev\<lparr>be_message_type := ''peer_up'', be_session_state := ''established'', be_peer_up_info := info\<rparr>))
      else Err (''unsupported BMP message type '' @ dec (unat t))))))"

section \<open>Publishing\<close>

text \<open>\<open>registry::strip_port\<close>\<close>

definition find_char :: "char \<Rightarrow> string \<Rightarrow> nat option" where
  "find_char c s = (if c \<in> set s then Some (length (takeWhile (\<lambda>x. x \<noteq> c) s)) else None)"

definition strip_port :: "string \<Rightarrow> string" where
  "strip_port address =
     (let s = trim address;
          bracketed = (case s of CHR ''['' # inner \<Rightarrow> map_option (\<lambda>n. take n inner) (find_char CHR '']'' inner) | _ \<Rightarrow> None) in
      case bracketed of
        Some host \<Rightarrow> host
      | None \<Rightarrow> (case find_char CHR '':'' (rev s) of
            Some n \<Rightarrow> let host = take (length s - n - 1) s in if CHR '':'' \<notin> set host then host else s
          | None \<Rightarrow> s))"

record target_config =
  tc_address :: string
  tc_extra_ips :: "string list"
  tc_hostname :: "string option"
  tc_vendor :: "string option"
  tc_role :: "string option"
  tc_site :: "string option"

record target_entry =
  te_address :: string
  te_extra_ips :: "string list"
  te_hostname :: string
  te_vendor :: string
  te_role :: string
  te_site :: string

record resolved_target =
  rt_address :: string
  rt_hostname :: string
  rt_vendor :: string
  rt_role :: string
  rt_site :: string

definition bmp_target_map_new :: "target_config list \<Rightarrow> target_entry list" where
  "bmp_target_map_new targets = map (\<lambda>t. \<lparr>te_address = strip_port (tc_address t), te_extra_ips = map strip_port (tc_extra_ips t),
     te_hostname = unwrap_or [] (tc_hostname t), te_vendor = unwrap_or [] (tc_vendor t), te_role = unwrap_or [] (tc_role t),
     te_site = unwrap_or [] (tc_site t)\<rparr>) targets"

definition resolve :: "target_entry list \<Rightarrow> bmp_event \<Rightarrow> resolved_target" where
  "resolve entries ev = (let ip = strip_port (be_collector_peer ev) in
     case find (\<lambda>e. te_address e = ip \<or> ip \<in> set (te_extra_ips e)) entries of
       Some e \<Rightarrow> \<lparr>rt_address = te_address e, rt_hostname = (if te_hostname e = [] then te_address e else te_hostname e),
         rt_vendor = te_vendor e, rt_role = te_role e, rt_site = te_site e\<rparr>
     | None \<Rightarrow> \<lparr>rt_address = ip, rt_hostname = ip, rt_vendor = [], rt_role = [], rt_site = []\<rparr>)"

definition event_path :: "bmp_event \<Rightarrow> string" where
  "event_path ev = (let t = be_message_type ev in
     if t = ''route_monitoring'' then ''streaming/bmp/route-monitoring''
     else if t = ''peer_up'' then ''streaming/bmp/peer-up''
     else if t = ''peer_down'' then ''streaming/bmp/peer-down''
     else if t = ''statistics_report'' then ''streaming/bmp/statistics''
     else if t = ''initiation'' then ''streaming/bmp/initiation''
     else if t = ''termination'' then ''streaming/bmp/termination''
     else ''streaming/bmp/unknown'')"

text \<open>The update put on the bus, if any: its target, its path and the event that is its value. The flag is what
  \<open>should_shed\<close> of the resource governor says.\<close>

definition publish_event :: "target_entry list \<Rightarrow> bool \<Rightarrow> bmp_event \<Rightarrow> (resolved_target \<times> string \<times> bmp_event) option" where
  "publish_event entries should_shed ev =
     (if be_message_type ev = ''statistics_report'' \<and> should_shed then None
      else Some (resolve entries ev, event_path ev, ev))"

text \<open>One round of the loop of a connection: the events published, and the stream when the loop goes on. A frame that
  cannot be decoded is skipped, a failure of the transport ends the loop, and a panic ends the task.\<close>

definition receiver_step ::
  "target_entry list \<Rightarrow> bool \<Rightarrow> nat \<Rightarrow> string \<Rightarrow> int \<Rightarrow> byte_stream
    \<Rightarrow> ((resolved_target \<times> string \<times> bmp_event) list \<times> byte_stream option) fallible" where
  "receiver_step entries should_shed max_frame peer ts s = (case read_bmp_frame_s s max_frame of
     Ok (Some (t, body), s) \<Rightarrow> (case parse_bmp_message_s t body peer ts of
         Ok ev \<Rightarrow> Ok (case publish_event entries should_shed ev of None \<Rightarrow> [] | Some u \<Rightarrow> [u], Some s)
       | Err _ \<Rightarrow> Ok ([], Some s)
       | Panic \<Rightarrow> Panic)
   | Ok (None, s) \<Rightarrow> Ok ([], None)
   | Err _ \<Rightarrow> Ok ([], None)
   | Panic \<Rightarrow> Panic)"

end
