(* ===== verification/Streaming_Laws.thy ===== *)
theory Streaming_Laws
  imports Streaming_Bmp
begin

unbundle bit_operations_syntax

text \<open>
  The decoder of the receiver against that of \<open>rbmp-core\<close>: the two readers cut a stream into the same frames, the two header
  parsers read the same peer, and the receiver accepts every prefix list that \<open>rbmp-core\<close> accepts. Where they differ the
  receiver is at fault: it panics on IPv6 prefixes longer than 128 bits, which \<open>rbmp-core\<close> rejects, and lets the next
  hop of one address family overwrite that of another.
\<close>

section \<open>A loop simulated by another\<close>

context parse_loop
begin

lemma loop_related:
  assumes step': "\<And>s xs r. more s \<Longrightarrow> step s = Ok (xs, r) \<Longrightarrow> \<exists>ys. step' s = Ok (ys, r) \<and> list_all2 R xs ys"
    and loop': "parse_loop size_of more step' loop'" and "loop s = Ok xs"
  shows "\<exists>ys. loop' s = Ok ys \<and> list_all2 R xs ys"
  using assms(3)
proof (induction s arbitrary: xs rule: loop_induct)
  case (step s)
  show ?case
  proof (cases "more s")
    case True
    with step.prems obtain as r bs where *: "step s = Ok (as, r)" "loop r = Ok bs" "xs = as @ bs"
      by (rule loop_OkE)
    from step' [OF True *(1)] obtain cs where cs: "step' s = Ok (cs, r)" "list_all2 R as cs" by blast
    from step.IH [OF True *(1, 2)] obtain ds where ds: "loop' r = Ok ds" "list_all2 R bs ds" by blast
    show ?thesis
      using parse_loop.loop_step [OF loop' True cs(1)] cs(2) ds *(3) by (auto intro: list_all2_appendI)
  qed (use step.prems parse_loop.loop_stop [OF loop'] in \<open>simp add: loop_stop\<close>)
qed

end

section \<open>Framing\<close>

lemma timed_read_s_eq:
  "timed_read_s n failed late s = (if n \<le> length (pending s)
     then Ok (take n (pending s), s\<lparr>pending := drop n (pending s)\<rparr>)
     else Err (if behind s = Silent then late else failed))"
  by (simp add: timed_read_s_def read_exact_def split: stream_end.split)

lemma known_type: "(\<exists>mt. bmp_msg_type_try_from t = Ok mt) \<longleftrightarrow> t \<le> 6"
  unfolding msg_type_known by (simp add: word_le_nat_alt)

lemma read_bmp_frame_s_eq:
  fixes s defines "p \<equiv> pending s"
  assumes "p \<noteq> []"
  shows "read_bmp_frame_s s n = (let l = be_nat (take 4 (drop 1 p)) in
    if length p < 6 then Err (if behind s = Silent then ''BMP header remainder timed out after 30s'' else ''BMP truncated header'')
    else if p ! 0 \<noteq> 3 then Err (''unsupported BMP version '' @ dec (unat (p ! 0)))
    else if \<not> (6 \<le> l \<and> l \<le> n) then Err (''BMP frame length '' @ dec l @ '' outside configured bounds 6..='' @ dec n)
    else if length p < l then Err (if behind s = Silent then ''BMP payload read timed out after 30s'' else ''BMP payload read failed'')
    else Ok (Some (p ! 5, take (l - 6) (drop 6 p)), s\<lparr>pending := drop l p\<rparr>))"
proof -
  have first: "read_exact 1 s = Read (take 1 p) (s\<lparr>pending := drop 1 p\<rparr>)"
    using assms by (cases "pending s") (auto simp: read_exact_def)
  have six: "take 1 p @ take 5 (drop 1 p) = take 6 p"
    using take_add [of 1 5 p] by simp
  have four: "take 4 (drop 1 (take 6 p)) = take 4 (drop 1 p)"
    by (simp add: drop_take)
  show ?thesis
  proof (cases "length p < 6")
    case True
    then have "\<not> 5 \<le> length p - Suc 0" by simp
    with True first show ?thesis by (simp add: read_bmp_frame_s_def timed_read_s_eq Let_def)
  next
    case False
    then have "be32_at (take 6 p) 1 = (Ok (from_be_bytes (take 4 (drop 1 p))) :: u32 fallible)"
      by (simp add: reads drop_take)
    with False six first show ?thesis
      by (auto simp: read_bmp_frame_s_def timed_read_s_eq Let_def reads unat_from_be_bytes)
  qed
qed

lemma read_bmp_frame_s_iff:
  "read_bmp_frame_s s n = Ok (Some (t, body), s') \<longleftrightarrow>
     (\<exists>f. pending s = f @ pending s' \<and> behind s' = behind s \<and> 6 \<le> length f \<and> f ! 0 = 3
        \<and> be_nat (take 4 (drop 1 f)) = length f \<and> length f \<le> n \<and> t = f ! 5 \<and> body = drop 6 f)"
    (is "?L \<longleftrightarrow> ?R")
proof (cases "pending s = []")
  case True
  then show ?thesis by (auto simp: read_bmp_frame_s_def read_exact_def split: stream_end.splits)
next
  case False
  let ?p = "pending s" and ?l = "be_nat (take 4 (drop 1 (pending s)))"
  have "?L \<longleftrightarrow> 6 \<le> length ?p \<and> ?p ! 0 = 3 \<and> 6 \<le> ?l \<and> ?l \<le> n \<and> ?l \<le> length ?p \<and> t = ?p ! 5
      \<and> body = take (?l - 6) (drop 6 ?p) \<and> s' = s\<lparr>pending := drop ?l ?p\<rparr>"
    unfolding read_bmp_frame_s_eq [OF False] Let_def by auto
  also have "\<dots> \<longleftrightarrow> ?R"
  proof
    assume *: "6 \<le> length ?p \<and> ?p ! 0 = 3 \<and> 6 \<le> ?l \<and> ?l \<le> n \<and> ?l \<le> length ?p \<and> t = ?p ! 5
      \<and> body = take (?l - 6) (drop 6 ?p) \<and> s' = s\<lparr>pending := drop ?l ?p\<rparr>"
    then have "4 \<le> ?l - 1" by linarith
    then have "take 4 (drop 1 (take ?l ?p)) = take 4 (drop 1 ?p)" by (simp add: drop_take min_absorb1)
    with * show ?R by (intro exI [of _ "take ?l ?p"]) (auto simp: drop_take)
  next
    assume ?R
    then obtain f where f: "?p = f @ pending s'" "behind s' = behind s" "6 \<le> length f" "f ! 0 = 3"
      "be_nat (take 4 (drop 1 f)) = length f" "length f \<le> n" "t = f ! 5" "body = drop 6 f" by blast
    then have "?l = length f" by simp
    with f show "6 \<le> length ?p \<and> ?p ! 0 = 3 \<and> 6 \<le> ?l \<and> ?l \<le> n \<and> ?l \<le> length ?p \<and> t = ?p ! 5
      \<and> body = take (?l - 6) (drop 6 ?p) \<and> s' = s\<lparr>pending := drop ?l ?p\<rparr>"
      by (auto simp: nth_append)
  qed
  finally show ?thesis .
qed

text \<open>C18: The two readers cut a stream alike. On any stream and for any limit, the receiver's reader delivers a frame of a known
  type if and only if the one of \<open>rbmp-core\<close> does; it is the same frame, split into its type and its body, and the same
  part of the stream is left.\<close>

theorem readers_agree:
  "(read_bmp_frame_s s (unat m) = Ok (Some (t, body), s') \<and> t \<le> 6) \<longleftrightarrow>
    (\<exists>f. read_bmp_frame s m = Some (Ok (Some f, s')) \<and> t = f ! 5 \<and> body = drop 6 f)"
    (is "?L \<longleftrightarrow> ?R")
proof
  assume L: ?L
  then have t: "t \<le> 6" and r: "read_bmp_frame_s s (unat m) = Ok (Some (t, body), s')" by (rule conjunct2, rule conjunct1)
  from r obtain f where f: "pending s = f @ pending s'" "behind s' = behind s" "6 \<le> length f" "f ! 0 = 3"
    "be_nat (take 4 (drop 1 f)) = length f" "length f \<le> unat m" "t = f ! 5" "body = drop 6 f"
    unfolding read_bmp_frame_s_iff by blast
  from t obtain mt where mt: "bmp_msg_type_try_from (f ! 5) = (Ok mt :: bmp_msg_type result)"
    using known_type [of t] unfolding f(7) by blast
  have "validate_bmp_header f m = Ok (length f, mt)"
    unfolding validate_bmp_header_Ok_iff using f(3-6) mt by simp
  then have "read_bmp_frame s m = Some (Ok (Some f, s'))" unfolding read_bmp_frame_Some_iff using f(1, 2) by blast
  with f(7, 8) show ?R by blast
next
  assume ?R
  then obtain f where f: "read_bmp_frame s m = Some (Ok (Some f, s'))" "t = f ! 5" "body = drop 6 f" by blast
  from f(1) obtain mt where v: "pending s = f @ pending s'" "behind s' = behind s" "validate_bmp_header f m = Ok (length f, mt)"
    unfolding read_bmp_frame_Some_iff by blast
  from v(3) have w: "6 \<le> length f" "f ! 0 = 3" "length f = be_nat (take 4 (drop 1 f))" "length f \<le> unat m"
    "bmp_msg_type_try_from (f ! 5) = Ok mt" unfolding validate_bmp_header_Ok_iff by blast+
  have "t \<le> 6" using w(5) known_type [of t] f(2) by blast
  moreover have "read_bmp_frame_s s (unat m) = Ok (Some (t, body), s')"
    unfolding read_bmp_frame_s_iff using v(1, 2) w(1, 2) w(3) [symmetric] w(4) f(2, 3) by blast
  ultimately show ?L by blast
qed

section \<open>The per-peer header\<close>

text \<open>The label of a RIB.\<close>

fun rib_label :: "rib_type \<Rightarrow> string" where
  "rib_label AdjRibInPrePolicy = ''adj-rib-in-pre-policy''"
| "rib_label AdjRibInPostPolicy = ''adj-rib-in-post-policy''"
| "rib_label AdjRibOutPrePolicy = ''adj-rib-out-pre-policy''"
| "rib_label AdjRibOutPostPolicy = ''adj-rib-out-post-policy''"
| "rib_label LocRib = ''loc-rib''"
| "rib_label LocRibFiltered = ''loc-rib-filtered''"

text \<open>The two decoders read the same peer. Whenever \<open>rbmp-core\<close> accepts a per-peer header, the receiver reads the same type,
  flags, distinguisher, AS number and router identifier from it, the printed form of the same address, and the label of
  the same RIB.\<close>

theorem peer_headers_agree:
  assumes "parse_peer_header X buf = Ok (hdr, rest)"
  shows "\<exists>p. parse_common_peer_header (take 42 buf) = Ok p
    \<and> peer_type_try_from (pp_type p) = Ok (peer_type hdr) \<and> pp_flags p = peer_flags hdr
    \<and> pp_router_distinguisher p = from_be_bytes (peer_distinguisher hdr)
    \<and> pp_address p = ip_string (peer_address hdr) \<and> pp_as p = peer_as hdr
    \<and> pp_bgp_id p = ipv4_string (peer_bgp_id hdr)
    \<and> classify_rib_type (pp_type p) (pp_flags p) = rib_label (hdr_rib_type hdr)"
proof -
  let ?h = "take 42 buf"
  from assms have len: "42 \<le> length buf" by (auto simp: parse_peer_header_def split: if_splits)
  then have read: "at ?h 0 = Ok (buf ! 0)" "at ?h 1 = Ok (buf ! 1)" "be64_at ?h 2 = Ok (from_be_bytes (take 8 (drop 2 buf)))"
    "slice ?h 10 26 = Ok (take 16 (drop 10 buf))" "be32_at ?h 26 = Ok (from_be_bytes (take 4 (drop 26 buf)))"
    "be32_at ?h 30 = Ok (from_be_bytes (take 4 (drop 30 buf)))"
    by (simp_all add: reads drop_take)
  have "drop 12 (take 16 (drop 10 buf)) = take 4 (drop 22 buf)" by (simp add: drop_take)
  then have p: "parse_common_peer_header ?h = Ok \<lparr>pp_type = buf ! 0, pp_flags = buf ! 1,
      pp_router_distinguisher = from_be_bytes (take 8 (drop 2 buf)), pp_router_address = ipv4_string (from_be_bytes (take 4 (drop 30 buf))),
      pp_address = (if buf ! 0 \<noteq> 3 \<and> buf ! 1 AND 0x80 \<noteq> 0 then ipv6_string (from_be_bytes (take 16 (drop 10 buf)))
        else ipv4_string (from_be_bytes (take 4 (drop 22 buf)))),
      pp_as = from_be_bytes (take 4 (drop 26 buf)), pp_bgp_id = ipv4_string (from_be_bytes (take 4 (drop 30 buf)))\<rparr>"
    unfolding parse_common_peer_header_def read and_then.simps Let_def by simp
  from assms len obtain pt where pt: "peer_type_try_from (buf ! 0) = Ok pt"
    by (auto simp: parse_peer_header_def and_then_Ok_iff reads at_def split: if_splits)
  then have three: "pt = LocRibInstance \<longleftrightarrow> buf ! 0 = 3" by (auto simp: peer_type_try_from_def split: if_splits)
  from assms len pt have hdr: "peer_type hdr = pt" "peer_flags hdr = buf ! 1" "peer_distinguisher hdr = take 8 (drop 2 buf)"
    "peer_address hdr = (if pt \<noteq> LocRibInstance \<and> flag_ipv6 (buf ! 1) then IpV6 (from_be_bytes (take 16 (drop 10 buf)))
      else IpV4 (from_be_bytes (take 4 (drop 22 buf))))"
    "peer_as hdr = from_be_bytes (take 4 (drop 26 buf))" "peer_bgp_id hdr = from_be_bytes (take 4 (drop 30 buf))"
    "hdr_rib_type hdr = rib_type_from_peer pt (buf ! 1)"
    by (auto simp: parse_peer_header_def and_then_Ok_iff reads at_def split: if_splits)
  show ?thesis
    unfolding p hdr using pt three
    by (auto simp: flag_ipv6_def classify_rib_type_def rib_type_from_peer_def flag_filtered_def
        flag_adj_rib_out_def flag_post_policy_def)
qed

section \<open>Prefixes\<close>

text \<open>An entry that shows a network, up to host bits.\<close>

fun entry_shows :: "prefix \<Rightarrow> bmp_route_entry \<Rightarrow> bool" where
  "entry_shows (PrefixV4 n) e \<longleftrightarrow> ent_prefix_len e = v4_prefix_len n
     \<and> (\<exists>a. ent_prefix e = ipv4_string a \<and> clear_host_bits (32 - unat (v4_prefix_len n)) a = v4_addr n)"
| "entry_shows (PrefixV6 n) e \<longleftrightarrow> ent_prefix_len e = v6_prefix_len n
     \<and> (\<exists>a. ent_prefix e = ipv6_string a \<and> clear_host_bits (128 - unat (v6_prefix_len n)) a = v6_addr n)"
| "entry_shows _ e \<longleftrightarrow> False"

definition unicast_name :: "afi \<Rightarrow> string" where
  "unicast_name a = (if a = AfiIpv6 then ''ipv6-unicast'' else ''ipv4-unicast'')"

lemma entries_agree:
  assumes "ipnet X" "nlri_entry X a buf = Ok (ps, r)"
  shows "\<exists>es. nlri_entry_s (unicast_name a) act buf = Ok (es, r) \<and> list_all2 entry_shows ps es"
proof -
  from assms(2) obtain l rest p where g: "get_u8 buf = (Ok (l, rest) :: (u8 \<times> bytes) result)" "\<not> length rest < div_ceil8 (unat l)" "\<not> max_bits a < l"
    and n: "read_net X a l (div_ceil8 (unat l)) rest = Ok (p, r)" "ps = [p]"
    by (auto simp: nlri_entry_def and_then_Ok_iff Let_def split: if_splits)
  from g(1) have buf: "at buf 0 = (Ok l :: u8 fallible)" "drop 1 buf = rest" by (auto simp: get_u8_def at_def split: if_splits)
  have octets: "div_ceil8 (unat l) \<le> (if a = AfiIpv6 then 16 else 4)"
    using g(3) by (intro div_ceil8_max_bits) simp
  have c: "copy_to_bytes (div_ceil8 (unat l)) rest
      = (Ok (take (div_ceil8 (unat l)) rest, drop (div_ceil8 (unat l)) rest) :: (bytes \<times> bytes) result)"
    using g(2) by (simp add: reads)
  let ?n = "div_ceil8 (unat l)"
  let ?pad = "\<lambda>k. take ?n rest @ replicate (k - length (take ?n rest)) 0"
  show ?thesis
  proof (cases "a = AfiIpv6")
    case True
    have net: "p = PrefixV6 (Ipv6Net (clear_host_bits (128 - unat l) (from_be_bytes (?pad 16))) l)" "r = drop ?n rest"
      using n(1) True c g(3) octets
      by (auto simp: read_net_def fill_array_def ipnet.v6_new [OF assms(1)] ipnet.v6_trunc [OF assms(1)] split: if_splits)
    moreover have "\<exists>e. nlri_entry_s ''ipv6-unicast'' act buf = Ok ([e], drop ?n rest) \<and> ent_prefix_len e = l
        \<and> ent_prefix e = ipv6_string (from_be_bytes (?pad 16))"
      unfolding nlri_entry_s_def buf and_then.simps div_ceil8_def [symmetric] Let_def
      using g(2) octets True by (simp add: fill_array_def)
    ultimately show ?thesis using n(2) True by (auto simp: unicast_name_def)
  next
    case False
    have net: "p = PrefixV4 (Ipv4Net (clear_host_bits (32 - unat l) (from_be_bytes (?pad 4))) l)" "r = drop ?n rest"
      using n(1) False c g(3) octets
      by (auto simp: read_net_def fill_array_def ipnet.v4_new [OF assms(1)] ipnet.v4_trunc [OF assms(1)] split: if_splits)
    moreover have "\<exists>e. nlri_entry_s ''ipv4-unicast'' act buf = Ok ([e], drop ?n rest) \<and> ent_prefix_len e = l
        \<and> ent_prefix e = ipv4_string (from_be_bytes (?pad 4))"
      unfolding nlri_entry_s_def buf and_then.simps div_ceil8_def [symmetric] Let_def
      using g(2) octets False by (simp add: fill_array_def min_absorb1)
    ultimately show ?thesis using n(2) False by (auto simp: unicast_name_def)
  qed
qed

text \<open>The receiver accepts every list of unicast prefixes that \<open>rbmp-core\<close> accepts, with one entry per prefix: the same
  length, and the same address but for the host bits, which \<open>rbmp-core\<close> clears and the receiver shows.\<close>

theorem streaming_nlri_agrees:
  assumes "ipnet X" and "decode_nlri X buf a = Ok ps"
  shows "\<exists>es. parse_nlri_s (unicast_name a) act buf = Ok es \<and> list_all2 entry_shows ps es"
  using nlri_loop.loop_related [OF _ nlri_s.parse_loop_axioms assms(2)] entries_agree [OF assms(1)] by blast

end
