(* ===== verification/Collector_Protocol.thy ===== *)
theory Collector_Protocol
  imports Bmp_Parser
begin

text \<open>
  \<open>crates/rbmp-core/src/collector_protocol.rs\<close>: the framing between a collector and the core. A frame is
  a 32-bit length and the MessagePack encoding of an envelope, which carries one BMP message as it
  was received. The crate \<open>rmp_serde\<close> is a parameter, the record \<open>msgpack\<close>; what the code relies on is
  \<open>msgpack_ok\<close>: decoding an encoded envelope gives the envelope back, and neither direction panics.
  The asynchronous reader is the stream value of \<open>Bmp_Parser\<close>.
\<close>

record collector_envelope =
  env_collector_id :: string
  site :: string
  env_speaker_addr :: ip_addr
  env_received_at :: timestamp
  raw_bmp :: bytes

text \<open>The two calls of \<open>rmp_serde\<close>, with their errors as the text \<open>{e}\<close> prints.\<close>

record msgpack =
  to_vec :: "collector_envelope \<Rightarrow> (string, bytes) outcome"
  from_slice :: "bytes \<Rightarrow> (string, collector_envelope) outcome"

definition msgpack_ok :: "msgpack \<Rightarrow> bool" where
  "msgpack_ok R \<longleftrightarrow> (\<forall>env p. to_vec R env = Ok p \<longrightarrow> p \<noteq> [] \<and> from_slice R p = Ok env)
     \<and> (\<forall>env. to_vec R env \<noteq> Panic) \<and> (\<forall>p. from_slice R p \<noteq> Panic)"

definition MAX_FRAME_BYTES :: u32 where
  "MAX_FRAME_BYTES = 8 * 1024 * 1024"

fun map_err :: "('e \<Rightarrow> 'f) \<Rightarrow> ('e, 'a) outcome \<Rightarrow> ('f, 'a) outcome" where
  "map_err f (Ok x) = Ok x"
| "map_err f (Err e) = Err (f e)"
| "map_err f Panic = Panic"

section \<open>Codec\<close>

definition encode_frame :: "msgpack \<Rightarrow> collector_envelope \<Rightarrow> bytes result" where
  "encode_frame R env =
     and_then (map_err (\<lambda>e. BmpParse (''msgpack encode: '' @ e)) (to_vec R env)) (\<lambda>payload.
     if length payload > unat MAX_FRAME_BYTES
     then Err (FrameTooLarge (word_of_nat (length payload)) MAX_FRAME_BYTES)
     else Ok (to_be_bytes 4 (word_of_nat (length payload) :: u32) @ payload))"

definition decode_body :: "msgpack \<Rightarrow> bytes \<Rightarrow> collector_envelope result" where
  "decode_body R body = map_err (\<lambda>e. BmpParse (''msgpack decode: '' @ e)) (from_slice R body)"

section \<open>Frames on a stream\<close>

text \<open>As for BMP frames, the first byte is awaited without a deadline; \<open>None\<close> is a call that does not
  return.\<close>

definition read_frame_with_timeout ::
    "msgpack \<Rightarrow> byte_stream \<Rightarrow> (collector_envelope option \<times> byte_stream) result option" where
  "read_frame_with_timeout R s = (case read_exact 1 s of
     ReadPending \<Rightarrow> None
   | ReadEof \<Rightarrow> Some (Ok (None, s))
   | ReadError e \<Rightarrow> Some (Err (Io OtherIo e))
   | Read first s \<Rightarrow> Some (
       and_then (timed_read 3 (UnexpectedEof 4 1) ''collector frame header timed out'' s) (\<lambda>(rest_len, s).
       let len = from_be_bytes (first @ rest_len) :: u32 in
       if len = 0 then Err (BmpParse ''collector frame declared length 0 is invalid'')
       else if len > MAX_FRAME_BYTES then Err (FrameTooLarge len MAX_FRAME_BYTES)
       else
       and_then (timed_read (unat len) (UnexpectedEof (4 + unat len) 4) ''collector frame body timed out'' s)
         (\<lambda>(body, s).
       and_then (decode_body R body) (\<lambda>env.
       and_then (validate_bmp_header (raw_bmp env) MAX_FRAME_BYTES) (\<lambda>_.
       Ok (Some env, s))))))) "

text \<open>\<open>write_frame\<close> on a writer that takes every byte: what the stream holds afterwards.\<close>

definition write_frame :: "msgpack \<Rightarrow> collector_envelope \<Rightarrow> bytes \<Rightarrow> bytes result" where
  "write_frame R env written = and_then (encode_frame R env) (\<lambda>buf. Ok (written @ buf))"

section \<open>What the reader returns\<close>

lemma unat_MAX_FRAME_BYTES [simp]: "unat MAX_FRAME_BYTES = 8388608"
  by (simp add: MAX_FRAME_BYTES_def)

lemma frame_len_bytes:
  "n \<le> 8388608 \<Longrightarrow> be_nat (to_be_bytes 4 (word_of_nat n :: u32)) = n"
  by (simp add: to_be_bytes_def be_nat_nat_to_be unat_word_of_nat)

lemma encode_frame_Ok_iff:
  "encode_frame R env = Ok f \<longleftrightarrow> (\<exists>p. to_vec R env = Ok p \<and> length p \<le> 8388608
     \<and> f = to_be_bytes 4 (word_of_nat (length p) :: u32) @ p)"
  by (cases "to_vec R env") (auto simp: encode_frame_def)

text \<open>The reader, in terms of what is pending.\<close>

lemma read_frame_eq:
  assumes "pending s \<noteq> []"
  shows "read_frame_with_timeout R s = Some (let p = pending s; n = be_nat (take 4 p) in
    if length p < 4 then Err (stream_error (UnexpectedEof 4 1) ''collector frame header timed out'' s)
    else if n = 0 then Err (BmpParse ''collector frame declared length 0 is invalid'')
    else if 8388608 < n then Err (FrameTooLarge (word_of_nat n) MAX_FRAME_BYTES)
    else if length p < 4 + n
    then Err (stream_error (UnexpectedEof (4 + n) 4) ''collector frame body timed out'' s)
    else and_then (decode_body R (take n (drop 4 p))) (\<lambda>env.
         and_then (validate_bmp_header (raw_bmp env) MAX_FRAME_BYTES) (\<lambda>_.
         Ok (Some env, s\<lparr>pending := drop (4 + n) p\<rparr>))))"
proof -
  let ?p = "pending s"
  have first: "read_exact 1 s = Read (take 1 ?p) (s\<lparr>pending := drop 1 ?p\<rparr>)"
    using assms by (cases ?p) (auto simp: read_exact_def)
  show ?thesis
  proof (cases "length ?p < 4")
    case True
    with first show ?thesis
      by (auto simp: read_frame_with_timeout_def timed_read_eq stream_error_def Let_def)
  next
    case False
    let ?n = "be_nat (take 4 ?p)"
    have four: "take 1 ?p @ take 3 (drop 1 ?p) = take 4 ?p"
      using take_add [of 1 3 ?p] by simp
    have n: "?n < 2 ^ 32"
      using be_nat_bound [of "take 4 ?p"] False by simp
    have len: "unat (from_be_bytes (take 4 ?p) :: u32) = ?n"
      using False by (simp add: unat_from_be_bytes)
    then have len0: "(from_be_bytes (take 4 ?p) :: u32) = 0 \<longleftrightarrow> ?n = 0"
      by (metis unat_0 unat_eq_zero)
    have lenm: "MAX_FRAME_BYTES < from_be_bytes (take 4 ?p) \<longleftrightarrow> 8388608 < ?n"
      using len by (simp add: word_less_nat_alt)
    have wrd: "word_of_nat ?n = (from_be_bytes (take 4 ?p) :: u32)"
      by (simp add: from_be_bytes_def)
    have header: "timed_read 3 (UnexpectedEof 4 1) l (s\<lparr>pending := drop 1 ?p\<rparr>)
        = Ok (take 3 (drop 1 ?p), s\<lparr>pending := drop 4 ?p\<rparr>)" for l
      using False by (simp add: timed_read_eq)
    have body: "?n \<le> length ?p - 4 \<longleftrightarrow> \<not> length ?p < 4 + ?n"
      using False by linarith
    show ?thesis
      unfolding read_frame_with_timeout_def first read_outcome.case header and_then.simps
        case_prod_conv four Let_def len0 lenm len wrd
      using False by (simp add: timed_read_eq stream_error_def body add.commute)
  qed
qed

lemma read_frame_Silent_iff: "read_frame_with_timeout R s = None \<longleftrightarrow> pending s = [] \<and> behind s = Silent"
  by (cases "pending s") (auto simp: read_frame_with_timeout_def read_exact_def split: stream_end.splits)

lemma read_frame_End_iff:
  "read_frame_with_timeout R s = Some (Ok (None, s')) \<longleftrightarrow> pending s = [] \<and> behind s = Closed \<and> s' = s"
proof (cases "pending s = []")
  case True
  then show ?thesis
    by (auto simp: read_frame_with_timeout_def read_exact_def split: stream_end.splits)
next
  case False
  then show ?thesis
    by (auto simp: read_frame_eq Let_def and_then_Ok_iff split: if_splits)
qed

text \<open>A frame is taken from the stream exactly when its length, body and BMP header are in order.\<close>

lemma read_frame_Some_iff:
  "read_frame_with_timeout R s = Some (Ok (Some env, s')) \<longleftrightarrow>
    (let n = be_nat (take 4 (pending s)) in
     4 + n \<le> length (pending s) \<and> 0 < n \<and> n \<le> 8388608
     \<and> from_slice R (take n (drop 4 (pending s))) = Ok env
     \<and> (\<exists>h. validate_bmp_header (raw_bmp env) MAX_FRAME_BYTES = Ok h)
     \<and> s' = s\<lparr>pending := drop (4 + n) (pending s)\<rparr>)"
proof (cases "pending s = []")
  case True
  then show ?thesis
    by (auto simp: read_frame_with_timeout_def read_exact_def split: stream_end.splits)
next
  case False
  have dec: "decode_body R b = Ok env \<longleftrightarrow> from_slice R b = Ok env" for b
    by (cases "from_slice R b") (auto simp: decode_body_def)
  show ?thesis
    unfolding read_frame_eq [OF False] Let_def
    by (auto simp: and_then_Ok_iff dec)
qed

lemma read_frame_no_panic:
  assumes "msgpack_ok R"
  shows "read_frame_with_timeout R s \<noteq> Some Panic"
proof (cases "pending s = []")
  case True
  then show ?thesis
    by (auto simp: read_frame_with_timeout_def read_exact_def split: stream_end.splits)
next
  case False
  have "decode_body R b \<noteq> Panic" for b
    using assms by (cases "from_slice R b") (auto simp: decode_body_def msgpack_ok_def)
  then show ?thesis
    unfolding read_frame_eq [OF False] Let_def
    by (auto simp: and_then_Panic_iff validate_bmp_header_no_panic)
qed

section \<open>A connection\<close>

text \<open>The core reads envelopes until the stream ends.\<close>

inductive collects :: "msgpack \<Rightarrow> byte_stream \<Rightarrow> collector_envelope list \<Rightarrow> bool" for R where
  collects_end: "read_frame_with_timeout R s = Some (Ok (None, s')) \<Longrightarrow> collects R s []"
| collects_next: "read_frame_with_timeout R s = Some (Ok (Some env, s')) \<Longrightarrow> collects R s' envs
    \<Longrightarrow> collects R s (env # envs)"

text \<open>The collector writes them one after the other.\<close>

fun write_frames :: "msgpack \<Rightarrow> collector_envelope list \<Rightarrow> bytes \<Rightarrow> bytes result" where
  "write_frames R [] written = Ok written"
| "write_frames R (env # envs) written = and_then (write_frame R env written) (write_frames R envs)"

definition bmp_header_ok :: "bytes \<Rightarrow> bool" where
  "bmp_header_ok b \<longleftrightarrow> (\<exists>h. validate_bmp_header b MAX_FRAME_BYTES = Ok h)"

lemma write_frames_append:
  "write_frames R envs written = and_then (write_frames R envs []) (\<lambda>bs. Ok (written @ bs))"
proof (induction envs arbitrary: written)
  case (Cons env envs)
  show ?case
  proof (cases "encode_frame R env")
    case (Ok f)
    have "write_frames R envs (written @ f) = and_then (write_frames R envs []) (\<lambda>bs. Ok (written @ f @ bs))"
      using Cons [of "written @ f"] by (cases "write_frames R envs []") simp_all
    with Ok show ?thesis
      using Cons [of f] by (cases "write_frames R envs []") (simp_all add: write_frame_def)
  qed (simp_all add: write_frame_def)
qed simp

lemma collects_written:
  assumes "msgpack_ok R" "write_frames R envs [] = Ok bs" "list_all (\<lambda>e. bmp_header_ok (raw_bmp e)) envs"
  shows "collects R \<lparr>pending = bs, behind = Closed\<rparr> envs"
  using assms(2, 3)
proof (induction envs arbitrary: bs)
  case Nil
  then show ?case by (auto intro!: collects_end simp: read_frame_End_iff)
next
  case (Cons env envs)
  from Cons.prems(1) obtain f where f: "encode_frame R env = Ok f" and more: "write_frames R envs f = Ok bs"
    by (auto simp: write_frame_def and_then_Ok_iff)
  from more obtain rest where rest: "write_frames R envs [] = Ok rest" and bs: "bs = f @ rest"
    by (subst (asm) write_frames_append) (auto simp: and_then_Ok_iff)
  from f obtain p where p: "to_vec R env = Ok p" "length p \<le> 8388608"
    and f: "f = to_be_bytes 4 (word_of_nat (length p) :: u32) @ p"
    by (auto simp: encode_frame_Ok_iff)
  from assms(1) p(1) have "p \<noteq> []" "from_slice R p = Ok env"
    by (auto simp: msgpack_ok_def)
  with p Cons.prems(2) have "read_frame_with_timeout R \<lparr>pending = bs, behind = Closed\<rparr>
      = Some (Ok (Some env, \<lparr>pending = rest, behind = Closed\<rparr>))"
    by (simp add: read_frame_Some_iff bs f frame_len_bytes bmp_header_ok_def Let_def)
  then show ?case
    using Cons.IH [OF rest] Cons.prems(2) by (auto intro: collects_next)
qed

text \<open>What a collector writes, the core reads: envelopes whose BMP header is in order come out of the
  stream unchanged and in order, then the stream ends. Cut inside its last frame the same stream gives
  the error for a truncated frame and no envelope; no frame makes the reader panic or wait for a body
  of more than eight mebibytes.\<close>

theorem collector_stream_roundtrip:
  assumes "msgpack_ok R"
    and "write_frames R envs [] = Ok bs"
    and "list_all (\<lambda>e. bmp_header_ok (raw_bmp e)) envs"
    and "encode_frame R env = Ok f" and "0 < k" and "k < length f"
  shows "collects R \<lparr>pending = bs, behind = Closed\<rparr> envs
    \<and> read_frame_with_timeout R \<lparr>pending = take k f, behind = Closed\<rparr>
        = Some (Err (if k < 4 then UnexpectedEof 4 1 else UnexpectedEof (length f) 4))
    \<and> read_frame_with_timeout R s \<noteq> Some Panic"
proof (intro conjI)
  show "collects R \<lparr>pending = bs, behind = Closed\<rparr> envs"
    by (rule collects_written [OF assms(1-3)])
  show "read_frame_with_timeout R s \<noteq> Some Panic"
    by (rule read_frame_no_panic [OF assms(1)])
  from assms(4) obtain p where p: "to_vec R env = Ok p" "length p \<le> 8388608"
    and f: "f = to_be_bytes 4 (word_of_nat (length p) :: u32) @ p"
    by (auto simp: encode_frame_Ok_iff)
  from assms(1) p(1) have "p \<noteq> []"
    by (auto simp: msgpack_ok_def)
  moreover have "4 \<le> k \<Longrightarrow> take 4 (take k f) = to_be_bytes 4 (word_of_nat (length p) :: u32)"
    by (simp add: f min_def)
  moreover have "pending \<lparr>pending = take k f, behind = Closed\<rparr> \<noteq> []"
    using assms(5, 6) by auto
  ultimately show "read_frame_with_timeout R \<lparr>pending = take k f, behind = Closed\<rparr>
        = Some (Err (if k < 4 then UnexpectedEof 4 1 else UnexpectedEof (length f) 4))"
    using assms(5, 6) p(2) by (auto simp: read_frame_eq Let_def stream_error_def frame_len_bytes f)
qed

definition sample_envelope :: collector_envelope where
  "sample_envelope = \<lparr>env_collector_id = ''test-collector'', site = ''lab01'', env_speaker_addr = IpV4 0x0A000001,
     env_received_at = 0, raw_bmp = [3, 0, 0, 0, 6, 0]\<rparr>"

text \<open>A codec that knows one envelope.\<close>

definition sample_msgpack :: msgpack where
  "sample_msgpack = \<lparr>
     to_vec = (\<lambda>env. if env = sample_envelope then Ok [0xC0] else Err ''unsupported''),
     from_slice = (\<lambda>b. if b = [0xC0] then Ok sample_envelope else Err ''unsupported'')\<rparr>"

lemma sample_msgpack_ok: "msgpack_ok sample_msgpack"
  by (auto simp: msgpack_ok_def sample_msgpack_def)

lemma frame_len_one: "to_be_bytes 4 (1 :: u32) = [0, 0, 0, 1]"
proof -
  have four: "(4::nat) = Suc (Suc (Suc (Suc 0)))" by simp
  show ?thesis
    unfolding to_be_bytes_def four by simp
qed

lemma sample_frame: "encode_frame sample_msgpack sample_envelope = Ok [0, 0, 0, 1, 0xC0]"
  by (simp add: encode_frame_def sample_msgpack_def frame_len_one)

lemma sample_raw_ok: "bmp_header_ok (raw_bmp sample_envelope)"
  unfolding bmp_header_ok_def sample_envelope_def
  by (simp add: validate_bmp_header_def reads from_be_bytes_def be_nat_def bmp_msg_type_try_from_def MAX_FRAME_BYTES_def)

theorem collector_stream_roundtrip_witness:
  "collects sample_msgpack \<lparr>pending = [0, 0, 0, 1, 0xC0, 0, 0, 0, 1, 0xC0], behind = Closed\<rparr> [sample_envelope, sample_envelope]
   \<and> read_frame_with_timeout sample_msgpack \<lparr>pending = [0, 0, 0, 1], behind = Closed\<rparr> = Some (Err (UnexpectedEof 5 4))"
proof -
  let ?f = "[0, 0, 0, 1, 0xC0] :: bytes"
  have "write_frames sample_msgpack [sample_envelope, sample_envelope] [] = Ok (?f @ ?f)"
    by (simp add: write_frame_def sample_frame)
  moreover have "list_all (\<lambda>e. bmp_header_ok (raw_bmp e)) [sample_envelope, sample_envelope]"
    by (simp add: sample_raw_ok)
  moreover have "(0::nat) < 4" "4 < length ?f" by simp_all
  ultimately have "collects sample_msgpack \<lparr>pending = ?f @ ?f, behind = Closed\<rparr> [sample_envelope, sample_envelope]
    \<and> read_frame_with_timeout sample_msgpack \<lparr>pending = take 4 ?f, behind = Closed\<rparr>
        = Some (Err (if (4::nat) < 4 then UnexpectedEof 4 1 else UnexpectedEof (length ?f) 4))"
    using collector_stream_roundtrip [OF sample_msgpack_ok _ _ sample_frame] by blast
  moreover have "take 4 ?f = [0, 0, 0, 1]" "length ?f = 5" by simp_all
  ultimately show ?thesis by (simp only: append.simps if_False less_irrefl)
qed

end
