(* ===== verification/Mvpn.thy ===== *)
theory Mvpn
  imports Nlri
begin

text \<open>
  \<open>crates/rbmp-core/src/bgp/mvpn.rs\<close>: multicast VPN routes (RFC 6514). The decoder of the list stops
  at the first route it rejects and keeps what it has read. Two of the seven route types carry
  address lengths of their own; the source length of an S-PMSI route is trusted, which is where
  the decoder can index past the end of the route. The theorems say exactly when that happens,
  and that routes in the layout the decoder expects are read back.
\<close>

section \<open>Routes\<close>

datatype mvpn_nlri =
    IntraAsIPmsi (mvpn_rd: bytes) (mvpn_origin_asn: u32)
  | InterAsIPmsi (mvpn_rd: bytes) (mvpn_source_as: u32)
  | MvpnSPmsi (mvpn_rd: bytes) (mvpn_source: ip_addr) (mvpn_group: ip_addr) (mvpn_origin_asn: u32)
  | MvpnLeafAd (mvpn_rd: bytes) (mvpn_source: ip_addr) (mvpn_group: ip_addr) (mvpn_router: ip_addr)
  | SourceActive (mvpn_rd: bytes) (mvpn_source: ip_addr) (mvpn_group: ip_addr)
  | SharedTreeJoin (mvpn_rd: bytes) (mvpn_source_as: u32) (rp_addr: ip_addr) (mvpn_group: ip_addr)
  | SourceTreeJoin (mvpn_rd: bytes) (mvpn_source_as: u32) (mvpn_source: ip_addr) (mvpn_group: ip_addr)
  | UnknownMvpn (mvpn_unknown_type: u8) (mvpn_data: bytes)

fun mvpn_route_type :: "mvpn_nlri \<Rightarrow> u8" where
  "mvpn_route_type (IntraAsIPmsi _ _) = 1"
| "mvpn_route_type (InterAsIPmsi _ _) = 2"
| "mvpn_route_type (MvpnSPmsi _ _ _ _) = 3"
| "mvpn_route_type (MvpnLeafAd _ _ _ _) = 4"
| "mvpn_route_type (SourceActive _ _ _) = 5"
| "mvpn_route_type (SharedTreeJoin _ _ _ _) = 6"
| "mvpn_route_type (SourceTreeJoin _ _ _ _) = 7"
| "mvpn_route_type (UnknownMvpn t _) = t"

fun mvpn_type_name :: "mvpn_nlri \<Rightarrow> string" where
  "mvpn_type_name (IntraAsIPmsi _ _) = ''Intra-AS I-PMSI A-D''"
| "mvpn_type_name (InterAsIPmsi _ _) = ''Inter-AS I-PMSI A-D''"
| "mvpn_type_name (MvpnSPmsi _ _ _ _) = ''S-PMSI A-D''"
| "mvpn_type_name (MvpnLeafAd _ _ _ _) = ''Leaf A-D''"
| "mvpn_type_name (SourceActive _ _ _) = ''Source Active A-D''"
| "mvpn_type_name (SharedTreeJoin _ _ _ _) = ''Shared Tree Join''"
| "mvpn_type_name (SourceTreeJoin _ _ _ _) = ''Source Tree Join''"
| "mvpn_type_name (UnknownMvpn _ _) = ''Unknown''"

section \<open>Fields\<close>

definition read_rd :: "bytes \<Rightarrow> nat \<Rightarrow> bytes result" where
  "read_rd buf pos =
     (if length buf < pos + 8 then Err (BgpParse ''MVPN: truncated RD'') else slice buf pos (pos + 8))"

definition read_asn :: "bytes \<Rightarrow> nat \<Rightarrow> u32 result" where
  "read_asn buf pos =
     (if length buf < pos + 4 then Err (BgpParse ''MVPN: truncated ASN'') else be32_at buf pos)"

definition read_ipv4 :: "bytes \<Rightarrow> nat \<Rightarrow> ip_addr result" where
  "read_ipv4 buf pos =
     (if length buf < pos + 4 then Err (BgpParse ''MVPN: truncated IPv4'')
      else and_then (be32_at buf pos) (\<lambda>a. Ok (IpV4 a)))"

definition read_ipv6 :: "bytes \<Rightarrow> nat \<Rightarrow> ip_addr result" where
  "read_ipv6 buf pos =
     (if length buf < pos + 16 then Err (BgpParse ''MVPN: truncated IPv6'')
      else and_then (slice buf pos (pos + 16)) (\<lambda>b. Ok (IpV6 (from_be_bytes b))))"

definition read_ip :: "bytes \<Rightarrow> nat \<Rightarrow> bool \<Rightarrow> ip_addr result" where
  "read_ip buf pos is_v6 = (if is_v6 then read_ipv6 buf pos else read_ipv4 buf pos)"

lemma mvpn_field_defs_Ok [reads]:
  "pos + 8 \<le> length buf \<Longrightarrow> read_rd buf pos = Ok (take 8 (drop pos buf))"
  "pos + 4 \<le> length buf \<Longrightarrow> read_asn buf pos = Ok (from_be_bytes (take 4 (drop pos buf)))"
  "pos + 4 \<le> length buf \<Longrightarrow> read_ipv4 buf pos = Ok (IpV4 (from_be_bytes (take 4 (drop pos buf))))"
  "pos + 16 \<le> length buf \<Longrightarrow> read_ipv6 buf pos = Ok (IpV6 (from_be_bytes (take 16 (drop pos buf))))"
  by (simp_all add: read_rd_def read_asn_def read_ipv4_def read_ipv6_def reads)

lemma mvpn_field_no_panic [panics]:
  "read_rd buf pos \<noteq> Panic" "read_asn buf pos \<noteq> Panic" "read_ipv4 buf pos \<noteq> Panic"
  "read_ipv6 buf pos \<noteq> Panic" "read_ip buf pos v6 \<noteq> Panic"
  by (auto simp: read_rd_def read_asn_def read_ipv4_def read_ipv6_def read_ip_def reads and_then_Panic_iff)

lemma read_ip_Ok_iff:
  "(\<exists>a. read_ip buf pos v6 = Ok a) \<longleftrightarrow> pos + (if v6 then 16 else 4) \<le> length buf"
  by (auto simp: read_ip_def read_ipv4_def read_ipv6_def reads)

section \<open>Route types\<close>

definition parse_intra_as_ipmsi :: "bytes \<Rightarrow> mvpn_nlri result" where
  "parse_intra_as_ipmsi v =
     (if length v < 12 then Err (BgpParse ''MVPN type-1: too short'') else
      and_then (read_rd v 0) (\<lambda>rd.
      and_then (if length v - 8 = 16 then read_ipv6 v 8 else read_ipv4 v 8) (\<lambda>router_ip.
      Ok (IntraAsIPmsi rd (case router_ip of IpV4 a \<Rightarrow> a | IpV6 _ \<Rightarrow> 0)))))"

definition parse_inter_as_ipmsi :: "bytes \<Rightarrow> mvpn_nlri result" where
  "parse_inter_as_ipmsi v =
     (if length v < 12 then Err (BgpParse ''MVPN type-2: too short'') else
      and_then (read_rd v 0) (\<lambda>rd. and_then (read_asn v 8) (\<lambda>source_as.
      Ok (InterAsIPmsi rd source_as))))"

text \<open>The originating router is read and dropped: it has no effect on the result.\<close>

definition parse_spmsi :: "bytes \<Rightarrow> mvpn_nlri result" where
  "parse_spmsi v =
     (if length v < 10 then Err (BgpParse ''MVPN type-3: too short'') else
      and_then (read_rd v 0) (\<lambda>rd.
      and_then (at v 8) (\<lambda>b. let src_len = unat b div 8; pos = 9 in
      and_then (read_ip v pos (src_len = 16)) (\<lambda>src. let pos = pos + src_len in
      and_then (at v pos) (\<lambda>b. let grp_len = unat b div 8; pos = pos + 1 in
      and_then (read_ip v pos (grp_len = 16)) (\<lambda>grp. let pos = pos + grp_len in
      and_then (if pos + 4 \<le> length v then result_ok (read_ipv4 v pos) else Ok None) (\<lambda>router.
      Ok (MvpnSPmsi rd src grp 0))))))))"

definition parse_leaf_ad :: "bytes \<Rightarrow> mvpn_nlri result" where
  "parse_leaf_ad v =
     (if length v < 8 then Err (BgpParse ''MVPN type-4: too short'') else
      and_then (read_rd v 0) (\<lambda>rd.
      and_then (if length v \<ge> 24 then read_ipv4 v 8 else Ok (IpV4 ipv4_unspecified)) (\<lambda>src.
      and_then (if length v \<ge> 28 then read_ipv4 v 12 else Ok (IpV4 ipv4_unspecified)) (\<lambda>grp.
      and_then (if length v \<ge> 32 then read_ipv4 v 28 else Ok (IpV4 ipv4_unspecified)) (\<lambda>router.
      Ok (MvpnLeafAd rd src grp router))))))"

definition parse_source_active :: "bytes \<Rightarrow> mvpn_nlri result" where
  "parse_source_active v =
     (if length v < 10 then Err (BgpParse ''MVPN type-5: too short'') else
      and_then (read_rd v 0) (\<lambda>rd.
      and_then (at v 8) (\<lambda>b. let src_len = unat b div 8; pos = 9 in
      and_then (read_ip v pos (src_len = 16)) (\<lambda>src. let pos = pos + src_len in
      and_then (if pos < length v then and_then (at v pos) (\<lambda>b. Ok (unat b div 8)) else Ok 4) (\<lambda>grp_len.
      and_then (read_ip v (pos + 1) (grp_len = 16)) (\<lambda>grp.
      Ok (SourceActive rd src grp)))))))"

definition parse_shared_tree_join :: "bytes \<Rightarrow> mvpn_nlri result" where
  "parse_shared_tree_join v =
     (if length v < 17 then Err (BgpParse ''MVPN type-6: too short'') else
      and_then (read_rd v 0) (\<lambda>rd. and_then (read_asn v 8) (\<lambda>source_as.
      and_then (read_ipv4 v 12) (\<lambda>rp. and_then (read_ipv4 v 16) (\<lambda>grp.
      Ok (SharedTreeJoin rd source_as rp grp))))))"

definition parse_source_tree_join :: "bytes \<Rightarrow> mvpn_nlri result" where
  "parse_source_tree_join v =
     (if length v < 20 then Err (BgpParse ''MVPN type-7: too short'') else
      and_then (read_rd v 0) (\<lambda>rd. and_then (read_asn v 8) (\<lambda>source_as.
      and_then (read_ipv4 v 12) (\<lambda>src. and_then (read_ipv4 v 16) (\<lambda>grp.
      Ok (SourceTreeJoin rd source_as src grp))))))"

lemmas mvpn_parsers = parse_intra_as_ipmsi_def parse_inter_as_ipmsi_def parse_leaf_ad_def
  parse_source_active_def parse_shared_tree_join_def parse_source_tree_join_def

definition parse_mvpn_nlri :: "bytes \<Rightarrow> (mvpn_nlri \<times> nat) result" where
  "parse_mvpn_nlri buf =
     (if length buf < 2 then Err (BgpParse ''MVPN NLRI too short'') else
      and_then (at buf 0) (\<lambda>nlri_type. and_then (at buf 1) (\<lambda>b.
      let nlri_len = unat b in
      if length buf < 2 + nlri_len
      then Err (BgpParse (''MVPN NLRI type='' @ dec (unat nlri_type) @ '' claims '' @ dec nlri_len
             @ '' bytes but only '' @ dec (length buf - 2) @ '' remain''))
      else
      and_then (slice buf 2 (2 + nlri_len)) (\<lambda>v.
      and_then (if nlri_type = 1 then parse_intra_as_ipmsi v
                else if nlri_type = 2 then parse_inter_as_ipmsi v
                else if nlri_type = 3 then parse_spmsi v
                else if nlri_type = 4 then parse_leaf_ad v
                else if nlri_type = 5 then parse_source_active v
                else if nlri_type = 6 then parse_shared_tree_join v
                else if nlri_type = 7 then parse_source_tree_join v
                else Ok (UnknownMvpn nlri_type v)) (\<lambda>nlri.
      Ok (nlri, 2 + nlri_len))))))"

text \<open>One round of the loop: a route that is rejected ends it.\<close>

definition mvpn_entry :: "bytes \<Rightarrow> (mvpn_nlri list \<times> bytes) result" where
  "mvpn_entry buf = (case parse_mvpn_nlri buf of
       Ok (nlri, consumed) \<Rightarrow> and_then (slice_from buf consumed) (\<lambda>r. Ok ([nlri], r))
     | Err _ \<Rightarrow> Ok ([], [])
     | Panic \<Rightarrow> Panic)"

lemma parse_mvpn_nlri_consumed: "parse_mvpn_nlri buf = Ok (x, n) \<Longrightarrow> 2 \<le> n \<and> n \<le> length buf"
  by (auto simp: parse_mvpn_nlri_def Let_def and_then_Ok_iff split: if_splits)

lemma mvpn_entry_rest: "buf \<noteq> [] \<Longrightarrow> mvpn_entry buf = Ok (xs, r) \<Longrightarrow> length r < length buf"
  by (auto simp: mvpn_entry_def and_then_Ok_iff slice_from_def
    dest!: parse_mvpn_nlri_consumed split: outcome.splits if_splits)

function parse_mvpn_nlri_list :: "bytes \<Rightarrow> mvpn_nlri list result" where
  "parse_mvpn_nlri_list [] = Ok []"
| "parse_mvpn_nlri_list (b # bs) =
     and_then (mvpn_entry (b # bs)) (\<lambda>(xs, buf).
     and_then (parse_mvpn_nlri_list buf) (\<lambda>ys. Ok (xs @ ys)))"
  by pat_completeness auto
termination
  by (relation "measure length") (use mvpn_entry_rest in fastforce)+

interpretation mvpn_loop: byte_loop "\<lambda>buf. buf \<noteq> []" mvpn_entry parse_mvpn_nlri_list
proof (rule byte_loopI)
  fix b bs xs r
  show "length r < length (b # bs)" if "mvpn_entry (b # bs) = Ok (xs, r)"
    using mvpn_entry_rest [OF _ that] by simp
qed simp_all

section \<open>Where decoding can panic\<close>

lemma mvpn_parsers_no_panic [panics]:
  "parse_intra_as_ipmsi v \<noteq> Panic" "parse_inter_as_ipmsi v \<noteq> Panic" "parse_leaf_ad v \<noteq> Panic"
  "parse_source_active v \<noteq> Panic" "parse_shared_tree_join v \<noteq> Panic" "parse_source_tree_join v \<noteq> Panic"
  by (auto simp: mvpn_parsers Let_def and_then_Panic_iff panics)

text \<open>The value of an S-PMSI route that makes the decoder panic: its source address can be read, and
  the length announced for it reaches to the end of the route or beyond.\<close>

definition spmsi_overrun :: "bytes \<Rightarrow> bool" where
  "spmsi_overrun v \<longleftrightarrow> 10 \<le> length v \<and> 9 + (if unat (v ! 8) div 8 = 16 then 16 else 4) \<le> length v
     \<and> length v \<le> 9 + unat (v ! 8) div 8"

lemma parse_spmsi_Panic_iff: "parse_spmsi v = Panic \<longleftrightarrow> spmsi_overrun v"
proof (cases "10 \<le> length v")
  case True
  have router: "(if p + 4 \<le> length v then result_ok (read_ipv4 v p) else Ok None) \<noteq> Panic" for p
    by (simp add: reads)
  from True show ?thesis
    unfolding parse_spmsi_def spmsi_overrun_def Let_def
    using read_ip_Ok_iff [of v 9 "unat (v ! 8) div 8 = 16"] router
    by (auto simp: reads and_then_Panic_iff panics)
qed (simp add: parse_spmsi_def spmsi_overrun_def)

lemma parse_mvpn_nlri_Panic_iff:
  "parse_mvpn_nlri buf = Panic \<longleftrightarrow>
    2 \<le> length buf \<and> buf ! 0 = 3 \<and> 2 + unat (buf ! 1) \<le> length buf
    \<and> spmsi_overrun (take (unat (buf ! 1)) (drop 2 buf))"
proof (cases "2 \<le> length buf")
  case True
  then have "(at buf 0 :: u8 result) = Ok (buf ! 0)" "(at buf 1 :: u8 result) = Ok (buf ! 1)"
    by (auto intro!: at_Ok)
  with True show ?thesis
    by (auto simp: parse_mvpn_nlri_def Let_def slice_Ok and_then_Panic_iff panics parse_spmsi_Panic_iff)
qed (simp add: parse_mvpn_nlri_def)

text \<open>Decoding one multicast VPN route never panics except on an S-PMSI route (type 3) whose
  source length announces at least as many octets as the route has left: there the code indexes
  behind its end. An S-PMSI route cut after a regular IPv4 source is such a route. Everything the
  decoder does not panic on it decodes or rejects.\<close>

theorem mvpn_panics_exactly:
  "(parse_mvpn_nlri buf = Panic \<longleftrightarrow>
     2 \<le> length buf \<and> buf ! 0 = 3 \<and> 2 + unat (buf ! 1) \<le> length buf
     \<and> spmsi_overrun (take (unat (buf ! 1)) (drop 2 buf)))
   \<and> parse_mvpn_nlri_list ([3, 13, 0, 0, 0, 0, 0, 0, 0, 0, 32, 192, 0, 2, 1] @ rest) = Panic"
proof
  have "parse_mvpn_nlri ([3, 13, 0, 0, 0, 0, 0, 0, 0, 0, 32, 192, 0, 2, 1] @ rest) = Panic"
    by (simp add: parse_mvpn_nlri_Panic_iff spmsi_overrun_def)
  then show "parse_mvpn_nlri_list ([3, 13, 0, 0, 0, 0, 0, 0, 0, 0, 32, 192, 0, 2, 1] @ rest) = Panic"
    by (simp add: mvpn_entry_def)
qed (rule parse_mvpn_nlri_Panic_iff)

section \<open>Round trip\<close>

fun mvpn_addr_bits :: "ip_addr \<Rightarrow> u8" where
  "mvpn_addr_bits (IpV4 _) = 32"
| "mvpn_addr_bits (IpV6 _) = 128"

fun mvpn_addr :: "ip_addr \<Rightarrow> bytes" where
  "mvpn_addr (IpV4 a) = to_be_bytes 4 a"
| "mvpn_addr (IpV6 a) = to_be_bytes 16 a"

text \<open>The layouts the decoder reads. An S-PMSI route ends with its originating router; a leaf route
  has its addresses at the offsets 8, 12 and 28.\<close>

fun mvpn_value :: "mvpn_nlri \<Rightarrow> bytes" where
  "mvpn_value (IntraAsIPmsi rd a) = rd @ to_be_bytes 4 a"
| "mvpn_value (InterAsIPmsi rd a) = rd @ to_be_bytes 4 a"
| "mvpn_value (MvpnSPmsi rd s g _) =
     rd @ mvpn_addr_bits s # mvpn_addr s @ mvpn_addr_bits g # mvpn_addr g @ [0, 0, 0, 0]"
| "mvpn_value (MvpnLeafAd rd s g r) = rd @ mvpn_addr s @ mvpn_addr g @ replicate 12 0 @ mvpn_addr r"
| "mvpn_value (SourceActive rd s g) =
     rd @ mvpn_addr_bits s # mvpn_addr s @ mvpn_addr_bits g # mvpn_addr g"
| "mvpn_value (SharedTreeJoin rd n rp g) = rd @ to_be_bytes 4 n @ mvpn_addr rp @ mvpn_addr g"
| "mvpn_value (SourceTreeJoin rd n s g) = rd @ to_be_bytes 4 n @ mvpn_addr s @ mvpn_addr g"
| "mvpn_value (UnknownMvpn t v) = v"

definition encode_mvpn :: "mvpn_nlri \<Rightarrow> bytes" where
  "encode_mvpn x = mvpn_route_type x # word_of_nat (length (mvpn_value x)) # mvpn_value x"

definition is_v4 :: "ip_addr \<Rightarrow> bool" where
  "is_v4 a = (case a of IpV4 _ \<Rightarrow> True | IpV6 _ \<Rightarrow> False)"

fun mvpn_wf :: "mvpn_nlri \<Rightarrow> bool" where
  "mvpn_wf (MvpnSPmsi rd s g n) \<longleftrightarrow> length rd = 8 \<and> n = 0"
| "mvpn_wf (MvpnLeafAd rd s g r) \<longleftrightarrow> length rd = 8 \<and> is_v4 s \<and> is_v4 g \<and> is_v4 r"
| "mvpn_wf (SharedTreeJoin rd n s g) \<longleftrightarrow> length rd = 8 \<and> is_v4 s \<and> is_v4 g"
| "mvpn_wf (SourceTreeJoin rd n s g) \<longleftrightarrow> length rd = 8 \<and> is_v4 s \<and> is_v4 g"
| "mvpn_wf (UnknownMvpn t v) \<longleftrightarrow> t \<notin> {1, 2, 3, 4, 5, 6, 7} \<and> length v < 256"
| "mvpn_wf x \<longleftrightarrow> length (mvpn_rd x) = 8"

lemma is_v4E: "is_v4 a \<Longrightarrow> (\<And>x. a = IpV4 x \<Longrightarrow> P) \<Longrightarrow> P"
  by (cases a) (auto simp: is_v4_def)

lemma mvpn_addr_length [simp]: "length (mvpn_addr a) = unat (mvpn_addr_bits a) div 8"
  by (cases a) auto

lemma mvpn_addr_octets: "unat (mvpn_addr_bits a) div 8 = (case a of IpV4 _ \<Rightarrow> 4 | IpV6 _ \<Rightarrow> 16)"
  by (cases a) auto

lemma read_ip_addr [reads]:
  "length p = pos \<Longrightarrow> v6 = (unat (mvpn_addr_bits a) div 8 = 16) \<Longrightarrow>
    read_ip (p @ mvpn_addr a @ r) pos v6 = Ok a"
  by (cases a) (auto simp: read_ip_def reads)

lemma mvpn_value_length: "mvpn_wf x \<Longrightarrow> length (mvpn_value x) < 256"
  by (cases x rule: mvpn_wf.cases)
    (auto elim!: is_v4E simp: mvpn_addr_octets split: ip_addr.splits)

lemma spmsi_roundtrip:
  "length rd = 8 \<Longrightarrow> parse_spmsi (mvpn_value (MvpnSPmsi rd s g 0)) = Ok (MvpnSPmsi rd s g 0)"
proof -
  assume rd: "length rd = 8"
  let ?v = "mvpn_value (MvpnSPmsi rd s g 0)"
  let ?s = "unat (mvpn_addr_bits s) div 8"
  have "at ?v 8 = Ok (mvpn_addr_bits s)" "at ?v (9 + ?s) = Ok (mvpn_addr_bits g)"
    using rd by (simp_all add: reads nth_append)
  moreover have "read_ip ?v 9 (?s = 16) = Ok s"
    using rd read_ip_addr [of "rd @ [mvpn_addr_bits s]" 9 _ s] by simp
  moreover have "read_ip ?v (9 + ?s + 1) (unat (mvpn_addr_bits g) div 8 = 16) = Ok g"
    using rd read_ip_addr [of "rd @ [mvpn_addr_bits s] @ mvpn_addr s @ [mvpn_addr_bits g]" "9 + ?s + 1" _ g]
    by simp
  moreover have "9 + ?s + 1 + unat (mvpn_addr_bits g) div 8 + 4 \<le> length ?v"
    using rd by simp
  ultimately show ?thesis
    using rd unfolding parse_spmsi_def Let_def by (simp add: reads)
qed

lemma source_active_roundtrip:
  "length rd = 8 \<Longrightarrow> parse_source_active (mvpn_value (SourceActive rd s g)) = Ok (SourceActive rd s g)"
proof -
  assume rd: "length rd = 8"
  let ?v = "mvpn_value (SourceActive rd s g)"
  let ?s = "unat (mvpn_addr_bits s) div 8"
  have "at ?v 8 = Ok (mvpn_addr_bits s)" "at ?v (9 + ?s) = Ok (mvpn_addr_bits g)"
    using rd by (simp_all add: reads nth_append)
  moreover have "read_ip ?v 9 (?s = 16) = Ok s"
    using rd read_ip_addr [of "rd @ [mvpn_addr_bits s]" 9 _ s] by simp
  moreover have "read_ip ?v (9 + ?s + 1) (unat (mvpn_addr_bits g) div 8 = 16) = Ok g"
    using rd read_ip_addr [of "rd @ [mvpn_addr_bits s] @ mvpn_addr s @ [mvpn_addr_bits g]" "9 + ?s + 1" _ g "[]"]
    by simp
  ultimately show ?thesis
    using rd unfolding parse_source_active_def Let_def by (simp add: reads)
qed

lemma parse_mvpn_nlri_encoded:
  assumes wf: "mvpn_wf x"
  shows "parse_mvpn_nlri (encode_mvpn x @ r) = Ok (x, 2 + length (mvpn_value x))"
proof -
  let ?t = "mvpn_route_type x" and ?v = "mvpn_value x"
  have len: "unat (word_of_nat (length ?v) :: u8) = length ?v"
    using mvpn_value_length [OF wf] by (simp add: unat_word_of_nat)
  have *: "parse_mvpn_nlri (encode_mvpn x @ r) =
     and_then (if ?t = 1 then parse_intra_as_ipmsi ?v else if ?t = 2 then parse_inter_as_ipmsi ?v
               else if ?t = 3 then parse_spmsi ?v else if ?t = 4 then parse_leaf_ad ?v
               else if ?t = 5 then parse_source_active ?v else if ?t = 6 then parse_shared_tree_join ?v
               else if ?t = 7 then parse_source_tree_join ?v else Ok (UnknownMvpn ?t ?v))
       (\<lambda>nlri. Ok (nlri, 2 + length ?v))"
    by (simp add: parse_mvpn_nlri_def encode_mvpn_def reads len)
  show ?thesis
    using wf unfolding *
    by (cases x) (auto elim!: is_v4E simp: spmsi_roundtrip source_active_roundtrip reads
      parse_intra_as_ipmsi_def parse_inter_as_ipmsi_def parse_leaf_ad_def
      parse_shared_tree_join_def parse_source_tree_join_def simp del: mvpn_value.simps(3,5))
qed

theorem mvpn_roundtrip:
  "\<forall>x \<in> set xs. mvpn_wf x \<Longrightarrow> parse_mvpn_nlri_list (concat (map encode_mvpn xs)) = Ok xs"
proof (rule mvpn_loop.loop_encoded)
  fix x r
  assume "\<forall>x \<in> set xs. mvpn_wf x" "x \<in> set xs"
  then have "parse_mvpn_nlri (encode_mvpn x @ r) = Ok (x, 2 + length (mvpn_value x))"
    by (simp add: parse_mvpn_nlri_encoded)
  then show "encode_mvpn x @ r \<noteq> [] \<and> mvpn_entry (encode_mvpn x @ r) = Ok ([x], r)"
    by (simp add: mvpn_entry_def encode_mvpn_def reads)
qed

end
