(* ===== verification/Spec2Isabelle.thy ===== *)
theory Spec2Isabelle
  imports Query_Laws Streaming_Laws Collector_Protocol Mvpn Evpn
begin

text \<open>
  A verification development for the BGP monitoring pipeline of bonsai, the Rust code under \<open>src/crates/\<close> (the crates
  \<open>rbmp-core\<close>, \<open>rbmp-rib\<close> and \<open>rbmp-store\<close>) and the parts of \<open>src/src/\<close> that run it.

  \<^bold>\<open>The program.\<close> Routers report the BGP routes of their peers over BMP (RFC 7854). A connection is a stream of frames;
  \<open>read_bmp_frame\<close> cuts it up, and the parser turns a frame into a message: Peer Up with the two OPENs of a BGP session, Route
  Monitoring with an UPDATE, Peer Down, statistics, Initiation, Termination. The capabilities of the OPENs decide how later
  UPDATEs are decoded. The RIB manager keeps a session per speaker, a session per peer and a table of routes per peer and
  RIB type, runs the route filters, and sends an event for every change. The routing service puts this between two
  journals: received messages are appended to one before they are processed, emitted events to the other afterwards, and
  after a restart the state is rebuilt from the first and the second is completed. An internal HTTP API answers queries on routes,
  peers, history and events. A second, independent BMP decoder feeds the telemetry process, and a framing protocol carries BMP
  messages from collectors.

  \<^bold>\<open>Theories and sources.\<close>

  \<^item> Foundations. \<open>Prelude\<close>: outcomes (\<open>Ok\<close>, \<open>Err\<close>, \<open>Panic\<close>), byte slices and big-endian numbers. \<open>Parse_Loop\<close>: the locales
    \<open>parse_loop\<close> and \<open>byte_loop\<close> of decoders that read one item after the other, interpreted on every such decoder.
    \<open>Hash_Map\<close>: the contract of \<open>HashMap\<close> as the locale \<open>hash_map\<close>. \<open>Net_Types\<close>: addresses, and the crates \<open>ipnet\<close> and
    \<open>chrono\<close> as the record \<open>externals\<close> with the locales of what is relied on.
  \<^item> BGP (\<open>rbmp-core/src/bgp/\<close>). \<open>Bgp_Types\<close> (\<open>types.rs\<close>, \<open>error.rs\<close>), \<open>Nlri\<close>, \<open>Capabilities\<close> (\<open>capabilities.rs\<close>, \<open>open.rs\<close> and the
    decode context), \<open>Evpn\<close>, \<open>Sr_Policy\<close>, \<open>Bgp_Ls\<close>, \<open>Flowspec\<close>, \<open>Srv6\<close>, \<open>Mvpn\<close>, \<open>Attributes\<close> with \<open>Attribute_Laws\<close>
    (\<open>attributes.rs\<close>) and \<open>Update\<close> (\<open>update.rs\<close>).
  \<^item> BMP (\<open>rbmp-core/src/bmp/\<close>). \<open>Bmp_Types\<close>, \<open>Path_Status\<close>, \<open>Bmp_Parser\<close>; \<open>Collector_Protocol\<close> (\<open>collector_protocol.rs\<close>).
  \<^item> RIB (\<open>rbmp-rib/src/\<close>). \<open>Rib_Table\<close> (\<open>table.rs\<close>), \<open>Session\<close>, \<open>Filter_Expr\<close> (\<open>filter_expr.rs\<close>, \<open>filter.pest\<close>), \<open>Route_Filter\<close>
    (\<open>filter.rs\<close>), \<open>Rib_Manager\<close> (\<open>manager.rs\<close>, \<open>event.rs\<close>), with \<open>Rib_Laws\<close> and \<open>Rib_Properties\<close>.
  \<^item> Journals and service. \<open>Journal\<close> and \<open>Journal_Laws\<close> (\<open>rbmp-store/src/journal.rs\<close>); \<open>Routing_Service\<close>, \<open>Recovery\<close>,
    \<open>Routing_Queries\<close> and \<open>Query_Laws\<close> (\<open>src/routing_service/mod.rs\<close>).
  \<^item> Streaming receiver. \<open>Streaming_Bmp\<close> and \<open>Streaming_Laws\<close> (\<open>src/streaming/bmp.rs\<close>).

  A struct is a record, an enum a datatype, and a function of the source a definition of the same name, with a suffix where a name is
  taken (\<open>_s\<close> in the streaming receiver). Integers are words of their width, \<open>usize\<close> a natural number. A handler takes the state and
  returns what it emits and the new state.

  \<^bold>\<open>What is shown.\<close>

  \<^item> Decoders. Round trips with reference encoders: unicast, labeled, VPN, EVPN, link-state, SR policy, OPEN, AS paths, UPDATE,
    Route Monitoring and Peer Up. Accepted messages are framed exactly. Most decoders are shown not to panic;
    for the others the inputs that make them panic are given.
  \<^item> Stream. The frame reader returns exactly the well-formed frames at the front of a stream, and a closed stream of such frames is
    delivered completely; the reader of the streaming receiver delivers the same frames.
  \<^item> Table and manager. A table refines a partial function for every run of operations; best-path selection and
    long-lived graceful restart; an invariant over all reachable states (\<open>rib_step\<close>, \<open>reachable\<close>); what a Route Monitoring message
    does to the table of its peer; isolation of speakers; fencing of old connections; numbering of events under
    every operation. The filter language means what its grammar says.
  \<^item> Durability. A torn journal is repaired and replayed exactly. \<open>Recovery\<close> relates the running manager to the one rebuilt from the
    journal by a simulation (\<open>rebuilt\<close>), kept by every run (\<open>serves\<close>) in which messages come from the newest connection of their speaker; a
    restart then loses no route and no event and repeats none. Without that condition routes are lost, which is a theorem too.
  \<^item> Queries. Paging visits every route once; the event feed misses nothing; where limits and filters fail.

  Theorems about faults of the code state what the code does on the inputs concerned.

  \<^bold>\<open>Loops and bounds.\<close> No definition needs fuel: loops are recursive functions that consume their input, each with a termination
  proof. Where a loop carries a number it is one the source has: a count from the wire, a position, or a length for an
  error message. The run of a frame reader over a stream is an inductive relation (\<open>delivers\<close>, \<open>collects\<close>), whose existence is proved for
  closed streams. \<open>fetch_pages\<close> and \<open>poll_events\<close> describe a client and count its requests; the theorems say how many are enough.
  The counters for epochs and event numbers are 64-bit words that wrap; theorems that need them not to wrap say so.

  \<^bold>\<open>Parameters.\<close> Code outside the repository is an argument: \<open>ipnet\<close>, \<open>chrono\<close> and the overflow checks of the build profile
  (\<open>externals\<close>), the pest parser, \<open>ipnet\<close> text parsing and \<open>serde_yaml\<close> of the filters (\<open>filter_externals\<close>), \<open>serde_json\<close>
  (\<open>json\<close>, with \<open>json_ok\<close>), MessagePack (\<open>msgpack\<close>, with \<open>msgpack_ok\<close>). Each hypothesis on them is shown to hold for a concrete instance, and the
  witnesses use those instances. Clocks and random identifiers are arguments. Hash maps are association lists whose order is
  the order of iteration, which the source leaves open; the theorems hold for every order.

  \<^bold>\<open>Not modelled.\<close> Logging, metrics, locks (handlers run one at a time), task scheduling and the capacity of the broadcast
  channel; the file system beyond the contents of the two journals; the JIT filter engine behind the feature \<open>roto-jit\<close>; the HTTP
  handlers around the answers, the parsing of the ingest request, the diagnostics and scenario modules, and the projection of
  events into the graph store; the JSON archive of the streaming receiver and the event bus. The rest of the repository (graph and SQL stores, HTTP
  server, telemetry subscriptions, integrations, Python agents) consists of calls to databases, networks and libraries whose
  behaviour is not in the source.
\<close>

end
